theory Spec2Isabelle
  imports Complex_Main "HOL-Library.Sublist"
begin

section \<open>JavaScript strings\<close>

text \<open>
  A JavaScript string is a sequence of UTF-16 code units, and \<open>length\<close> counts code
  units. The code units are natural numbers here; no arithmetic is done on them.
\<close>

type_synonym jsstring = "nat list"

definition js :: "string \<Rightarrow> jsstring" where
  "js s = map of_char s"

text \<open>
  The characters removed by \<open>String.prototype.trim\<close> and matched by the regular
  expression class \<open>\s\<close>: the WhiteSpace and LineTerminator productions of ECMAScript.
\<close>

definition isWhiteSpace :: "nat \<Rightarrow> bool" where
  "isWhiteSpace c \<longleftrightarrow>
     c \<in> {9, 10, 11, 12, 13, 32, 160, 5760, 8232, 8233, 8239, 8287, 12288, 65279}
     \<or> (8192 \<le> c \<and> c \<le> 8202)"

definition isDigit :: "nat \<Rightarrow> bool" where
  "isDigit c \<longleftrightarrow> 48 \<le> c \<and> c \<le> 57"

definition trim :: "jsstring \<Rightarrow> jsstring" where
  "trim s = rev (dropWhile isWhiteSpace (rev (dropWhile isWhiteSpace s)))"

text \<open>\<open>s.includes(sep)\<close>: \<open>sep\<close> occurs in \<open>s\<close> at some position.\<close>

fun includes_str :: "jsstring \<Rightarrow> jsstring \<Rightarrow> bool" where
  "includes_str [] sep = (sep = [])"
| "includes_str (c # cs) sep = (prefix sep (c # cs) \<or> includes_str cs sep)"

text \<open>
  \<open>s.split(sep)\<close> for a string separator: the scan goes left to right, a match closes
  the current piece and the scan resumes after the separator; the last piece is what
  remains. \<open>split_from acc s sep\<close> is the scan with \<open>acc\<close> the piece read so far.
  With the empty separator JavaScript splits between all code units.
\<close>

function split_from :: "jsstring \<Rightarrow> jsstring \<Rightarrow> jsstring \<Rightarrow> jsstring list" where
  "split_from acc [] sep = [acc]"
| "split_from acc (c # cs) sep =
     (if prefix sep (c # cs) \<and> sep \<noteq> []
      then acc # split_from [] (drop (length sep) (c # cs)) sep
      else split_from (acc @ [c]) cs sep)"
  by pat_completeness auto
termination
  by (relation "measure (\<lambda>(acc, s, sep). length s)") auto

definition split :: "jsstring \<Rightarrow> jsstring \<Rightarrow> jsstring list" where
  "split s sep = (if sep = [] then map (\<lambda>c. [c]) s else split_from [] s sep)"

text \<open>\<open>parts.join(sep)\<close>.\<close>

fun join :: "jsstring list \<Rightarrow> jsstring \<Rightarrow> jsstring" where
  "join [] sep = []"
| "join [p] sep = p"
| "join (p # q # ps) sep = p @ sep @ join (q # ps) sep"

text \<open>The decimal rendering of a non-negative integer inside a template string.\<close>

function decimal :: "nat \<Rightarrow> jsstring" where
  "decimal n = (if n < 10 then [48 + n] else decimal (n div 10) @ [48 + n mod 10])"
  by pat_completeness auto
termination
  by (relation "measure id") auto

declare decimal.simps [simp del]

text \<open>\<open>s.replace(/[ \t]+/g, ' ')\<close>: every maximal run of spaces and tabs becomes one space.\<close>

definition isBlank :: "nat \<Rightarrow> bool" where
  "isBlank c \<longleftrightarrow> c = 32 \<or> c = 9"

function collapseBlanks :: "jsstring \<Rightarrow> jsstring" where
  "collapseBlanks [] = []"
| "collapseBlanks (c # cs) =
     (if isBlank c then 32 # collapseBlanks (dropWhile isBlank cs)
      else c # collapseBlanks cs)"
  by pat_completeness auto
termination
  by (relation "measure length") (auto simp: le_imp_less_Suc length_dropWhile_le)

text \<open>
  \<open>s.replace(/\n{3,}/g, '\n\n')\<close>: every maximal run of three or more line feeds becomes
  two line feeds; shorter runs stay.
\<close>

function collapseNewlines :: "jsstring \<Rightarrow> jsstring" where
  "collapseNewlines [] = []"
| "collapseNewlines (c # cs) =
     (if c = 10
      then (let run = takeWhile (\<lambda>d. d = 10) cs
            in (if 2 \<le> length run then [10, 10] else 10 # run)
               @ collapseNewlines (dropWhile (\<lambda>d. d = 10) cs))
      else c # collapseNewlines cs)"
  by pat_completeness auto
termination
  by (relation "measure length") (auto simp: le_imp_less_Suc length_dropWhile_le)

text \<open>
  \<open>s.replace(/^\d+\.\s*/, '')\<close>: a leading run of digits followed by a dot is removed
  together with the white space after it. The run of digits is greedy, and giving digits
  back never helps, since the code unit after a shorter run is a digit and not the dot.
\<close>

definition stripNumberMarker :: "jsstring \<Rightarrow> jsstring" where
  "stripNumberMarker s =
     (let ds = takeWhile isDigit s; r = dropWhile isDigit s
      in case r of
           [] \<Rightarrow> s
         | c # r' \<Rightarrow> if ds \<noteq> [] \<and> c = 46 then dropWhile isWhiteSpace r' else s)"

text \<open>
  \<open>s.replace(/^[-\<bullet>]\s*/, '')\<close> with the bullet U+2022: one leading hyphen or bullet is
  removed together with the white space after it.
\<close>

definition stripBulletMarker :: "jsstring \<Rightarrow> jsstring" where
  "stripBulletMarker s =
     (case s of
        [] \<Rightarrow> []
      | c # r \<Rightarrow> if c = 45 \<or> c = 8226 then dropWhile isWhiteSpace r else s)"

section \<open>Documents, configuration and the process-wide state\<close>

text \<open>
  A LangChain \<open>Document\<close>: the page content and a metadata object. The keys the
  program writes are fields; every other key (the splitter's \<open>loc\<close>) is carried along.
\<close>

text \<open>
  What a \<open>fileType\<close> position holds at run time: a string, or, when it comes from a
  lookup in an object literal under a key that the literal inherits from
  \<open>Object.prototype\<close>, the inherited member of that name (a function, or for
  \<open>__proto__\<close> the prototype object): a value that is truthy and not a string.
\<close>

datatype fileTypeValue = TypeName jsstring | PrototypeMember jsstring

record metadata =
  md_docId :: "jsstring option"
  md_source :: "jsstring option"
  md_fileType :: "fileTypeValue option"
  md_other :: "(jsstring \<times> jsstring) list"

record document =
  pageContent :: jsstring
  metadata :: metadata

text \<open>An element of \<open>global.storedDocuments\<close>.\<close>

record storedDocument =
  docId :: jsstring
  doc :: document

record DocumentMeta =
  id' :: jsstring
  filename :: jsstring
  uploadTime :: jsstring
  chunkCount :: nat
  fileType :: fileTypeValue

record RagConfig =
  topK :: nat
  chunkSize :: nat
  chunkOverlap :: nat
  model :: jsstring
  temperature :: real

text \<open>
  A thrown value: an \<open>Error\<close> object with its message, or any other value.
\<close>

datatype error = Error jsstring | NonError

text \<open>
  What the program asks of the outside world is recorded in a trace, oldest first.
\<close>

datatype event =
    EmbeddingRequest "jsstring list"
  | ChatRequest jsstring real jsstring
  | FileWritten jsstring "nat list"

text \<open>
  The outcome of one POST to the embedding endpoint as \<open>callDashScopeEmbedding\<close>
  tells them apart: \<open>fetch\<close> or the JSON decoding throws, the status is not ok (with the
  response text), the body has no \<open>data\<close> array, or the body lists embeddings.
\<close>

datatype 'v embeddingResponse =
    FetchFailed error
  | NotOk jsstring
  | Malformed
  | Embeddings "'v list"

text \<open>
  The collaborators that are not code of this repository. Vectors are of an arbitrary
  type \<open>'v\<close>.
  \<^item> \<open>DASHSCOPE_API_KEY\<close>: the environment variable, possibly unset.
  \<^item> \<open>embeddingsEndpoint\<close>, \<open>chatModel\<close>: the embedding endpoint on the texts sent and
    the chat model on its name, temperature and prompt; the first argument is the
    trace so far, so that an answer may depend on everything asked before.
  \<^item> \<open>dateNow\<close>: the clock, as the value of its n-th reading; \<open>toISOString\<close> renders
    an instant.
  \<^item> \<open>toLowerCase\<close>: \<open>String.prototype.toLowerCase\<close>.
  \<^item> \<open>similaritySearch\<close>: the search of LangChain's in-memory vector store on the
    query vector, \<open>k\<close> and the entries; \<open>splitDocuments\<close>: its recursive character
    splitter on \<open>chunkSize\<close>, \<open>chunkOverlap\<close> and the documents (the separators are
    fixed in the source).
  \<^item> \<open>uploadPath\<close>: the path of a file name in the uploads directory; \<open>saveFile\<close>:
    \<open>mkdir\<close> and \<open>writeFile\<close>, with what they throw if they do; \<open>readFile\<close>,
    \<open>readdir\<close>: the file system read; \<open>utf8\<close>: decoding bytes to text.
  \<^item> \<open>pdfParse\<close>, \<open>xlsxSheets\<close> (sheet names with their CSV text), \<open>mammoth\<close>: the
    parsers of the file formats.
\<close>

record 'v env =
  DASHSCOPE_API_KEY :: "jsstring option"
  embeddingsEndpoint :: "event list \<Rightarrow> jsstring list \<Rightarrow> 'v embeddingResponse"
  chatModel :: "event list \<Rightarrow> jsstring \<Rightarrow> real \<Rightarrow> jsstring \<Rightarrow> error + jsstring"
  dateNow :: "nat \<Rightarrow> nat"
  toISOString :: "nat \<Rightarrow> jsstring"
  toLowerCase :: "jsstring \<Rightarrow> jsstring"
  similaritySearch :: "'v option \<Rightarrow> nat \<Rightarrow> ('v option \<times> document) list \<Rightarrow> error + document list"
  splitDocuments :: "nat \<Rightarrow> nat \<Rightarrow> document list \<Rightarrow> error + document list"
  uploadPath :: "jsstring \<Rightarrow> jsstring"
  saveFile :: "jsstring \<Rightarrow> nat list \<Rightarrow> error option"
  readFile :: "jsstring \<Rightarrow> error + nat list"
  utf8 :: "nat list \<Rightarrow> jsstring"
  pdfParse :: "nat list \<Rightarrow> error + jsstring"
  xlsxSheets :: "nat list \<Rightarrow> error + (jsstring \<times> jsstring) list"
  mammoth :: "nat list \<Rightarrow> error + jsstring"
  readdir :: "error + jsstring list"

text \<open>
  The globals of \<open>vector-store.ts\<close> (each may be \<open>undefined\<close>), the trace and the
  number of clock readings so far. The vector store instance is the list of its
  entries, a vector (or \<open>undefined\<close>) with its document, in insertion order.
\<close>

record 'v state =
  vectorStoreInstance :: "('v option \<times> document) list option"
  storedDocuments :: "storedDocument list option"
  documentMetas :: "DocumentMeta list option"
  ragConfig :: "RagConfig option"
  calls :: "event list"
  clockReads :: nat

text \<open>\<open>x || []\<close> and \<open>x || ''\<close> on a value that may be \<open>undefined\<close>; \<open>xs[j]\<close>.\<close>

definition or_empty :: "'a list option \<Rightarrow> 'a list" where
  "or_empty x = (case x of None \<Rightarrow> [] | Some xs \<Rightarrow> xs)"

definition nth_opt :: "'a list \<Rightarrow> nat \<Rightarrow> 'a option" where
  "nth_opt xs j = (if j < length xs then Some (xs ! j) else None)"

text \<open>\<open>Date.now()\<close> and \<open>new Date()\<close>: the next reading of the clock.\<close>

definition readClock :: "'v env \<Rightarrow> 'v state \<Rightarrow> nat \<times> 'v state" where
  "readClock env st = (dateNow env (clockReads st), st\<lparr>clockReads := Suc (clockReads st)\<rparr>)"

section \<open>vector-store.ts\<close>

definition DEFAULT_RAG_CONFIG :: RagConfig where
  "DEFAULT_RAG_CONFIG =
     \<lparr>topK = 5, chunkSize = 500, chunkOverlap = 100, model = js ''qwen-max'',
      temperature = 3 / 10\<rparr>"

definition typeMap :: "(jsstring \<times> jsstring) list" where
  "typeMap =
     [(js ''pdf'', js ''PDF''), (js ''txt'', js ''TXT''), (js ''md'', js ''Markdown''),
      (js ''markdown'', js ''Markdown''), (js ''xlsx'', js ''Excel''),
      (js ''xls'', js ''Excel''), (js ''docx'', js ''Word''), (js ''doc'', js ''Word'')]"

text \<open>\<open>filename.toLowerCase().split('.').pop() || ''\<close>.\<close>

definition getFileExtension :: "'v env \<Rightarrow> jsstring \<Rightarrow> jsstring" where
  "getFileExtension env name = last (split (toLowerCase env name) [46])"

text \<open>
  The property names every object literal inherits from \<open>Object.prototype\<close>: a lookup
  \<open>typeMap[ext]\<close> under one of them finds the inherited member.
\<close>

definition OBJECT_PROTOTYPE_KEYS :: "jsstring list" where
  "OBJECT_PROTOTYPE_KEYS =
     [js ''constructor'', js ''__proto__'', js ''hasOwnProperty'', js ''isPrototypeOf'',
      js ''propertyIsEnumerable'', js ''toLocaleString'', js ''toString'', js ''valueOf'',
      js ''__defineGetter__'', js ''__defineSetter__'', js ''__lookupGetter__'',
      js ''__lookupSetter__'']"

text \<open>
  \<open>typeMap[ext] || 'Unknown'\<close>: the table's own entry, else the inherited member
  (truthy), else \<open>Unknown\<close>.
\<close>

definition detectFileType :: "'v env \<Rightarrow> jsstring \<Rightarrow> fileTypeValue" where
  "detectFileType env name =
     (let ext = getFileExtension env name
      in case map_of typeMap ext of
           Some t \<Rightarrow> TypeName t
         | None \<Rightarrow>
             if ext \<in> set OBJECT_PROTOTYPE_KEYS then PrototypeMember ext
             else TypeName (js ''Unknown''))"

definition getRagConfig :: "'v state \<Rightarrow> RagConfig \<times> 'v state" where
  "getRagConfig st =
     (case ragConfig st of
        None \<Rightarrow> (DEFAULT_RAG_CONFIG, st\<lparr>ragConfig := Some DEFAULT_RAG_CONFIG\<rparr>)
      | Some c \<Rightarrow> (c, st))"

definition getVectorStore :: "'v state \<Rightarrow> 'v state" where
  "getVectorStore st =
     (case vectorStoreInstance st of
        Some _ \<Rightarrow> st
      | None \<Rightarrow>
          st\<lparr>vectorStoreInstance := Some [],
             storedDocuments := Some (or_empty (storedDocuments st)),
             documentMetas := Some (or_empty (documentMetas st))\<rparr>)"

definition getDocumentMetas :: "'v state \<Rightarrow> DocumentMeta list" where
  "getDocumentMetas st = or_empty (documentMetas st)"

record KnowledgeBaseStats =
  documentCount :: nat
  totalChunks :: nat
  documents :: "DocumentMeta list"
  config :: RagConfig

definition getKnowledgeBaseStats :: "'v state \<Rightarrow> KnowledgeBaseStats \<times> 'v state" where
  "getKnowledgeBaseStats st =
     (let metas = or_empty (documentMetas st);
          totalChunks = foldl (\<lambda>sum m. sum + chunkCount m) 0 metas;
          (c, st') = getRagConfig st
      in (\<lparr>documentCount = length metas, totalChunks = totalChunks, documents = metas,
           config = c\<rparr>, st'))"

subsection \<open>The embedding client\<close>

text \<open>
  What \<open>callDashScopeEmbedding\<close> does to each text before sending it: trimmed, and cut
  to 2048 code units when longer.
\<close>

definition processText :: "jsstring \<Rightarrow> jsstring" where
  "processText text =
     (let cleaned = trim text
      in if 2048 < length cleaned then take 2048 cleaned else cleaned)"

definition callDashScopeEmbedding ::
  "'v env \<Rightarrow> jsstring list \<Rightarrow> 'v state \<Rightarrow> (error + 'v list) \<times> 'v state" where
  "callDashScopeEmbedding env texts st =
     (if or_empty (DASHSCOPE_API_KEY env) = []
      then (Inl (Error (js ''DASHSCOPE_API_KEY is required for embeddings'')), st)
      else
        let processedTexts = map processText texts;
            st' = st\<lparr>calls := calls st @ [EmbeddingRequest processedTexts]\<rparr>
        in case embeddingsEndpoint env (calls st) processedTexts of
             FetchFailed e \<Rightarrow> (Inl e, st')
           | NotOk body \<Rightarrow> (Inl (Error (js ''DashScope Embedding API error: '' @ body)), st')
           | Malformed \<Rightarrow> (Inl (Error (js ''Invalid API response format'')), st')
           | Embeddings vs \<Rightarrow> (Inr vs, st'))"

text \<open>
  The loop of \<open>embedDocuments\<close>: \<open>i\<close> is the loop variable, \<open>results\<close> the vectors pushed
  so far. A failing call throws out of the loop and \<open>results\<close> is lost.
\<close>

function embedDocuments_loop ::
  "'v env \<Rightarrow> jsstring list \<Rightarrow> nat \<Rightarrow> 'v list \<Rightarrow> 'v state \<Rightarrow> (error + 'v list) \<times> 'v state"
where
  "embedDocuments_loop env texts i results st =
     (if i < length texts
      then (case callDashScopeEmbedding env (take 10 (drop i texts)) st of
              (Inl e, st') \<Rightarrow> (Inl e, st')
            | (Inr embeddings, st') \<Rightarrow>
                embedDocuments_loop env texts (i + 10) (results @ embeddings) st')
      else (Inr results, st))"
  by pat_completeness auto
termination
  by (relation "measure (\<lambda>(env, texts, i, results, st). length texts - i)") auto

declare embedDocuments_loop.simps [simp del]

definition embedDocuments ::
  "'v env \<Rightarrow> jsstring list \<Rightarrow> 'v state \<Rightarrow> (error + 'v list) \<times> 'v state" where
  "embedDocuments env texts st = embedDocuments_loop env texts 0 [] st"

definition embedQuery ::
  "'v env \<Rightarrow> jsstring \<Rightarrow> 'v state \<Rightarrow> (error + 'v option) \<times> 'v state" where
  "embedQuery env query st =
     (case callDashScopeEmbedding env [query] st of
        (Inl e, st') \<Rightarrow> (Inl e, st')
      | (Inr embeddings, st') \<Rightarrow> (Inr (nth_opt embeddings 0), st'))"

subsection \<open>Ingestion\<close>

text \<open>
  The inner loop of \<open>addDocumentsToStore\<close> over one batch: the chunk gets the document
  id, the file name and the file type in its metadata, goes into the vector store with
  the vector at its position, and is pushed onto \<open>storedDocuments\<close>.
\<close>

definition docWithMeta ::
  "jsstring \<Rightarrow> jsstring \<Rightarrow> fileTypeValue \<Rightarrow> document \<Rightarrow> document" where
  "docWithMeta docId' filename' detected d =
     \<lparr>pageContent = pageContent d,
      metadata = (metadata d)
        \<lparr>md_docId := Some docId', md_source := Some filename',
         md_fileType := Some detected\<rparr>\<rparr>"

definition addChunk ::
  "jsstring \<Rightarrow> jsstring \<Rightarrow> fileTypeValue \<Rightarrow> document list \<Rightarrow> 'v list \<Rightarrow> nat \<Rightarrow> 'v state \<Rightarrow> 'v state"
where
  "addChunk docId' filename' detected batch vectors j st =
     (let d = docWithMeta docId' filename' detected (batch ! j)
      in st\<lparr>vectorStoreInstance :=
               Some (or_empty (vectorStoreInstance st) @ [(nth_opt vectors j, d)]),
            storedDocuments :=
               Some (or_empty (storedDocuments st) @ [\<lparr>docId = docId', doc = d\<rparr>])\<rparr>)"

definition addBatch ::
  "jsstring \<Rightarrow> jsstring \<Rightarrow> fileTypeValue \<Rightarrow> document list \<Rightarrow> 'v list \<Rightarrow> 'v state \<Rightarrow> 'v state"
where
  "addBatch docId' filename' detected batch vectors st =
     fold (addChunk docId' filename' detected batch vectors) [0..<length batch] st"

function addDocuments_loop ::
  "'v env \<Rightarrow> jsstring \<Rightarrow> jsstring \<Rightarrow> fileTypeValue \<Rightarrow> document list \<Rightarrow> nat \<Rightarrow> 'v state
    \<Rightarrow> (error + unit) \<times> 'v state"
where
  "addDocuments_loop env docId' filename' detected docs i st =
     (if i < length docs
      then (let batch = take 10 (drop i docs)
            in case embedDocuments env (map pageContent batch) st of
                 (Inl e, st') \<Rightarrow> (Inl e, st')
               | (Inr vectors, st') \<Rightarrow>
                   addDocuments_loop env docId' filename' detected docs (i + 10)
                     (addBatch docId' filename' detected batch vectors st'))
      else (Inr (), st))"
  by pat_completeness auto
termination
  by (relation "measure (\<lambda>(env, docId', filename', ft, docs, i, st). length docs - i)") auto

declare addDocuments_loop.simps [simp del]

text \<open>
  \<open>fileType || detectFileType(filename)\<close>: the argument unless it is \<open>undefined\<close> or
  the empty string.
\<close>

definition detectedFileType ::
  "'v env \<Rightarrow> jsstring \<Rightarrow> fileTypeValue option \<Rightarrow> fileTypeValue" where
  "detectedFileType env filename' fileType' =
     (case fileType' of
        None \<Rightarrow> detectFileType env filename'
      | Some v \<Rightarrow> if v = TypeName [] then detectFileType env filename' else v)"

definition addDocumentsToStore ::
  "'v env \<Rightarrow> document list \<Rightarrow> jsstring \<Rightarrow> fileTypeValue option \<Rightarrow> 'v state
    \<Rightarrow> (error + DocumentMeta) \<times> 'v state"
where
  "addDocumentsToStore env docs filename' fileType' st =
     (let st1 = getVectorStore st;
          (now, st2) = readClock env st1;
          docId' = js ''doc_'' @ decimal now;
          detected = detectedFileType env filename' fileType'
      in case addDocuments_loop env docId' filename' detected docs 0 st2 of
           (Inl e, st3) \<Rightarrow> (Inl e, st3)
         | (Inr _, st3) \<Rightarrow>
             (let (t, st4) = readClock env st3;
                  docMeta =
                    \<lparr>id' = docId', filename = filename', uploadTime = toISOString env t,
                     chunkCount = length docs, fileType = detected\<rparr>
              in (Inr docMeta,
                  st4\<lparr>documentMetas := Some (or_empty (documentMetas st4) @ [docMeta])\<rparr>)))"

subsection \<open>Deletion and clearing\<close>

text \<open>
  The rebuild loop of \<open>deleteDocument\<close>: the remaining chunks are embedded again, batch
  by batch, into a new vector store \<open>newVectorStore\<close>.
\<close>

definition rebuildBatch ::
  "storedDocument list \<Rightarrow> 'v list \<Rightarrow> ('v option \<times> document) list \<Rightarrow> ('v option \<times> document) list"
where
  "rebuildBatch batch vectors newVectorStore =
     fold (\<lambda>j store. store @ [(nth_opt vectors j, doc (batch ! j))]) [0..<length batch]
       newVectorStore"

function rebuild_loop ::
  "'v env \<Rightarrow> storedDocument list \<Rightarrow> nat \<Rightarrow> ('v option \<times> document) list \<Rightarrow> 'v state
    \<Rightarrow> (error + ('v option \<times> document) list) \<times> 'v state"
where
  "rebuild_loop env remainingDocs i newVectorStore st =
     (if i < length remainingDocs
      then (let batch = take 10 (drop i remainingDocs)
            in case embedDocuments env (map (\<lambda>d. pageContent (doc d)) batch) st of
                 (Inl e, st') \<Rightarrow> (Inl e, st')
               | (Inr vectors, st') \<Rightarrow>
                   rebuild_loop env remainingDocs (i + 10)
                     (rebuildBatch batch vectors newVectorStore) st')
      else (Inr newVectorStore, st))"
  by pat_completeness auto
termination
  by (relation "measure (\<lambda>(env, remainingDocs, i, store, st). length remainingDocs - i)") auto

declare rebuild_loop.simps [simp del]

record deleteResult =
  success :: bool
  remainingChunks :: nat

definition deleteDocument ::
  "'v env \<Rightarrow> jsstring \<Rightarrow> 'v state \<Rightarrow> (error + deleteResult) \<times> 'v state" where
  "deleteDocument env docId' st =
     (let metas = filter (\<lambda>m. id' m \<noteq> docId') (or_empty (documentMetas st));
          remainingDocs = filter (\<lambda>d. docId d \<noteq> docId') (or_empty (storedDocuments st));
          st1 = st\<lparr>documentMetas := Some metas, storedDocuments := Some remainingDocs\<rparr>
      in case rebuild_loop env remainingDocs 0 [] st1 of
           (Inl e, st2) \<Rightarrow> (Inl e, st2)
         | (Inr newVectorStore, st2) \<Rightarrow>
             (Inr \<lparr>success = True, remainingChunks = length remainingDocs\<rparr>,
              st2\<lparr>vectorStoreInstance := Some newVectorStore\<rparr>))"

definition clearKnowledgeBase :: "'v state \<Rightarrow> 'v state" where
  "clearKnowledgeBase st =
     st\<lparr>vectorStoreInstance := None, storedDocuments := Some [], documentMetas := Some []\<rparr>"

definition clearAllDocuments :: "'v state \<Rightarrow> 'v state" where
  "clearAllDocuments st =
     st\<lparr>vectorStoreInstance := None, storedDocuments := Some [], documentMetas := Some []\<rparr>"

subsection \<open>Sequences of clearing operations\<close>

datatype clearOp = ClearKnowledgeBase | ClearAllDocuments

fun runClear :: "clearOp \<Rightarrow> 'v state \<Rightarrow> 'v state" where
  "runClear ClearKnowledgeBase st = clearKnowledgeBase st"
| "runClear ClearAllDocuments st = clearAllDocuments st"

subsection \<open>Consecutive sub-batches\<close>

text \<open>The consecutive pieces of at most \<open>n\<close> elements that a list falls into.\<close>

function subBatches :: "nat \<Rightarrow> 'a list \<Rightarrow> 'a list list" where
  "subBatches n xs = (if xs = [] \<or> n = 0 then [] else take n xs # subBatches n (drop n xs))"
  by pat_completeness auto
termination
  by (relation "measure (\<lambda>(n, xs). length xs)") auto

declare subBatches.simps [simp del]

subsection \<open>The registry and the stored chunks\<close>

text \<open>
  The consistency of the registry with the stored chunks: every record counts the
  stored entries that carry its id. A document id is fresh in a state when no record and
  no stored entry carries it.
\<close>

definition consistent :: "'v state \<Rightarrow> bool" where
  "consistent st \<longleftrightarrow>
     (\<forall>m \<in> set (or_empty (documentMetas st)).
        chunkCount m
          = length (filter (\<lambda>d. docId d = id' m) (or_empty (storedDocuments st))))"

definition fresh_id :: "jsstring \<Rightarrow> 'v state \<Rightarrow> bool" where
  "fresh_id i st \<longleftrightarrow>
     i \<notin> id' ` set (or_empty (documentMetas st))
     \<and> i \<notin> docId ` set (or_empty (storedDocuments st))"

text \<open>The id the next ingestion will use: \<open>doc_\<close> and the next clock reading.\<close>

definition nextDocId :: "'v env \<Rightarrow> 'v state \<Rightarrow> jsstring" where
  "nextDocId env st = js ''doc_'' @ decimal (dateNow env (clockReads st))"

subsection \<open>Sequences of store operations\<close>

datatype operation =
    Ingest "document list" jsstring "fileTypeValue option"
  | Delete jsstring
  | Clear

fun perform :: "'v env \<Rightarrow> operation \<Rightarrow> 'v state \<Rightarrow> 'v state" where
  "perform env (Ingest docs name ft) st = snd (addDocumentsToStore env docs name ft st)"
| "perform env (Delete i) st = snd (deleteDocument env i st)"
| "perform env Clear st = clearKnowledgeBase st"

text \<open>A sequence of operations in which every ingestion draws a fresh id.\<close>

fun fresh_run :: "'v env \<Rightarrow> operation list \<Rightarrow> 'v state \<Rightarrow> bool" where
  "fresh_run env [] st = True"
| "fresh_run env (op # ops) st =
     ((case op of Ingest docs name ft \<Rightarrow> fresh_id (nextDocId env st) st | _ \<Rightarrow> True)
      \<and> fresh_run env ops (perform env op st))"

subsection \<open>The requests of an ingestion\<close>

text \<open>
  What \<open>callDashScopeEmbedding\<close> throws on an answer of the endpoint, if it throws.
\<close>

definition thrownBy :: "'v embeddingResponse \<Rightarrow> error option" where
  "thrownBy r =
     (case r of
        FetchFailed e \<Rightarrow> Some e
      | NotOk body \<Rightarrow> Some (Error (js ''DashScope Embedding API error: '' @ body))
      | Malformed \<Rightarrow> Some (Error (js ''Invalid API response format''))
      | Embeddings vs \<Rightarrow> None)"

text \<open>
  The texts sent for sub-batch \<open>j\<close> of a document (chunks \<open>10 * j\<close> up to
  \<open>10 * j + 9\<close>), the requests of the first \<open>k\<close> sub-batches, and the endpoint's
  answer to sub-batch \<open>j\<close> when the sub-batches before it have been sent.
\<close>

definition batchTexts :: "document list \<Rightarrow> nat \<Rightarrow> jsstring list" where
  "batchTexts docs j = map (\<lambda>d. processText (pageContent d)) (take 10 (drop (10 * j) docs))"

definition batchRequests :: "document list \<Rightarrow> nat \<Rightarrow> event list" where
  "batchRequests docs k = map (\<lambda>j. EmbeddingRequest (batchTexts docs j)) [0..<k]"

definition batchAnswer :: "'v env \<Rightarrow> 'v state \<Rightarrow> document list \<Rightarrow> nat \<Rightarrow> 'v embeddingResponse" where
  "batchAnswer env st docs j =
     embeddingsEndpoint env (calls st @ batchRequests docs j) (batchTexts docs j)"

section \<open>rag.ts: answering a question\<close>

record RetrievedChunk =
  content :: jsstring
  source :: jsstring

record RagResult =
  answer :: jsstring
  chunks :: "RetrievedChunk list"
  suggestedQuestions :: "jsstring list"

text \<open>
  The fixed answer of \<open>queryRag\<close> when nothing is retrieved (a Chinese
  sentence: sorry, nothing relevant was found in the knowledge base, please upload
  documents first), as UTF-16 code units.
\<close>

definition NO_INFORMATION_ANSWER :: jsstring where
  "NO_INFORMATION_ANSWER =
     [25265, 27465, 65292, 30693, 35782, 24211, 20013, 27809, 26377, 25214, 21040, 30456,
      20851, 20449, 24687, 12290, 35831, 20808, 19978, 20256, 30456, 20851, 25991, 26723,
      12290]"

text \<open>
  The source shown for a chunk without one (Chinese: unknown source).
\<close>

definition UNKNOWN_SOURCE :: jsstring where
  "UNKNOWN_SOURCE =
     [26410, 30693, 26469, 28304]"

text \<open>
  The prompt template up to the context: the role, the five rules (the last one asks for
  the separator line followed by three follow-up questions) and the heading of the
  reference material.
\<close>

definition PROMPT_HEAD :: jsstring where
  "PROMPT_HEAD =
     [20320, 26159, 19968, 20010, 19987, 19994, 30340, 30693, 35782, 24211, 38382, 31572,
      21161, 25163, 12290, 35831, 20005, 26684, 26681, 25454, 20197, 19979, 25552, 20379,
      30340, 36164, 26009, 26469, 22238, 31572, 29992, 25143, 30340, 38382, 39064, 12290,
      10, 10, 35, 35, 32, 37325, 35201, 35268, 21017, 65306, 10, 49, 46, 32, 21482, 33021,
      20351, 29992, 19979, 38754, 25552, 20379, 30340, 36164, 26009, 20869, 23481, 26469,
      22238, 31572, 10, 50, 46, 32, 22914, 26524, 36164, 26009, 20013, 21253, 21547, 30456,
      20851, 20449, 24687, 65292, 35831, 20934, 30830, 24341, 29992, 24182, 22238, 31572,
      10, 51, 46, 32, 22914, 26524, 36164, 26009, 20013, 30830, 23454, 27809, 26377, 30456,
      20851, 20449, 24687, 65292, 35831, 26126, 30830, 35828, 34, 26681, 25454, 24050,
      19978, 20256, 30340, 25991, 26723, 65292, 26410, 25214, 21040, 30456, 20851, 20449,
      24687, 34, 10, 52, 46, 32, 22238, 31572, 35201, 26465, 29702, 28165, 26224, 65292,
      21487, 20197, 20351, 29992, 21015, 34920, 26684, 24335, 10, 53, 46, 32, 22238, 31572,
      23436, 25104, 21518, 65292, 22312, 26368, 21518, 21478, 36215, 19968, 34892, 65292,
      20197, 34, 45, 45, 45, 83, 85, 71, 71, 69, 83, 84, 69, 68, 95, 81, 85, 69, 83, 84,
      73, 79, 78, 83, 45, 45, 45, 34, 24320, 22836, 65292, 28982, 21518, 25442, 34892,
      21015, 20986, 51, 20010, 29992, 25143, 21487, 33021, 24819, 32487, 32493, 38382,
      30340, 30456, 20851, 38382, 39064, 65292, 27599, 20010, 38382, 39064, 19968, 34892,
      65292, 38382, 39064, 35201, 22522, 20110, 36164, 26009, 20869, 23481, 65292, 24110,
      21161, 29992, 25143, 28145, 20837, 20102, 35299, 10, 10, 35, 35, 32, 21442, 32771,
      36164, 26009, 65306, 10]"

text \<open>
  The prompt template between the context and the question: the heading of the question.
\<close>

definition PROMPT_MIDDLE :: jsstring where
  "PROMPT_MIDDLE =
     [10, 10, 35, 35, 32, 29992, 25143, 38382, 39064, 65306, 10]"

text \<open>
  The prompt template after the question: the heading of the answer.
\<close>

definition PROMPT_TAIL :: jsstring where
  "PROMPT_TAIL =
     [10, 10, 35, 35, 32, 22238, 31572, 65306]"

text \<open>
  The label that opens a fragment of the context (a bracket and the Chinese word for
  fragment); the fragment number follows.
\<close>

definition FRAGMENT_OPEN :: jsstring where
  "FRAGMENT_OPEN =
     [12304, 29255, 27573]"

text \<open>
  The closing bracket of the label and a line feed.
\<close>

definition FRAGMENT_CLOSE :: jsstring where
  "FRAGMENT_CLOSE =
     [12305, 10]"

definition SEPARATOR :: jsstring where
  "SEPARATOR = js ''---SUGGESTED_QUESTIONS---''"

text \<open>
  \<open>vectorStore.asRetriever({ k }).invoke(question)\<close>: LangChain embeds the question with
  the store's embeddings object and searches the entries.
\<close>

definition retrieve ::
  "'v env \<Rightarrow> jsstring \<Rightarrow> nat \<Rightarrow> 'v state \<Rightarrow> (error + document list) \<times> 'v state" where
  "retrieve env question k st =
     (case embedQuery env question st of
        (Inl e, st') \<Rightarrow> (Inl e, st')
      | (Inr queryVector, st') \<Rightarrow>
          (similaritySearch env queryVector k (or_empty (vectorStoreInstance st')), st'))"

text \<open>The context block: the numbered fragments joined by a rule.\<close>

definition buildContext :: "document list \<Rightarrow> jsstring" where
  "buildContext docs =
     join (map (\<lambda>i. FRAGMENT_OPEN @ decimal (i + 1) @ FRAGMENT_CLOSE @ pageContent (docs ! i))
               [0..<length docs])
          [10, 10, 45, 45, 45, 10, 10]"

definition buildPrompt :: "document list \<Rightarrow> jsstring \<Rightarrow> jsstring" where
  "buildPrompt docs question =
     PROMPT_HEAD @ buildContext docs @ PROMPT_MIDDLE @ question @ PROMPT_TAIL"

text \<open>
  The parsing of the raw answer at the end of \<open>queryRag\<close>: the answer and the
  suggested questions.
\<close>

definition cleanQuestion :: "jsstring \<Rightarrow> jsstring" where
  "cleanQuestion q = trim (stripBulletMarker (stripNumberMarker q))"

definition parseRawAnswer :: "jsstring \<Rightarrow> jsstring \<times> jsstring list" where
  "parseRawAnswer rawAnswer =
     (if includes_str rawAnswer SEPARATOR
      then
        let parts = split rawAnswer SEPARATOR;
            questionsText = (case nth_opt parts 1 of None \<Rightarrow> [] | Some p \<Rightarrow> trim p)
        in (trim (hd parts),
            take 3 (filter (\<lambda>q. 0 < length q \<and> length q < 100)
                      (map cleanQuestion (split questionsText [10]))))
      else (rawAnswer, []))"

text \<open>
  \<open>createLLM(model, temperature)\<close> throws without the key; \<open>model.invoke(prompt)\<close> is
  the chat collaborator.
\<close>

definition invokeModel ::
  "'v env \<Rightarrow> jsstring \<Rightarrow> real \<Rightarrow> jsstring \<Rightarrow> 'v state \<Rightarrow> (error + jsstring) \<times> 'v state" where
  "invokeModel env m t prompt st =
     (if or_empty (DASHSCOPE_API_KEY env) = []
      then (Inl (Error (js ''DASHSCOPE_API_KEY is required'')), st)
      else (chatModel env (calls st) m t prompt,
            st\<lparr>calls := calls st @ [ChatRequest m t prompt]\<rparr>))"

definition queryRag ::
  "'v env \<Rightarrow> jsstring \<Rightarrow> nat option \<Rightarrow> 'v state \<Rightarrow> (error + RagResult) \<times> 'v state" where
  "queryRag env question customTopK st =
     (let (cfg, st1) = getRagConfig st;
          k = (case customTopK of None \<Rightarrow> topK cfg | Some k' \<Rightarrow> k');
          st2 = getVectorStore st1
      in case retrieve env question k st2 of
           (Inl e, st3) \<Rightarrow> (Inl e, st3)
         | (Inr docs, st3) \<Rightarrow>
             (let cs = map (\<lambda>d. \<lparr>content = pageContent d,
                                   source = (case md_source (metadata d) of
                                               None \<Rightarrow> UNKNOWN_SOURCE
                                             | Some s \<Rightarrow> if s = [] then UNKNOWN_SOURCE else s)\<rparr>)
                           docs
              in if docs = []
                 then (Inr \<lparr>answer = NO_INFORMATION_ANSWER, chunks = [],
                            suggestedQuestions = []\<rparr>, st3)
                 else (case invokeModel env (model cfg) (temperature cfg)
                              (buildPrompt docs question) st3 of
                         (Inl e, st4) \<Rightarrow> (Inl e, st4)
                       | (Inr rawAnswer, st4) \<Rightarrow>
                           (let (a, qs) = parseRawAnswer rawAnswer
                            in (Inr \<lparr>answer = a, chunks = cs, suggestedQuestions = qs\<rparr>,
                                st4)))))"

section \<open>The upload and reindex routes\<close>

text \<open>
  The error messages of the upload route, in Chinese in the source, as UTF-16 code units.
  No file was chosen.
\<close>

definition MSG_NO_FILE :: jsstring where
  "MSG_NO_FILE =
     [26410, 36873, 25321, 25991, 20214]"

text \<open>
  The key is not configured.
\<close>

definition MSG_NO_KEY :: jsstring where
  "MSG_NO_KEY =
     [26410, 37197, 32622, 32, 68, 65, 83, 72, 83, 67, 79, 80, 69, 95, 65, 80, 73, 95, 75,
      69, 89]"

text \<open>
  Unsupported file type: the text before the extension.
\<close>

definition MSG_UNSUPPORTED_HEAD :: jsstring where
  "MSG_UNSUPPORTED_HEAD =
     [19981, 25903, 25345, 30340, 25991, 20214, 31867, 22411, 58, 32, 46]"

text \<open>
  Unsupported file type: the text between the extension and the list of supported formats.
\<close>

definition MSG_UNSUPPORTED_MIDDLE :: jsstring where
  "MSG_UNSUPPORTED_MIDDLE =
     [12290, 25903, 25345, 30340, 26684, 24335, 58, 32]"

text \<open>
  The PDF could not be parsed.
\<close>

definition MSG_PDF_FAILED :: jsstring where
  "MSG_PDF_FAILED =
     [80, 68, 70, 32, 35299, 26512, 22833, 36133, 65292, 21487, 33021, 26159, 25195, 25551,
      29256, 25110, 21152, 23494, 32, 80, 68, 70]"

text \<open>
  The workbook could not be parsed.
\<close>

definition MSG_EXCEL_FAILED :: jsstring where
  "MSG_EXCEL_FAILED =
     [69, 120, 99, 101, 108, 32, 35299, 26512, 22833, 36133]"

text \<open>
  The Word file could not be parsed.
\<close>

definition MSG_WORD_FAILED :: jsstring where
  "MSG_WORD_FAILED =
     [87, 111, 114, 100, 32, 35299, 26512, 22833, 36133, 65292, 20165, 25903, 25345, 32,
      46, 100, 111, 99, 120, 32, 26684, 24335]"

text \<open>
  The empty-content error after the file type: the content is empty or no text could be
  extracted, please check the file.
\<close>

definition MSG_EMPTY_CONTENT :: jsstring where
  "MSG_EMPTY_CONTENT =
     [32, 20869, 23481, 20026, 31354, 25110, 26080, 27861, 25552, 21462, 25991, 23383,
      12290, 35831, 26816, 26597, 25991, 20214, 26159, 21542, 27491, 30830, 12290]"

text \<open>
  No text fragment could be produced.
\<close>

definition MSG_NO_CHUNKS :: jsstring where
  "MSG_NO_CHUNKS =
     [25991, 26723, 22788, 29702, 22833, 36133, 65292, 26080, 27861, 29983, 25104, 25991,
      26412, 29255, 27573]"

text \<open>
  The success message before the number of fragments.
\<close>

definition MSG_UPLOADED_HEAD :: jsstring where
  "MSG_UPLOADED_HEAD =
     [25991, 26723, 19978, 20256, 25104, 21151, 65281, 24050, 22788, 29702, 32]"

text \<open>
  The success message after the number of fragments.
\<close>

definition MSG_UPLOADED_TAIL :: jsstring where
  "MSG_UPLOADED_TAIL =
     [32, 20010, 25991, 26412, 29255, 27573, 12290]"

text \<open>
  The message of the outer catch block before the error message.
\<close>

definition MSG_FAILED :: jsstring where
  "MSG_FAILED =
     [22788, 29702, 22833, 36133, 58, 32]"

text \<open>
  What stands for the message of a thrown value that is not an Error.
\<close>

definition MSG_UNKNOWN_ERROR :: jsstring where
  "MSG_UNKNOWN_ERROR =
     [26410, 30693, 38169, 35823]"

text \<open>
  The label of a worksheet: before the sheet name.
\<close>

definition SHEET_OPEN :: jsstring where
  "SHEET_OPEN =
     [12304, 24037, 20316, 34920, 58, 32]"

text \<open>
  The label of a worksheet: after the sheet name, with a line feed.
\<close>

definition SHEET_CLOSE :: jsstring where
  "SHEET_CLOSE =
     [12305, 10]"

text \<open>
  The statuses of the reindex route: empty content, skipped.
\<close>

definition STATUS_SKIPPED :: jsstring where
  "STATUS_SKIPPED =
     [20869, 23481, 20026, 31354, 65292, 36339, 36807]"

text \<open>
  Success.
\<close>

definition STATUS_OK :: jsstring where
  "STATUS_OK =
     [25104, 21151]"

text \<open>
  Failure, before the error message.
\<close>

definition STATUS_FAILED :: jsstring where
  "STATUS_FAILED =
     [22833, 36133, 58, 32]"

text \<open>
  The uploads directory does not exist or is empty.
\<close>

definition MSG_NO_DIRECTORY :: jsstring where
  "MSG_NO_DIRECTORY =
     [117, 112, 108, 111, 97, 100, 115, 32, 30446, 24405, 19981, 23384, 22312, 25110,
      20026, 31354]"

text \<open>
  The uploads directory holds no document that can be processed.
\<close>

definition MSG_NOTHING_TO_INDEX :: jsstring where
  "MSG_NOTHING_TO_INDEX =
     [117, 112, 108, 111, 97, 100, 115, 32, 30446, 24405, 20013, 27809, 26377, 21487,
      22788, 29702, 30340, 25991, 26723]"

text \<open>
  The summary of a reindex: before the number of files.
\<close>

definition MSG_REINDEXED_HEAD :: jsstring where
  "MSG_REINDEXED_HEAD =
     [37325, 26032, 32034, 24341, 23436, 25104, 65292, 20849, 22788, 29702, 32]"

text \<open>
  The summary of a reindex: between the number of files and the number of fragments.
\<close>

definition MSG_REINDEXED_MIDDLE :: jsstring where
  "MSG_REINDEXED_MIDDLE =
     [32, 20010, 25991, 20214, 65292]"

text \<open>
  The summary of a reindex: after the number of fragments.
\<close>

definition MSG_REINDEXED_TAIL :: jsstring where
  "MSG_REINDEXED_TAIL =
     [32, 20010, 29255, 27573]"

definition SUPPORTED_EXTENSIONS :: "jsstring list" where
  "SUPPORTED_EXTENSIONS =
     [js ''txt'', js ''pdf'', js ''xlsx'', js ''xls'', js ''docx'', js ''doc'', js ''md'',
      js ''markdown'']"

text \<open>
  The cleaning of the extracted text in both routes: trimmed, runs of spaces and tabs
  collapsed to one space, runs of three or more line feeds to two.
\<close>

definition cleanContent :: "jsstring \<Rightarrow> jsstring" where
  "cleanContent content' = collapseNewlines (collapseBlanks (trim content'))"

text \<open>\<open>err instanceof Error ? err.message : ...\<close>.\<close>

definition messageOf :: "error \<Rightarrow> jsstring" where
  "messageOf e = (case e of Error m \<Rightarrow> m | NonError \<Rightarrow> MSG_UNKNOWN_ERROR)"

text \<open>The sheets of a workbook as text: blank sheets are left out.\<close>

definition sheetsText :: "(jsstring \<times> jsstring) list \<Rightarrow> jsstring" where
  "sheetsText sheets =
     join (map (\<lambda>(sheetName, sheetText). SHEET_OPEN @ sheetName @ SHEET_CLOSE @ sheetText)
             (filter (\<lambda>(sheetName, sheetText). trim sheetText \<noteq> []) sheets))
          [10, 10]"

subsection \<open>upload/route.ts\<close>

record uploadedFile =
  fileName :: jsstring
  fileBytes :: "nat list"

datatype uploadBody =
    ErrorBody jsstring
  | UploadedBody jsstring DocumentMeta

record uploadResponse =
  status :: nat
  body :: uploadBody

text \<open>The response of the outer catch block.\<close>

definition processingFailed :: "error \<Rightarrow> uploadResponse" where
  "processingFailed e = \<lparr>status = 500, body = ErrorBody (MSG_FAILED @ messageOf e)\<rparr>"

text \<open>
  The chain of branches on the extension: the text of the file and its type, or the
  response that ends the request (a parser's failure has its own response; a failing
  read of the saved file goes to the outer catch block).
\<close>

definition extractContent ::
  "'v env \<Rightarrow> jsstring \<Rightarrow> jsstring \<Rightarrow> nat list \<Rightarrow> uploadResponse + jsstring \<times> jsstring" where
  "extractContent env ext filePath buffer =
     (if ext = js ''txt'' then
        (case readFile env filePath of
           Inl e \<Rightarrow> Inl (processingFailed e)
         | Inr b \<Rightarrow> Inr (utf8 env b, js ''TXT''))
      else if ext = js ''md'' \<or> ext = js ''markdown'' then
        (case readFile env filePath of
           Inl e \<Rightarrow> Inl (processingFailed e)
         | Inr b \<Rightarrow> Inr (utf8 env b, js ''Markdown''))
      else if ext = js ''pdf'' then
        (case pdfParse env buffer of
           Inl e \<Rightarrow> Inl \<lparr>status = 500, body = ErrorBody MSG_PDF_FAILED\<rparr>
         | Inr t \<Rightarrow> Inr (t, js ''PDF''))
      else if ext = js ''xlsx'' \<or> ext = js ''xls'' then
        (case xlsxSheets env buffer of
           Inl e \<Rightarrow> Inl \<lparr>status = 500, body = ErrorBody MSG_EXCEL_FAILED\<rparr>
         | Inr sheets \<Rightarrow> Inr (sheetsText sheets, js ''Excel''))
      else if ext = js ''docx'' \<or> ext = js ''doc'' then
        (case mammoth env buffer of
           Inl e \<Rightarrow> Inl \<lparr>status = 500, body = ErrorBody MSG_WORD_FAILED\<rparr>
         | Inr t \<Rightarrow> Inr (t, js ''Word''))
      else Inr ([], []))"

text \<open>The single document made of the whole cleaned text.\<close>

definition wholeDocument :: "jsstring \<Rightarrow> jsstring \<Rightarrow> fileTypeValue \<Rightarrow> document" where
  "wholeDocument content' source' fileType' =
     \<lparr>pageContent = content',
      metadata = \<lparr>md_docId = None, md_source = Some source', md_fileType = Some fileType',
                  md_other = []\<rparr>\<rparr>"

text \<open>The handler after the text has been cleaned and found long enough.\<close>

definition ingestContent ::
  "'v env \<Rightarrow> jsstring \<Rightarrow> jsstring \<Rightarrow> jsstring \<Rightarrow> 'v state \<Rightarrow> uploadResponse \<times> 'v state" where
  "ingestContent env name content' fileType' st =
     (let docs = [wholeDocument content' name (TypeName fileType')];
          (cfg, st1) = getRagConfig st
      in case splitDocuments env (chunkSize cfg) (chunkOverlap cfg) docs of
           Inl e \<Rightarrow> (processingFailed e, st1)
         | Inr split0 \<Rightarrow>
             (let splitDocs = (if split0 = [] \<and> 0 < length content' then docs else split0)
              in if splitDocs = []
                 then (\<lparr>status = 400, body = ErrorBody MSG_NO_CHUNKS\<rparr>, st1)
                 else (case addDocumentsToStore env splitDocs name (Some (TypeName fileType')) st1 of
                         (Inl e, st2) \<Rightarrow> (processingFailed e, st2)
                       | (Inr docMeta, st2) \<Rightarrow>
                           (\<lparr>status = 200,
                             body = UploadedBody
                                      (MSG_UPLOADED_HEAD @ decimal (length splitDocs)
                                       @ MSG_UPLOADED_TAIL)
                                      docMeta\<rparr>, st2))))"

definition POST_upload ::
  "'v env \<Rightarrow> uploadedFile option \<Rightarrow> 'v state \<Rightarrow> uploadResponse \<times> 'v state" where
  "POST_upload env file st =
     (case file of
        None \<Rightarrow> (\<lparr>status = 400, body = ErrorBody MSG_NO_FILE\<rparr>, st)
      | Some f \<Rightarrow>
          if or_empty (DASHSCOPE_API_KEY env) = []
          then (\<lparr>status = 500, body = ErrorBody MSG_NO_KEY\<rparr>, st)
          else
            let ext = getFileExtension env (fileName f)
            in if ext \<notin> set SUPPORTED_EXTENSIONS
               then (\<lparr>status = 400,
                      body = ErrorBody (MSG_UNSUPPORTED_HEAD @ ext @ MSG_UNSUPPORTED_MIDDLE
                                        @ join SUPPORTED_EXTENSIONS (js '', ''))\<rparr>, st)
               else
                 let filePath = uploadPath env (fileName f)
                 in case saveFile env filePath (fileBytes f) of
                      Some e \<Rightarrow> (processingFailed e, st)
                    | None \<Rightarrow>
                        (let st1 = st\<lparr>calls := calls st @ [FileWritten filePath (fileBytes f)]\<rparr>
                         in case extractContent env ext filePath (fileBytes f) of
                              Inl response \<Rightarrow> (response, st1)
                            | Inr (extracted, fileType') \<Rightarrow>
                                (let content' = cleanContent extracted
                                 in if length content' < 10
                                    then (\<lparr>status = 400,
                                           body = ErrorBody (fileType' @ MSG_EMPTY_CONTENT)\<rparr>,
                                          st1)
                                    else ingestContent env (fileName f) content' fileType' st1)))"

subsection \<open>reindex/route.ts\<close>

definition parseFile :: "'v env \<Rightarrow> jsstring \<Rightarrow> jsstring \<Rightarrow> error + jsstring" where
  "parseFile env filePath name =
     (let ext = getFileExtension env name
      in case readFile env filePath of
           Inl e \<Rightarrow> Inl e
         | Inr buffer \<Rightarrow>
             if ext = js ''txt'' \<or> ext = js ''md'' \<or> ext = js ''markdown''
             then Inr (utf8 env buffer)
             else if ext = js ''pdf'' then pdfParse env buffer
             else if ext = js ''xlsx'' \<or> ext = js ''xls''
             then (case xlsxSheets env buffer of
                     Inl e \<Rightarrow> Inl e
                   | Inr sheets \<Rightarrow> Inr (sheetsText sheets))
             else if ext = js ''docx'' \<or> ext = js ''doc'' then mammoth env buffer
             else Inr [])"

record fileResult =
  resultFilename :: jsstring
  resultStatus :: jsstring
  resultChunks :: "nat option"

text \<open>
  The body of the loop over the files: \<open>results\<close> and \<open>totalChunks\<close> (here \<open>chunks'\<close>) are the loop's
  accumulators; whatever is thrown is caught and recorded as this file's failure.
\<close>

definition reindexFile ::
  "'v env \<Rightarrow> RagConfig \<Rightarrow> jsstring \<Rightarrow> fileResult list \<times> nat \<times> 'v state
    \<Rightarrow> fileResult list \<times> nat \<times> 'v state" where
  "reindexFile env cfg name acc =
     (case acc of (results, chunks', st) \<Rightarrow>
        let failed = (\<lambda>e. \<lparr>resultFilename = name, resultStatus = STATUS_FAILED @ messageOf e,
                            resultChunks = None\<rparr>)
        in case parseFile env (uploadPath env name) name of
             Inl e \<Rightarrow> (results @ [failed e], chunks', st)
           | Inr parsed \<Rightarrow>
               (let content' = cleanContent parsed
                in if length content' < 10
                   then (results @ [\<lparr>resultFilename = name, resultStatus = STATUS_SKIPPED,
                                     resultChunks = None\<rparr>], chunks', st)
                   else
                     let fileType' = detectFileType env name;
                         docs = [wholeDocument content' name fileType']
                     in case splitDocuments env (chunkSize cfg) (chunkOverlap cfg) docs of
                          Inl e \<Rightarrow> (results @ [failed e], chunks', st)
                        | Inr split0 \<Rightarrow>
                            (let splitDocs =
                                   (if split0 = [] \<and> 0 < length content' then docs else split0)
                             in case addDocumentsToStore env splitDocs name (Some fileType') st of
                                  (Inl e, st') \<Rightarrow> (results @ [failed e], chunks', st')
                                | (Inr docMeta, st') \<Rightarrow>
                                    (results @ [\<lparr>resultFilename = name, resultStatus = STATUS_OK,
                                                 resultChunks = Some (length splitDocs)\<rparr>],
                                     chunks' + length splitDocs, st'))))"

record reindexResponse =
  reindexSuccess :: bool
  reindexMessage :: jsstring
  processed :: nat
  reindexTotalChunks :: "nat option"
  details :: "fileResult list option"

definition POST_reindex :: "'v env \<Rightarrow> 'v state \<Rightarrow> reindexResponse \<times> 'v state" where
  "POST_reindex env st =
     (case readdir env of
        Inl e \<Rightarrow>
          (\<lparr>reindexSuccess = False, reindexMessage = MSG_NO_DIRECTORY, processed = 0,
            reindexTotalChunks = None, details = None\<rparr>, st)
      | Inr files \<Rightarrow>
          (let supportedFiles =
                 filter (\<lambda>f. getFileExtension env f \<in> set SUPPORTED_EXTENSIONS) files
           in if supportedFiles = []
              then (\<lparr>reindexSuccess = True, reindexMessage = MSG_NOTHING_TO_INDEX,
                     processed = 0, reindexTotalChunks = None, details = None\<rparr>, st)
              else
                let (cfg, st1) = getRagConfig (clearAllDocuments st);
                    (results, chunks', st2) = fold (reindexFile env cfg) supportedFiles ([], 0, st1);
                    n = length (filter (\<lambda>r. resultStatus r = STATUS_OK) results)
                in (\<lparr>reindexSuccess = True,
                     reindexMessage = MSG_REINDEXED_HEAD @ decimal n @ MSG_REINDEXED_MIDDLE
                                      @ decimal chunks' @ MSG_REINDEXED_TAIL,
                     processed = n, reindexTotalChunks = Some chunks',
                     details = Some results\<rparr>, st2)))"

section \<open>Concrete inputs\<close>

text \<open>
  A small world to run the program in: vectors are natural numbers, the embedding of a
  text is its length, the key is set, every clock reading is the same millisecond, and
  the libraries answer with fixed values.
\<close>

definition lowerAscii :: "jsstring \<Rightarrow> jsstring" where
  "lowerAscii s = map (\<lambda>c. if 65 \<le> c \<and> c \<le> 90 then c + 32 else c) s"

definition env0 :: "nat env" where
  "env0 =
     \<lparr>DASHSCOPE_API_KEY = Some (js ''sk-test''),
      embeddingsEndpoint = (\<lambda>history texts. Embeddings (map length texts)),
      chatModel = (\<lambda>history m t prompt. Inr (js ''ok'')),
      dateNow = (\<lambda>n. 1700000000000),
      toISOString = decimal,
      toLowerCase = lowerAscii,
      similaritySearch = (\<lambda>q k entries. Inr (take k (map snd entries))),
      splitDocuments = (\<lambda>size overlap ds. Inr ds),
      uploadPath = (\<lambda>name. js ''uploads/'' @ name),
      saveFile = (\<lambda>path bytes. None),
      readFile = (\<lambda>path. Inr []),
      utf8 = (\<lambda>bytes. bytes),
      pdfParse = (\<lambda>bytes. Inr bytes),
      xlsxSheets = (\<lambda>bytes. Inr []),
      mammoth = (\<lambda>bytes. Inr bytes),
      readdir = Inr []\<rparr>"

text \<open>The same world with an embedding endpoint that answers once and then refuses.\<close>

definition env_quota :: "nat env" where
  "env_quota =
     env0\<lparr>embeddingsEndpoint :=
            (\<lambda>history texts. if history = [] then Embeddings (map length texts)
                              else NotOk (js ''quota''))\<rparr>"

text \<open>The state of a fresh process: nothing is defined yet.\<close>

definition st0 :: "nat state" where
  "st0 =
     \<lparr>vectorStoreInstance = None, storedDocuments = None, documentMetas = None,
      ragConfig = None, calls = [], clockReads = 0\<rparr>"

definition chunk :: "string \<Rightarrow> document" where
  "chunk s =
     \<lparr>pageContent = js s,
      metadata = \<lparr>md_docId = None, md_source = None, md_fileType = None, md_other = []\<rparr>\<rparr>"

text \<open>
  Two ingestions in the same millisecond: a document of three chunks, then one of four.
\<close>

definition st_a :: "nat state" where
  "st_a =
     snd (addDocumentsToStore env0 [chunk ''a1'', chunk ''a2'', chunk ''a3''] (js ''a.txt'')
            (Some (TypeName (js ''TXT''))) st0)"

definition ingest_b :: "(error + DocumentMeta) \<times> nat state" where
  "ingest_b =
     addDocumentsToStore env0 [chunk ''b1'', chunk ''b2'', chunk ''b3'', chunk ''b4'']
       (js ''b.txt'') (Some (TypeName (js ''TXT''))) st_a"

text \<open>A document of eleven chunks: two sub-batches.\<close>

definition eleven :: "document list" where
  "eleven =
     [chunk ''c0'', chunk ''c1'', chunk ''c2'', chunk ''c3'', chunk ''c4'', chunk ''c5'',
      chunk ''c6'', chunk ''c7'', chunk ''c8'', chunk ''c9'', chunk ''c10'']"

text \<open>What these runs leave behind: the records and the tagged chunks.\<close>


definition meta_a :: DocumentMeta where
  "meta_a =
     \<lparr>id' = js ''doc_1700000000000'', filename = js ''a.txt'',
      uploadTime = js ''1700000000000'', chunkCount = 3, fileType = TypeName (js ''TXT'')\<rparr>"

definition meta_b :: DocumentMeta where
  "meta_b =
     \<lparr>id' = js ''doc_1700000000000'', filename = js ''b.txt'',
      uploadTime = js ''1700000000000'', chunkCount = 4, fileType = TypeName (js ''TXT'')\<rparr>"

definition tagged :: "string \<Rightarrow> string \<Rightarrow> document" where
  "tagged f s =
     \<lparr>pageContent = js s,
      metadata = \<lparr>md_docId = Some (js ''doc_1700000000000''), md_source = Some (js f),
                  md_fileType = Some (TypeName (js ''TXT'')), md_other = []\<rparr>\<rparr>"

definition ingest_c :: "(error + DocumentMeta) \<times> nat state" where
  "ingest_c = addDocumentsToStore env_quota eleven (js ''c.txt'') (Some (TypeName (js ''TXT''))) st0"

text \<open>
  A knowledge base of one chunk, and a chat model whose reply is an answer, the
  separator line, and four follow-up lines: numbered, with a bullet, with a hyphen, and
  one more.
\<close>

definition st_one :: "nat state" where
  "st_one =
     snd (addDocumentsToStore env0 [chunk ''Paris is the capital of France.''] (js ''geo.txt'')
            (Some (TypeName (js ''TXT''))) st0)"

definition raw_example :: jsstring where
  "raw_example =
     js ''Paris. '' @ [10] @ js ''---SUGGESTED_QUESTIONS---'' @ [10]
     @ js ''1. Why Paris?'' @ [10] @ [8226, 32] @ js ''Since when?'' @ [10]
     @ js ''- Which river?'' @ [10] @ js ''4. And Lyon?''"

definition env_chat :: "nat env" where
  "env_chat = env0\<lparr>chatModel := (\<lambda>history m t prompt. Inr raw_example)\<rparr>"

text \<open>The question asked of that knowledge base, and the states the query goes through.\<close>

definition question1 :: jsstring where
  "question1 = js ''Which city?''"

definition st_one_cfg :: "nat state" where
  "st_one_cfg = st_one\<lparr>ragConfig := Some DEFAULT_RAG_CONFIG\<rparr>"

definition docs_one :: "document list" where
  "docs_one =
     [\<lparr>pageContent = js ''Paris is the capital of France.'',
       metadata = \<lparr>md_docId = Some (js ''doc_1700000000000''), md_source = Some (js ''geo.txt''),
                   md_fileType = Some (TypeName (js ''TXT'')), md_other = []\<rparr>\<rparr>]"

definition st_one_retrieved :: "nat state" where
  "st_one_retrieved = st_one_cfg\<lparr>calls := calls st_one_cfg @ [EmbeddingRequest [question1]]\<rparr>"

definition st_one_answered :: "nat state" where
  "st_one_answered =
     st_one_retrieved
       \<lparr>calls := calls st_one_retrieved
          @ [ChatRequest (js ''qwen-max'') (3 / 10) (buildPrompt docs_one question1)]\<rparr>"

text \<open>
  Two uploads into the knowledge base of one chunk: a text file that holds only
  \<open>hi\<close> between blanks, and a text file of twelve characters that the splitter
  returns no segment for.
\<close>

definition env_hi :: "nat env" where
  "env_hi = env0\<lparr>readFile := (\<lambda>path. Inr (js ''  hi  ''))\<rparr>"

definition file_hi :: uploadedFile where
  "file_hi = \<lparr>fileName = js ''hi.txt'', fileBytes = js ''  hi  ''\<rparr>"

definition env_short :: "nat env" where
  "env_short =
     env0\<lparr>readFile := (\<lambda>path. Inr (js ''Hello  world!'')),
          splitDocuments := (\<lambda>size overlap ds. Inr [])\<rparr>"

definition file_short :: uploadedFile where
  "file_short = \<lparr>fileName = js ''note.txt'', fileBytes = js ''Hello  world!''\<rparr>"

text \<open>
  A chat model whose follow-up lines are a numbered one, an indented numbered one and
  one with two hyphens.
\<close>

definition raw_indented :: jsstring where
  "raw_indented =
     js ''Answer.'' @ [10] @ js ''---SUGGESTED_QUESTIONS---'' @ [10]
     @ js ''1. one'' @ [10] @ js '' 2. two'' @ [10] @ js ''- - three''"

definition env_indented :: "nat env" where
  "env_indented = env0\<lparr>chatModel := (\<lambda>history m t prompt. Inr raw_indented)\<rparr>"

section \<open>Properties of the vector store\<close>

subsection \<open>What the embedding client changes\<close>

lemma callDashScopeEmbedding_frame:
  assumes "callDashScopeEmbedding env texts st = (r, st')"
  shows "st' = st\<lparr>calls := calls st'\<rparr>"
  using assms
  by (auto simp: callDashScopeEmbedding_def Let_def split: if_splits embeddingResponse.splits)

lemma callDashScopeEmbedding_calls:
  assumes "callDashScopeEmbedding env texts st = (r, st')"
  shows "calls st' =
           (if or_empty (DASHSCOPE_API_KEY env) = [] then calls st
            else calls st @ [EmbeddingRequest (map processText texts)])"
  using assms
  by (auto simp: callDashScopeEmbedding_def Let_def split: if_splits embeddingResponse.splits)

lemma embedDocuments_one_batch:
  assumes "texts \<noteq> []" "length texts \<le> 10"
  shows "embedDocuments env texts st = callDashScopeEmbedding env texts st"
proof -
  obtain r st' where c: "callDashScopeEmbedding env texts st = (r, st')"
    by (cases "callDashScopeEmbedding env texts st")
  show ?thesis
    using assms c
    by (cases r) (simp_all add: embedDocuments_def embedDocuments_loop.simps [of env texts])
qed

lemma map_over_indices: "map (\<lambda>j. f (xs ! j)) [0..<length xs] = map f xs"
  by (rule nth_equalityI) simp_all

lemma fold_addChunk:
  "fold (addChunk did fn ft batch vectors) [0..<n] st =
     (if n = 0 then st
      else st\<lparr>vectorStoreInstance :=
               Some (or_empty (vectorStoreInstance st)
                     @ map (\<lambda>j. (nth_opt vectors j, docWithMeta did fn ft (batch ! j))) [0..<n]),
             storedDocuments :=
               Some (or_empty (storedDocuments st)
                     @ map (\<lambda>j. \<lparr>docId = did, doc = docWithMeta did fn ft (batch ! j)\<rparr>) [0..<n])\<rparr>)"
proof (induction n)
  case 0
  show ?case by simp
next
  case (Suc n)
  show ?case
  proof (cases "n = 0")
    case True
    then show ?thesis by (simp add: addChunk_def Let_def)
  next
    case False
    with Suc show ?thesis by (simp add: addChunk_def Let_def or_empty_def)
  qed
qed

lemma addBatch_value:
  "addBatch did fn ft batch vectors st =
     (if batch = [] then st
      else st\<lparr>vectorStoreInstance :=
               Some (or_empty (vectorStoreInstance st)
                     @ map (\<lambda>j. (nth_opt vectors j, docWithMeta did fn ft (batch ! j))) [0..<length batch]),
             storedDocuments :=
               Some (or_empty (storedDocuments st)
                     @ map (\<lambda>d. \<lparr>docId = did, doc = docWithMeta did fn ft d\<rparr>) batch)\<rparr>)"
  unfolding addBatch_def fold_addChunk
  using map_over_indices [of "\<lambda>d. \<lparr>docId = did, doc = docWithMeta did fn ft d\<rparr>" batch]
  by simp


subsection \<open>The ingestion loop\<close>

lemma addDocuments_loop_done:
  "length docs \<le> i \<Longrightarrow> addDocuments_loop env did fn ft docs i st = (Inr (), st)"
  by (simp add: addDocuments_loop.simps)

lemma addDocuments_loop_step:
  assumes "i < length docs"
  shows "addDocuments_loop env did fn ft docs i st =
           (case callDashScopeEmbedding env (map pageContent (take 10 (drop i docs))) st of
              (Inl e, st') \<Rightarrow> (Inl e, st')
            | (Inr vectors, st') \<Rightarrow>
                addDocuments_loop env did fn ft docs (i + 10)
                  (addBatch did fn ft (take 10 (drop i docs)) vectors st'))"
proof -
  have "map pageContent (take 10 (drop i docs)) \<noteq> []"
    using assms by simp
  moreover have "length (map pageContent (take 10 (drop i docs))) \<le> 10"
    by simp
  ultimately have "embedDocuments env (map pageContent (take 10 (drop i docs))) st =
      callDashScopeEmbedding env (map pageContent (take 10 (drop i docs))) st"
    by (rule embedDocuments_one_batch)
  then show ?thesis
    using assms by (subst addDocuments_loop.simps) (simp add: Let_def)
qed

lemma addDocuments_loop_frame:
  "addDocuments_loop env did fn ft docs i st = (r, st') \<Longrightarrow>
     documentMetas st' = documentMetas st \<and> ragConfig st' = ragConfig st
     \<and> clockReads st' = clockReads st"
proof (induction env did fn ft docs i st rule: addDocuments_loop.induct)
  case (1 env did fn ft docs i st)
  show ?case
  proof (cases "i < length docs")
    case False
    with "1.prems" show ?thesis by (simp add: addDocuments_loop_done)
  next
    case True
    let ?batch = "take 10 (drop i docs)"
    obtain r1 st1 where c: "callDashScopeEmbedding env (map pageContent ?batch) st = (r1, st1)"
      by (cases "callDashScopeEmbedding env (map pageContent ?batch) st")
    have e: "embedDocuments env (map pageContent ?batch) st = (r1, st1)"
      using True c by (simp add: embedDocuments_one_batch)
    have f: "st1 = st\<lparr>calls := calls st1\<rparr>"
      using c by (rule callDashScopeEmbedding_frame)
    show ?thesis
    proof (cases r1)
      case (Inl e1)
      with "1.prems" True c have "st' = st1"
        by (simp add: addDocuments_loop_step)
      with f show ?thesis by (metis state.select_convs state.surjective state.update_convs(5))
    next
      case (Inr vectors)
      with "1.prems" True c
      have rec: "addDocuments_loop env did fn ft docs (i + 10) (addBatch did fn ft ?batch vectors st1)
                  = (r, st')"
        by (simp add: addDocuments_loop_step)
      from "1.IH" [OF True refl _ _ rec] e Inr
      have "documentMetas st' = documentMetas (addBatch did fn ft ?batch vectors st1)
          \<and> ragConfig st' = ragConfig (addBatch did fn ft ?batch vectors st1)
          \<and> clockReads st' = clockReads (addBatch did fn ft ?batch vectors st1)"
        by simp
      moreover have "documentMetas st1 = documentMetas st \<and> ragConfig st1 = ragConfig st
          \<and> clockReads st1 = clockReads st"
        by (subst f, simp)+
      ultimately show ?thesis
        by (simp add: addBatch_value)
    qed
  qed
qed


lemma callDashScopeEmbedding_fields:
  assumes "callDashScopeEmbedding env texts st = (r, st')"
  shows "vectorStoreInstance st' = vectorStoreInstance st"
    and "storedDocuments st' = storedDocuments st"
    and "documentMetas st' = documentMetas st"
    and "ragConfig st' = ragConfig st"
    and "clockReads st' = clockReads st"
  using assms
  by (auto simp: callDashScopeEmbedding_def Let_def split: if_splits embeddingResponse.splits)

lemma callDashScopeEmbedding_Inr_calls:
  assumes "callDashScopeEmbedding env texts st = (Inr vs, st')"
  shows "calls st' = calls st @ [EmbeddingRequest (map processText texts)]"
  using assms
  by (auto simp: callDashScopeEmbedding_def Let_def split: if_splits embeddingResponse.splits)

lemma addDocuments_loop_Inr:
  "addDocuments_loop env did fn ft docs i st = (Inr u, st') \<Longrightarrow>
     or_empty (storedDocuments st') =
       or_empty (storedDocuments st)
       @ map (\<lambda>d. \<lparr>docId = did, doc = docWithMeta did fn ft d\<rparr>) (drop i docs)
     \<and> map snd (or_empty (vectorStoreInstance st')) =
       map snd (or_empty (vectorStoreInstance st)) @ map (docWithMeta did fn ft) (drop i docs)"
proof (induction env did fn ft docs i st rule: addDocuments_loop.induct)
  case (1 env did fn ft docs i st)
  show ?case
  proof (cases "i < length docs")
    case False
    with "1.prems" show ?thesis by (simp add: addDocuments_loop_done)
  next
    case True
    let ?batch = "take 10 (drop i docs)"
    obtain r1 st1 where c: "callDashScopeEmbedding env (map pageContent ?batch) st = (r1, st1)"
      by (cases "callDashScopeEmbedding env (map pageContent ?batch) st")
    have e: "embedDocuments env (map pageContent ?batch) st = (r1, st1)"
      using True c by (simp add: embedDocuments_one_batch)
    note f = callDashScopeEmbedding_fields [OF c]
    show ?thesis
    proof (cases r1)
      case (Inl e1)
      with "1.prems" True c show ?thesis
        by (simp add: addDocuments_loop_step)
    next
      case (Inr vectors)
      let ?st2 = "addBatch did fn ft ?batch vectors st1"
      from Inr "1.prems" True c
      have rec: "addDocuments_loop env did fn ft docs (i + 10) ?st2 = (Inr u, st')"
        by (simp add: addDocuments_loop_step)
      from "1.IH" [OF True refl _ _ rec] e Inr
      have ih: "or_empty (storedDocuments st') =
                  or_empty (storedDocuments ?st2)
                  @ map (\<lambda>d. \<lparr>docId = did, doc = docWithMeta did fn ft d\<rparr>) (drop (i + 10) docs)"
        and ih2: "map snd (or_empty (vectorStoreInstance st')) =
                  map snd (or_empty (vectorStoreInstance ?st2))
                  @ map (docWithMeta did fn ft) (drop (i + 10) docs)"
        by simp_all
      have ne: "?batch \<noteq> []" using True by simp
      have b1: "or_empty (storedDocuments ?st2) =
                 or_empty (storedDocuments st)
                 @ map (\<lambda>d. \<lparr>docId = did, doc = docWithMeta did fn ft d\<rparr>) ?batch"
        using ne by (simp add: addBatch_value f or_empty_def)
      have "map snd (map (\<lambda>j. (nth_opt vectors j, docWithMeta did fn ft (?batch ! j)))
                      [0..<length ?batch]) = map (docWithMeta did fn ft) ?batch"
        using map_over_indices [of "docWithMeta did fn ft" ?batch] by (simp add: o_def)
      then have b2: "map snd (or_empty (vectorStoreInstance ?st2)) =
                 map snd (or_empty (vectorStoreInstance st)) @ map (docWithMeta did fn ft) ?batch"
        using ne by (simp add: addBatch_value f or_empty_def)
      have "drop i docs = ?batch @ drop (i + 10) docs"
        by (metis add.commute append_take_drop_id drop_drop)
      then have split: "map F (drop i docs) = map F ?batch @ map F (drop (i + 10) docs)" for F
        by (metis map_append)
      show ?thesis
        by (simp add: ih ih2 b1 b2 split)
    qed
  qed
qed

lemma addDocuments_loop_Inl:
  "addDocuments_loop env did fn ft docs i st = (Inl e, st') \<Longrightarrow>
     \<exists>k. i + 10 * k < length docs
       \<and> or_empty (storedDocuments st') =
           or_empty (storedDocuments st)
           @ map (\<lambda>d. \<lparr>docId = did, doc = docWithMeta did fn ft d\<rparr>) (take (10 * k) (drop i docs))
       \<and> map snd (or_empty (vectorStoreInstance st')) =
           map snd (or_empty (vectorStoreInstance st))
           @ map (docWithMeta did fn ft) (take (10 * k) (drop i docs))
       \<and> (or_empty (DASHSCOPE_API_KEY env) \<noteq> [] \<longrightarrow>
            length (calls st') = length (calls st) + k + 1)"
proof (induction env did fn ft docs i st rule: addDocuments_loop.induct)
  case (1 env did fn ft docs i st)
  show ?case
  proof (cases "i < length docs")
    case False
    with "1.prems" show ?thesis by (simp add: addDocuments_loop_done)
  next
    case True
    let ?batch = "take 10 (drop i docs)"
    obtain r1 st1 where c: "callDashScopeEmbedding env (map pageContent ?batch) st = (r1, st1)"
      by (cases "callDashScopeEmbedding env (map pageContent ?batch) st")
    have e: "embedDocuments env (map pageContent ?batch) st = (r1, st1)"
      using True c by (simp add: embedDocuments_one_batch)
    note f = callDashScopeEmbedding_fields [OF c]
    show ?thesis
    proof (cases r1)
      case (Inl e1)
      with "1.prems" True c have "st' = st1"
        by (simp add: addDocuments_loop_step)
      with True f callDashScopeEmbedding_calls [OF c] show ?thesis
        by (intro exI [of _ 0]) simp
    next
      case (Inr vectors)
      let ?st2 = "addBatch did fn ft ?batch vectors st1"
      from Inr "1.prems" True c
      have rec: "addDocuments_loop env did fn ft docs (i + 10) ?st2 = (Inl e, st')"
        by (simp add: addDocuments_loop_step)
      from "1.IH" [OF True refl _ _ rec] e Inr
      obtain k where k: "i + 10 + 10 * k < length docs"
        and ih: "or_empty (storedDocuments st') =
                  or_empty (storedDocuments ?st2)
                  @ map (\<lambda>d. \<lparr>docId = did, doc = docWithMeta did fn ft d\<rparr>)
                      (take (10 * k) (drop (i + 10) docs))"
        and ih2: "map snd (or_empty (vectorStoreInstance st')) =
                  map snd (or_empty (vectorStoreInstance ?st2))
                  @ map (docWithMeta did fn ft) (take (10 * k) (drop (i + 10) docs))"
        and ih3: "or_empty (DASHSCOPE_API_KEY env) \<noteq> [] \<longrightarrow>
                  length (calls st') = length (calls ?st2) + k + 1"
        by auto
      have ne: "?batch \<noteq> []" using True by simp
      have b1: "or_empty (storedDocuments ?st2) =
                 or_empty (storedDocuments st)
                 @ map (\<lambda>d. \<lparr>docId = did, doc = docWithMeta did fn ft d\<rparr>) ?batch"
        using ne by (simp add: addBatch_value f or_empty_def)
      have "map snd (map (\<lambda>j. (nth_opt vectors j, docWithMeta did fn ft (?batch ! j)))
                      [0..<length ?batch]) = map (docWithMeta did fn ft) ?batch"
        using map_over_indices [of "docWithMeta did fn ft" ?batch] by (simp add: o_def)
      then have b2: "map snd (or_empty (vectorStoreInstance ?st2)) =
                 map snd (or_empty (vectorStoreInstance st)) @ map (docWithMeta did fn ft) ?batch"
        using ne by (simp add: addBatch_value f or_empty_def)
      have b3: "calls ?st2 = calls st @ [EmbeddingRequest (map processText (map pageContent ?batch))]"
        using ne callDashScopeEmbedding_Inr_calls [OF c [unfolded Inr]]
        by (simp add: addBatch_value)
      have split: "take (10 * Suc k) (drop i docs) = ?batch @ take (10 * k) (drop (i + 10) docs)"
        using take_add [of 10 "10 * k" "drop i docs"] by (simp add: add.commute)
      show ?thesis
      proof (intro exI [of _ "Suc k"] conjI)
        show "i + 10 * Suc k < length docs" using k by simp
        show "or_empty (storedDocuments st') =
           or_empty (storedDocuments st)
           @ map (\<lambda>d. \<lparr>docId = did, doc = docWithMeta did fn ft d\<rparr>) (take (10 * Suc k) (drop i docs))"
          unfolding split by (simp add: ih b1)
        show "map snd (or_empty (vectorStoreInstance st')) =
           map snd (or_empty (vectorStoreInstance st))
           @ map (docWithMeta did fn ft) (take (10 * Suc k) (drop i docs))"
          unfolding split by (simp add: ih2 b2)
        show "or_empty (DASHSCOPE_API_KEY env) \<noteq> [] \<longrightarrow>
            length (calls st') = length (calls st) + Suc k + 1"
          using ih3 b3 by simp
      qed
    qed
  qed
qed

section \<open>What an ingestion commits\<close>

lemma addDocumentsToStore_Inr:
  assumes "addDocumentsToStore env docs fn ft st = (Inr m, st')"
  shows "id' m = js ''doc_'' @ decimal (dateNow env (clockReads st))"
    and "chunkCount m = length docs"
    and "or_empty (documentMetas st') = or_empty (documentMetas st) @ [m]"
    and "or_empty (storedDocuments st') =
           or_empty (storedDocuments st)
           @ map (\<lambda>d. \<lparr>docId = id' m, doc = docWithMeta (id' m) fn (fileType m) d\<rparr>) docs"
    and "map snd (or_empty (vectorStoreInstance st')) =
           map snd (or_empty (vectorStoreInstance st))
           @ map (docWithMeta (id' m) fn (fileType m)) docs"
    and "ragConfig st' = ragConfig st"
proof -
  define st1 where "st1 = getVectorStore st"
  define st2 where "st2 = st1\<lparr>clockReads := Suc (clockReads st1)\<rparr>"
  define did where "did = js ''doc_'' @ decimal (dateNow env (clockReads st))"
  define dft where "dft = (detectedFileType env fn ft)"
  have same: "or_empty (documentMetas st2) = or_empty (documentMetas st)"
    "or_empty (storedDocuments st2) = or_empty (storedDocuments st)"
    "or_empty (vectorStoreInstance st2) = or_empty (vectorStoreInstance st)"
    "ragConfig st2 = ragConfig st" "clockReads st1 = clockReads st"
    by (simp_all add: st2_def st1_def getVectorStore_def or_empty_def split: option.splits)
  obtain r st3 where loop: "addDocuments_loop env did fn dft docs 0 st2 = (r, st3)"
    by (cases "addDocuments_loop env did fn dft docs 0 st2")
  have unfolded: "addDocumentsToStore env docs fn ft st =
      (case addDocuments_loop env did fn dft docs 0 st2 of
         (Inl e, st3) \<Rightarrow> (Inl e, st3)
       | (Inr u, st3) \<Rightarrow>
           (Inr \<lparr>id' = did, filename = fn,
                 uploadTime = toISOString env (dateNow env (clockReads st3)),
                 chunkCount = length docs, fileType = dft\<rparr>,
            st3\<lparr>clockReads := Suc (clockReads st3),
                documentMetas :=
                  Some (or_empty (documentMetas st3)
                        @ [\<lparr>id' = did, filename = fn,
                            uploadTime = toISOString env (dateNow env (clockReads st3)),
                            chunkCount = length docs, fileType = dft\<rparr>])\<rparr>))"
    using same(5)
    by (auto simp: addDocumentsToStore_def readClock_def Let_def st1_def st2_def did_def dft_def
          split: prod.splits sum.splits)
  from assms loop unfolded obtain u where r: "r = Inr u"
    by (cases r) auto
  with assms loop unfolded
  have m: "m = \<lparr>id' = did, filename = fn,
                 uploadTime = toISOString env (dateNow env (clockReads st3)),
                 chunkCount = length docs, fileType = dft\<rparr>"
    and st': "st' = st3\<lparr>clockReads := Suc (clockReads st3),
                documentMetas := Some (or_empty (documentMetas st3) @ [m])\<rparr>"
    by auto
  note frame = addDocuments_loop_frame [OF loop]
  note grown = addDocuments_loop_Inr [OF loop [unfolded r]]
  show "id' m = js ''doc_'' @ decimal (dateNow env (clockReads st))"
    by (simp add: m did_def)
  show "chunkCount m = length docs"
    by (simp add: m)
  show "or_empty (documentMetas st') = or_empty (documentMetas st) @ [m]"
    using frame same(1) by (simp add: st' or_empty_def)
  have ids: "did = id' m" "dft = fileType m"
    by (simp_all add: m)
  show "or_empty (storedDocuments st') =
           or_empty (storedDocuments st)
           @ map (\<lambda>d. \<lparr>docId = id' m, doc = docWithMeta (id' m) fn (fileType m) d\<rparr>) docs"
    using grown same(2) unfolding ids by (simp add: st')
  show "map snd (or_empty (vectorStoreInstance st')) =
           map snd (or_empty (vectorStoreInstance st))
           @ map (docWithMeta (id' m) fn (fileType m)) docs"
    using grown same(3) unfolding ids by (simp add: st')
  show "ragConfig st' = ragConfig st"
    using frame same(4) by (simp add: st')
qed

lemma addDocumentsToStore_single:
  assumes "or_empty (DASHSCOPE_API_KEY env) \<noteq> []"
    and "embeddingsEndpoint env (calls st) [processText (pageContent d)] = Embeddings vectors"
  shows "\<exists>m st'. addDocumentsToStore env [d] fn ft st = (Inr m, st')"
proof -
  define st2 where "st2 = (getVectorStore st)\<lparr>clockReads := Suc (clockReads (getVectorStore st))\<rparr>"
  have c: "calls st2 = calls st"
    by (simp add: st2_def getVectorStore_def split: option.splits)
  have "callDashScopeEmbedding env [pageContent d] st2
          = (Inr vectors, st2\<lparr>calls := calls st2 @ [EmbeddingRequest [processText (pageContent d)]]\<rparr>)"
    using assms c by (simp add: callDashScopeEmbedding_def Let_def)
  then have "\<exists>st3. addDocuments_loop env did fn dft [d] 0 st2 = (Inr (), st3)" for did dft
    by (simp add: addDocuments_loop_step addDocuments_loop_done)
  then obtain st3 where
    "addDocuments_loop env (js ''doc_'' @ decimal (dateNow env (clockReads (getVectorStore st)))) fn
       (detectedFileType env fn ft) [d] 0 st2 = (Inr (), st3)"
    by blast
  then show ?thesis
    by (simp add: addDocumentsToStore_def readClock_def Let_def st2_def split: prod.splits)
qed

text \<open>What a failed ingestion leaves behind.\<close>

lemma addDocumentsToStore_Inl:
  assumes "addDocumentsToStore env docs fn ft st = (Inl e, st')"
    and "dft = (detectedFileType env fn ft)"
  shows "or_empty (documentMetas st') = or_empty (documentMetas st)"
    and "\<exists>k. 10 * k < length docs
          \<and> or_empty (storedDocuments st') =
                or_empty (storedDocuments st)
                @ map (\<lambda>d. \<lparr>docId = nextDocId env st, doc = docWithMeta (nextDocId env st) fn dft d\<rparr>)
                    (take (10 * k) docs)
          \<and> map snd (or_empty (vectorStoreInstance st')) =
                map snd (or_empty (vectorStoreInstance st))
                @ map (docWithMeta (nextDocId env st) fn dft) (take (10 * k) docs)
          \<and> (or_empty (DASHSCOPE_API_KEY env) \<noteq> [] \<longrightarrow>
                length (calls st') = length (calls st) + k + 1)"
proof -
  define st1 where "st1 = getVectorStore st"
  define st2 where "st2 = st1\<lparr>clockReads := Suc (clockReads st1)\<rparr>"
  define did where "did = nextDocId env st"
  note dft_def = assms(2)
  have same: "or_empty (documentMetas st2) = or_empty (documentMetas st)"
    "or_empty (storedDocuments st2) = or_empty (storedDocuments st)"
    "or_empty (vectorStoreInstance st2) = or_empty (vectorStoreInstance st)"
    "calls st2 = calls st" "clockReads st1 = clockReads st"
    by (simp_all add: st2_def st1_def getVectorStore_def or_empty_def split: option.splits)
  have loop: "addDocuments_loop env did fn dft docs 0 st2 = (Inl e, st')"
    using assms(1) same(5)
    by (auto simp: addDocumentsToStore_def readClock_def Let_def st1_def st2_def did_def dft_def
          nextDocId_def split: prod.splits sum.splits if_splits)
  from addDocuments_loop_frame [OF loop] same(1)
  show "or_empty (documentMetas st') = or_empty (documentMetas st)"
    by simp
  from addDocuments_loop_Inl [OF loop] same
  show "\<exists>k. 10 * k < length docs
          \<and> or_empty (storedDocuments st') =
                or_empty (storedDocuments st)
                @ map (\<lambda>d. \<lparr>docId = nextDocId env st, doc = docWithMeta (nextDocId env st) fn dft d\<rparr>)
                    (take (10 * k) docs)
          \<and> map snd (or_empty (vectorStoreInstance st')) =
                map snd (or_empty (vectorStoreInstance st))
                @ map (docWithMeta (nextDocId env st) fn dft) (take (10 * k) docs)
          \<and> (or_empty (DASHSCOPE_API_KEY env) \<noteq> [] \<longrightarrow>
                length (calls st') = length (calls st) + k + 1)"
    unfolding did_def by auto
qed

section \<open>A failing sub-batch\<close>

lemma callDashScopeEmbedding_thrown:
  assumes "or_empty (DASHSCOPE_API_KEY env) \<noteq> []"
    and "thrownBy (embeddingsEndpoint env (calls st) (map processText texts)) = Some e"
  shows "callDashScopeEmbedding env texts st =
           (Inl e, st\<lparr>calls := calls st @ [EmbeddingRequest (map processText texts)]\<rparr>)"
  using assms
  by (auto simp: callDashScopeEmbedding_def thrownBy_def Let_def split: embeddingResponse.splits)

lemma callDashScopeEmbedding_answered:
  assumes "or_empty (DASHSCOPE_API_KEY env) \<noteq> []"
    and "thrownBy (embeddingsEndpoint env (calls st) (map processText texts)) = None"
  shows "\<exists>vs. callDashScopeEmbedding env texts st =
           (Inr vs, st\<lparr>calls := calls st @ [EmbeddingRequest (map processText texts)]\<rparr>)"
  using assms
  by (auto simp: callDashScopeEmbedding_def thrownBy_def Let_def split: embeddingResponse.splits)

lemma batchTexts_sent:
  "map processText (map pageContent (take 10 (drop (10 * j) docs))) = batchTexts docs j"
  by (simp add: batchTexts_def)

lemma addDocuments_loop_fails:
  assumes key: "or_empty (DASHSCOPE_API_KEY env) \<noteq> []"
  shows "10 * (i0 + k) < length docs \<Longrightarrow>
     (\<forall>j<k. thrownBy (embeddingsEndpoint env
                (calls st @ map (\<lambda>j. EmbeddingRequest (batchTexts docs j)) [i0..<i0 + j])
                (batchTexts docs (i0 + j))) = None) \<Longrightarrow>
     thrownBy (embeddingsEndpoint env
                (calls st @ map (\<lambda>j. EmbeddingRequest (batchTexts docs j)) [i0..<i0 + k])
                (batchTexts docs (i0 + k))) = Some e \<Longrightarrow>
     \<exists>st'. addDocuments_loop env did fn ft docs (10 * i0) st = (Inl e, st')
        \<and> or_empty (storedDocuments st') =
            or_empty (storedDocuments st)
            @ map (\<lambda>d. \<lparr>docId = did, doc = docWithMeta did fn ft d\<rparr>)
                (take (10 * k) (drop (10 * i0) docs))
        \<and> map snd (or_empty (vectorStoreInstance st')) =
            map snd (or_empty (vectorStoreInstance st))
            @ map (docWithMeta did fn ft) (take (10 * k) (drop (10 * i0) docs))
        \<and> calls st' =
            calls st @ map (\<lambda>j. EmbeddingRequest (batchTexts docs j)) [i0..<i0 + k + 1]"
proof (induction k arbitrary: i0 st)
  case 0
  then have lt: "10 * i0 < length docs" by simp
  from 0 have "thrownBy (embeddingsEndpoint env (calls st)
                  (map processText (map pageContent (take 10 (drop (10 * i0) docs))))) = Some e"
    by (simp add: batchTexts_def o_def)
  from callDashScopeEmbedding_thrown [OF key this]
  show ?case
    using lt by (simp add: addDocuments_loop_step batchTexts_def o_def)
next
  case (Suc k)
  let ?batch = "take 10 (drop (10 * i0) docs)"
  let ?req = "EmbeddingRequest (batchTexts docs i0)"
  have lt: "10 * i0 < length docs" using Suc.prems(1) by simp
  from Suc.prems(2) have "thrownBy (embeddingsEndpoint env (calls st) (batchTexts docs i0)) = None"
    by (metis add.right_neutral append_Nil2 list.simps(8) upt_eq_Nil_conv zero_less_Suc order_refl)
  then have "thrownBy (embeddingsEndpoint env (calls st)
                  (map processText (map pageContent ?batch))) = None"
    by (simp add: batchTexts_def o_def)
  from callDashScopeEmbedding_answered [OF key this]
  obtain vs where c: "callDashScopeEmbedding env (map pageContent ?batch) st =
      (Inr vs, st\<lparr>calls := calls st @ [?req]\<rparr>)"
    by (auto simp: batchTexts_def o_def)
  define st2 where "st2 = addBatch did fn ft ?batch vs (st\<lparr>calls := calls st @ [?req]\<rparr>)"
  have step: "addDocuments_loop env did fn ft docs (10 * i0) st =
                addDocuments_loop env did fn ft docs (10 * Suc i0) st2"
    using lt c by (simp add: addDocuments_loop_step st2_def add.commute)
  have ne: "?batch \<noteq> []" using lt by simp
  have calls2: "calls st2 = calls st @ [?req]"
    using ne by (simp add: st2_def addBatch_value)
  have stored2: "or_empty (storedDocuments st2) =
                 or_empty (storedDocuments st)
                 @ map (\<lambda>d. \<lparr>docId = did, doc = docWithMeta did fn ft d\<rparr>) ?batch"
    using ne by (simp add: st2_def addBatch_value or_empty_def)
  have "map snd (map (\<lambda>j. (nth_opt vs j, docWithMeta did fn ft (?batch ! j)))
                      [0..<length ?batch]) = map (docWithMeta did fn ft) ?batch"
    using map_over_indices [of "docWithMeta did fn ft" ?batch] by (simp add: o_def)
  then have store2: "map snd (or_empty (vectorStoreInstance st2)) =
                 map snd (or_empty (vectorStoreInstance st)) @ map (docWithMeta did fn ft) ?batch"
    using ne by (simp add: st2_def addBatch_value or_empty_def)
  have upt: "[i0..<i0 + Suc j] = i0 # [Suc i0..<Suc i0 + j]" for j
    by (simp add: upt_conv_Cons)
  have p1: "10 * (Suc i0 + k) < length docs"
    using Suc.prems(1) by simp
  have p2: "\<forall>j<k. thrownBy (embeddingsEndpoint env
                (calls st2 @ map (\<lambda>j. EmbeddingRequest (batchTexts docs j)) [Suc i0..<Suc i0 + j])
                (batchTexts docs (Suc i0 + j))) = None"
  proof (intro allI impI)
    fix j assume "j < k"
    then have "Suc j < Suc k" by simp
    with Suc.prems(2) have "thrownBy (embeddingsEndpoint env
                (calls st @ map (\<lambda>j. EmbeddingRequest (batchTexts docs j)) [i0..<i0 + Suc j])
                (batchTexts docs (i0 + Suc j))) = None"
      by blast
    then show "thrownBy (embeddingsEndpoint env
                (calls st2 @ map (\<lambda>j. EmbeddingRequest (batchTexts docs j)) [Suc i0..<Suc i0 + j])
                (batchTexts docs (Suc i0 + j))) = None"
      unfolding upt calls2 by simp
  qed
  have p3: "thrownBy (embeddingsEndpoint env
                (calls st2 @ map (\<lambda>j. EmbeddingRequest (batchTexts docs j)) [Suc i0..<Suc i0 + k])
                (batchTexts docs (Suc i0 + k))) = Some e"
    using Suc.prems(3) unfolding upt calls2 by simp
  from Suc.IH [OF p1 p2 p3]
  obtain st' where run: "addDocuments_loop env did fn ft docs (10 * Suc i0) st2 = (Inl e, st')"
    and s: "or_empty (storedDocuments st') =
            or_empty (storedDocuments st2)
            @ map (\<lambda>d. \<lparr>docId = did, doc = docWithMeta did fn ft d\<rparr>)
                (take (10 * k) (drop (10 * Suc i0) docs))"
    and v: "map snd (or_empty (vectorStoreInstance st')) =
            map snd (or_empty (vectorStoreInstance st2))
            @ map (docWithMeta did fn ft) (take (10 * k) (drop (10 * Suc i0) docs))"
    and cs: "calls st' =
            calls st2 @ map (\<lambda>j. EmbeddingRequest (batchTexts docs j)) [Suc i0..<Suc i0 + k + 1]"
    by blast
  have split: "take (10 * Suc k) (drop (10 * i0) docs)
                 = ?batch @ take (10 * k) (drop (10 * Suc i0) docs)"
    using take_add [of 10 "10 * k" "drop (10 * i0) docs"] by (simp add: add.commute)
  have cs': "calls st' =
            calls st @ map (\<lambda>j. EmbeddingRequest (batchTexts docs j)) [i0..<i0 + Suc k + 1]"
    using cs upt [of "Suc k"] calls2 by simp
  show ?case
    unfolding split using step run s v cs' stored2 store2 by simp
qed

lemma addDocumentsToStore_fails_at:
  assumes key: "or_empty (DASHSCOPE_API_KEY env) \<noteq> []"
    and k: "10 * k < length docs"
    and ok: "\<forall>j<k. thrownBy (batchAnswer env st docs j) = None"
    and bad: "thrownBy (batchAnswer env st docs k) = Some e"
  shows "\<exists>st'. addDocumentsToStore env docs fn ft st = (Inl e, st')
        \<and> or_empty (documentMetas st') = or_empty (documentMetas st)
        \<and> or_empty (storedDocuments st') =
            or_empty (storedDocuments st)
            @ map (\<lambda>d. \<lparr>docId = nextDocId env st,
                         doc = docWithMeta (nextDocId env st) fn (detectedFileType env fn ft) d\<rparr>)
                (take (10 * k) docs)
        \<and> map snd (or_empty (vectorStoreInstance st')) =
            map snd (or_empty (vectorStoreInstance st))
            @ map (docWithMeta (nextDocId env st) fn (detectedFileType env fn ft))
                (take (10 * k) docs)
        \<and> calls st' = calls st @ batchRequests docs (Suc k)
        \<and> ragConfig st' = ragConfig st
        \<and> clockReads st' = Suc (clockReads st)"
proof -
  define st2 where "st2 = (getVectorStore st)\<lparr>clockReads := Suc (clockReads (getVectorStore st))\<rparr>"
  have same: "or_empty (documentMetas st2) = or_empty (documentMetas st)"
    "or_empty (storedDocuments st2) = or_empty (storedDocuments st)"
    "or_empty (vectorStoreInstance st2) = or_empty (vectorStoreInstance st)"
    "ragConfig st2 = ragConfig st" "calls st2 = calls st"
    "clockReads st2 = Suc (clockReads st)" "clockReads (getVectorStore st) = clockReads st"
    by (simp_all add: st2_def getVectorStore_def or_empty_def split: option.splits)
  have p1: "10 * (0 + k) < length docs" using k by simp
  have p2: "\<forall>j<k. thrownBy (embeddingsEndpoint env
                (calls st2 @ map (\<lambda>j. EmbeddingRequest (batchTexts docs j)) [0..<0 + j])
                (batchTexts docs (0 + j))) = None"
    using ok by (simp add: batchAnswer_def batchRequests_def same(5))
  have p3: "thrownBy (embeddingsEndpoint env
                (calls st2 @ map (\<lambda>j. EmbeddingRequest (batchTexts docs j)) [0..<0 + k])
                (batchTexts docs (0 + k))) = Some e"
    using bad by (simp add: batchAnswer_def batchRequests_def same(5))
  from addDocuments_loop_fails [OF key p1 p2 p3,
      of "nextDocId env st" fn "detectedFileType env fn ft"]
  obtain st' where loop: "addDocuments_loop env (nextDocId env st) fn (detectedFileType env fn ft)
                            docs (10 * 0) st2 = (Inl e, st')"
    and s: "or_empty (storedDocuments st') =
            or_empty (storedDocuments st2)
            @ map (\<lambda>d. \<lparr>docId = nextDocId env st,
                         doc = docWithMeta (nextDocId env st) fn (detectedFileType env fn ft) d\<rparr>)
                (take (10 * k) (drop (10 * 0) docs))"
    and v: "map snd (or_empty (vectorStoreInstance st')) =
            map snd (or_empty (vectorStoreInstance st2))
            @ map (docWithMeta (nextDocId env st) fn (detectedFileType env fn ft))
                (take (10 * k) (drop (10 * 0) docs))"
    and c: "calls st' = calls st2 @ map (\<lambda>j. EmbeddingRequest (batchTexts docs j)) [0..<0 + k + 1]"
    by blast
  from loop have loop0: "addDocuments_loop env (nextDocId env st) fn (detectedFileType env fn ft)
                            docs 0 st2 = (Inl e, st')"
    by simp
  note frame = addDocuments_loop_frame [OF loop0]
  have "addDocumentsToStore env docs fn ft st = (Inl e, st')"
    using loop0 same(7)
    by (simp add: addDocumentsToStore_def readClock_def Let_def st2_def nextDocId_def)
  with s v c frame same show ?thesis
    by (simp add: batchRequests_def)
qed

lemma addDocumentsToStore_without_key:
  assumes "or_empty (DASHSCOPE_API_KEY env) = []" "docs \<noteq> []"
  shows "addDocumentsToStore env docs fn ft st =
           (Inl (Error (js ''DASHSCOPE_API_KEY is required for embeddings'')),
            (getVectorStore st)\<lparr>clockReads := Suc (clockReads (getVectorStore st))\<rparr>)"
proof -
  have "callDashScopeEmbedding env texts s
          = (Inl (Error (js ''DASHSCOPE_API_KEY is required for embeddings'')), s)"
    for texts and s :: "'a state"
    using assms(1) by (simp add: callDashScopeEmbedding_def)
  then have "addDocuments_loop env did fn dft docs 0 s
               = (Inl (Error (js ''DASHSCOPE_API_KEY is required for embeddings'')), s)"
    for did dft and s :: "'a state"
    using assms(2) by (simp add: addDocuments_loop_step)
  then show ?thesis
    by (simp add: addDocumentsToStore_def readClock_def Let_def)
qed

section \<open>Ingestion and deletion on concrete runs\<close>

subsection \<open>Two ingestions in one millisecond\<close>

lemma decimal_now: "decimal 1700000000000 = js ''1700000000000''"
  by (simp add: decimal.simps js_def)

lemmas run_defs = addDocumentsToStore_def detectedFileType_def getVectorStore_def readClock_def
  or_empty_def
  addDocuments_loop.simps embedDocuments_def embedDocuments_loop.simps callDashScopeEmbedding_def
  processText_def addBatch_def addChunk_def docWithMeta_def nth_opt_def Let_def trim_def
  isWhiteSpace_def

lemma ingest_b_value:
  "ingest_b =
     (Inr meta_b,
     \<lparr>vectorStoreInstance = Some (map (\<lambda>(f, s). (Some 2, tagged f s))
         [(''a.txt'', ''a1''), (''a.txt'', ''a2''), (''a.txt'', ''a3''),
          (''b.txt'', ''b1''), (''b.txt'', ''b2''), (''b.txt'', ''b3''), (''b.txt'', ''b4'')]),
      storedDocuments = Some (map (\<lambda>(f, s). \<lparr>docId = js ''doc_1700000000000'', doc = tagged f s\<rparr>)
         [(''a.txt'', ''a1''), (''a.txt'', ''a2''), (''a.txt'', ''a3''),
          (''b.txt'', ''b1''), (''b.txt'', ''b2''), (''b.txt'', ''b3''), (''b.txt'', ''b4'')]),
      documentMetas = Some [meta_a, meta_b],
      ragConfig = None,
      calls = [EmbeddingRequest [js ''a1'', js ''a2'', js ''a3''],
               EmbeddingRequest [js ''b1'', js ''b2'', js ''b3'', js ''b4'']],
      clockReads = 4\<rparr>)"
  unfolding ingest_b_def st_a_def env0_def st0_def chunk_def tagged_def meta_a_def meta_b_def
  by (simp add: run_defs decimal_now js_def)

lemma delete_b_value:
  "deleteDocument env0 (id' meta_b) (snd ingest_b) =
     (Inr \<lparr>success = True, remainingChunks = 0\<rparr>,
      (snd ingest_b)\<lparr>vectorStoreInstance := Some [], storedDocuments := Some [],
                      documentMetas := Some []\<rparr>)"
  unfolding ingest_b_value
  by (simp add: deleteDocument_def or_empty_def rebuild_loop.simps meta_a_def meta_b_def Let_def)

text \<open>
  C9. The document id is \<open>doc_\<close> followed by the clock reading and nothing else: two
  ingestions that read the same millisecond record the same id.
\<close>

theorem same_millisecond_same_id:
  "map id' (or_empty (documentMetas (snd ingest_b)))
     = [js ''doc_1700000000000'', js ''doc_1700000000000'']
   \<and> \<not> distinct (map id' (or_empty (documentMetas (snd ingest_b))))"
  unfolding ingest_b_value
  by (simp add: or_empty_def meta_a_def meta_b_def)

text \<open>
  C1. After the three-chunk document and the four-chunk document were ingested in the
  same millisecond, deleting the second by its id removes both: the document count
  falls from 2 to 0 and the chunk total from 7 to 0, where the deletion law asks for a
  fall by 1 and by 4.
\<close>

theorem delete_after_same_millisecond:
  "fst ingest_b = Inr meta_b \<and> chunkCount meta_b = 4
   \<and> documentCount (fst (getKnowledgeBaseStats (snd ingest_b))) = 2
   \<and> totalChunks (fst (getKnowledgeBaseStats (snd ingest_b))) = 7
   \<and> documentCount
        (fst (getKnowledgeBaseStats (snd (deleteDocument env0 (id' meta_b) (snd ingest_b))))) = 0
   \<and> totalChunks
        (fst (getKnowledgeBaseStats (snd (deleteDocument env0 (id' meta_b) (snd ingest_b))))) = 0"
  unfolding delete_b_value
  unfolding ingest_b_value
  by (simp add: getKnowledgeBaseStats_def getRagConfig_def or_empty_def meta_a_def meta_b_def
        Let_def)

text \<open>
  C5. In the state after the two ingestions the first record counts 3 chunks and the
  second 4, while 7 stored entries carry their common id.
\<close>

theorem chunkCount_differs_after_same_millisecond:
  "map (\<lambda>m. (chunkCount m,
              length (filter (\<lambda>d. docId d = id' m) (or_empty (storedDocuments (snd ingest_b))))))
       (or_empty (documentMetas (snd ingest_b)))
     = [(3, 7), (4, 7)]"
  unfolding ingest_b_value
  by (simp add: or_empty_def meta_a_def meta_b_def)

subsection \<open>An embedding failure in the second sub-batch\<close>

lemma ingest_c_value:
  "ingest_c =
     (Inl (Error (js ''DashScope Embedding API error: quota'')),
     \<lparr>vectorStoreInstance = Some (map (\<lambda>(n, s). (Some n, tagged ''c.txt'' s))
         [(2, ''c0''), (2, ''c1''), (2, ''c2''), (2, ''c3''), (2, ''c4''), (2, ''c5''), (2, ''c6''),
          (2, ''c7''), (2, ''c8''), (2, ''c9'')]),
      storedDocuments = Some (map (\<lambda>s. \<lparr>docId = js ''doc_1700000000000'', doc = tagged ''c.txt'' s\<rparr>)
         [''c0'', ''c1'', ''c2'', ''c3'', ''c4'', ''c5'', ''c6'', ''c7'', ''c8'', ''c9'']),
      documentMetas = Some [],
      ragConfig = None,
      calls = [EmbeddingRequest (map js [''c0'', ''c1'', ''c2'', ''c3'', ''c4'', ''c5'', ''c6'', ''c7'', ''c8'', ''c9'']),
               EmbeddingRequest [js ''c10'']],
      clockReads = 1\<rparr>)"
  unfolding ingest_c_def env_quota_def env0_def st0_def chunk_def tagged_def eleven_def
  by (simp add: run_defs decimal_now js_def)

text \<open>
  C2 as stated fails: the second sub-batch of the eleven chunks is refused, the call
  fails, and the ten chunks of the first sub-batch are in \<open>storedDocuments\<close> and in the
  vector store, which were empty before.
\<close>

theorem partial_commit_on_embedding_failure:
  "fst ingest_c = Inl (Error (js ''DashScope Embedding API error: quota''))
   \<and> or_empty (storedDocuments st0) = []
   \<and> or_empty (vectorStoreInstance st0) = []
   \<and> length (or_empty (storedDocuments (snd ingest_c))) = 10
   \<and> length (or_empty (vectorStoreInstance (snd ingest_c))) = 10"
  unfolding ingest_c_value
  by (simp add: or_empty_def st0_def)

text \<open>
  C2, amended. When the embedding of sub-batch \<open>k\<close> of a document fails (the key is
  missing, or the sub-batches before it were answered and the endpoint's answer to this
  one makes \<open>callDashScopeEmbedding\<close> throw), \<open>addDocumentsToStore\<close> fails as a whole
  with that error and adds no record to \<open>documentMetas\<close>, but it does not roll back:
  \<open>storedDocuments\<close> and the vector store have gained exactly the chunks of the \<open>k\<close>
  sub-batches embedded before, the first \<open>10 * k\<close> chunks of the document, tagged with
  the new id, and \<open>k + 1\<close> embedding requests were sent. Only for \<open>k = 0\<close> is the
  content of the store as before. Every failure of the call is of this kind.
\<close>

theorem addDocumentsToStore_failure:
  "(or_empty (DASHSCOPE_API_KEY env) \<noteq> [] \<and> 10 * k < length docs
      \<and> (\<forall>j<k. thrownBy (batchAnswer env st docs j) = None)
      \<and> thrownBy (batchAnswer env st docs k) = Some e
    \<longrightarrow> (\<exists>st'. addDocumentsToStore env docs fn ft st = (Inl e, st')
        \<and> or_empty (documentMetas st') = or_empty (documentMetas st)
        \<and> or_empty (storedDocuments st') =
            or_empty (storedDocuments st)
            @ map (\<lambda>d. \<lparr>docId = nextDocId env st,
                         doc = docWithMeta (nextDocId env st) fn (detectedFileType env fn ft) d\<rparr>)
                (take (10 * k) docs)
        \<and> map snd (or_empty (vectorStoreInstance st')) =
            map snd (or_empty (vectorStoreInstance st))
            @ map (docWithMeta (nextDocId env st) fn (detectedFileType env fn ft))
                (take (10 * k) docs)
        \<and> calls st' = calls st @ batchRequests docs (Suc k)
        \<and> ragConfig st' = ragConfig st
        \<and> clockReads st' = Suc (clockReads st)))
   \<and> (or_empty (DASHSCOPE_API_KEY env) = [] \<and> docs \<noteq> []
    \<longrightarrow> addDocumentsToStore env docs fn ft st =
          (Inl (Error (js ''DASHSCOPE_API_KEY is required for embeddings'')),
           (getVectorStore st)\<lparr>clockReads := Suc (clockReads (getVectorStore st))\<rparr>))
   \<and> (addDocumentsToStore env docs fn ft st = (Inl e', st'')
    \<longrightarrow> or_empty (documentMetas st'') = or_empty (documentMetas st)
          \<and> (\<exists>k. 10 * k < length docs
                \<and> or_empty (storedDocuments st'') =
                     or_empty (storedDocuments st)
                     @ map (\<lambda>d. \<lparr>docId = nextDocId env st,
                                  doc = docWithMeta (nextDocId env st) fn
                                          (detectedFileType env fn ft) d\<rparr>)
                         (take (10 * k) docs)
                \<and> map snd (or_empty (vectorStoreInstance st'')) =
                     map snd (or_empty (vectorStoreInstance st))
                     @ map (docWithMeta (nextDocId env st) fn (detectedFileType env fn ft))
                         (take (10 * k) docs)
                \<and> (or_empty (DASHSCOPE_API_KEY env) \<noteq> [] \<longrightarrow>
                      length (calls st'') = length (calls st) + k + 1)))"
proof (intro conjI impI)
  assume "or_empty (DASHSCOPE_API_KEY env) \<noteq> [] \<and> 10 * k < length docs
      \<and> (\<forall>j<k. thrownBy (batchAnswer env st docs j) = None)
      \<and> thrownBy (batchAnswer env st docs k) = Some e"
  then show "\<exists>st'. addDocumentsToStore env docs fn ft st = (Inl e, st')
        \<and> or_empty (documentMetas st') = or_empty (documentMetas st)
        \<and> or_empty (storedDocuments st') =
            or_empty (storedDocuments st)
            @ map (\<lambda>d. \<lparr>docId = nextDocId env st,
                         doc = docWithMeta (nextDocId env st) fn (detectedFileType env fn ft) d\<rparr>)
                (take (10 * k) docs)
        \<and> map snd (or_empty (vectorStoreInstance st')) =
            map snd (or_empty (vectorStoreInstance st))
            @ map (docWithMeta (nextDocId env st) fn (detectedFileType env fn ft))
                (take (10 * k) docs)
        \<and> calls st' = calls st @ batchRequests docs (Suc k)
        \<and> ragConfig st' = ragConfig st
        \<and> clockReads st' = Suc (clockReads st)"
    using addDocumentsToStore_fails_at [of env k docs st e fn ft] by blast
next
  assume "or_empty (DASHSCOPE_API_KEY env) = [] \<and> docs \<noteq> []"
  then show "addDocumentsToStore env docs fn ft st =
          (Inl (Error (js ''DASHSCOPE_API_KEY is required for embeddings'')),
           (getVectorStore st)\<lparr>clockReads := Suc (clockReads (getVectorStore st))\<rparr>)"
    using addDocumentsToStore_without_key [of env docs fn ft st] by blast
next
  assume failed: "addDocumentsToStore env docs fn ft st = (Inl e', st'')"
  note left = addDocumentsToStore_Inl [OF failed refl]
  from left(1) show "or_empty (documentMetas st'') = or_empty (documentMetas st)" .
  from left(2) show "\<exists>k. 10 * k < length docs
                \<and> or_empty (storedDocuments st'') =
                     or_empty (storedDocuments st)
                     @ map (\<lambda>d. \<lparr>docId = nextDocId env st,
                                  doc = docWithMeta (nextDocId env st) fn
                                          (detectedFileType env fn ft) d\<rparr>)
                         (take (10 * k) docs)
                \<and> map snd (or_empty (vectorStoreInstance st'')) =
                     map snd (or_empty (vectorStoreInstance st))
                     @ map (docWithMeta (nextDocId env st) fn (detectedFileType env fn ft))
                         (take (10 * k) docs)
                \<and> (or_empty (DASHSCOPE_API_KEY env) \<noteq> [] \<longrightarrow>
                      length (calls st'') = length (calls st) + k + 1)" .
qed

theorem addDocumentsToStore_failure_witness:
  "or_empty (DASHSCOPE_API_KEY env_quota) \<noteq> [] \<and> 10 * 1 < length eleven
   \<and> thrownBy (batchAnswer env_quota st0 eleven 0) = None
   \<and> thrownBy (batchAnswer env_quota st0 eleven 1)
       = Some (Error (js ''DashScope Embedding API error: quota''))
   \<and> (\<exists>st'. addDocumentsToStore env_quota eleven (js ''c.txt'') (Some (TypeName (js ''TXT''))) st0
              = (Inl (Error (js ''DashScope Embedding API error: quota'')), st')
        \<and> or_empty (documentMetas st') = or_empty (documentMetas st0)
        \<and> or_empty (storedDocuments st') =
            or_empty (storedDocuments st0)
            @ map (\<lambda>d. \<lparr>docId = nextDocId env_quota st0,
                         doc = docWithMeta (nextDocId env_quota st0) (js ''c.txt'') (detectedFileType env_quota (js ''c.txt'') (Some (TypeName (js ''TXT'')))) d\<rparr>)
                (take (10 * 1) eleven)
        \<and> map snd (or_empty (vectorStoreInstance st')) =
            map snd (or_empty (vectorStoreInstance st0))
            @ map (docWithMeta (nextDocId env_quota st0) (js ''c.txt'') (detectedFileType env_quota (js ''c.txt'') (Some (TypeName (js ''TXT'')))))
                (take (10 * 1) eleven)
        \<and> calls st' = calls st0 @ batchRequests eleven (Suc 1)
        \<and> ragConfig st' = ragConfig st0
        \<and> clockReads st' = Suc (clockReads st0))
   \<and> ingest_c = (Inl (Error (js ''DashScope Embedding API error: quota'')), snd ingest_c)
   \<and> or_empty (documentMetas (snd ingest_c)) = or_empty (documentMetas st0)
          \<and> (\<exists>k. 10 * k < length eleven
                \<and> or_empty (storedDocuments (snd ingest_c)) =
                     or_empty (storedDocuments st0)
                     @ map (\<lambda>d. \<lparr>docId = nextDocId env_quota st0,
                                  doc = docWithMeta (nextDocId env_quota st0) (js ''c.txt'')
                                          (detectedFileType env_quota (js ''c.txt'') (Some (TypeName (js ''TXT'')))) d\<rparr>)
                         (take (10 * k) eleven)
                \<and> map snd (or_empty (vectorStoreInstance (snd ingest_c))) =
                     map snd (or_empty (vectorStoreInstance st0))
                     @ map (docWithMeta (nextDocId env_quota st0) (js ''c.txt'') (detectedFileType env_quota (js ''c.txt'') (Some (TypeName (js ''TXT'')))))
                         (take (10 * k) eleven)
                \<and> (or_empty (DASHSCOPE_API_KEY env_quota) \<noteq> [] \<longrightarrow>
                      length (calls (snd ingest_c)) = length (calls st0) + k + 1))"
proof -
  have key: "or_empty (DASHSCOPE_API_KEY env_quota) \<noteq> []"
    by (simp add: env_quota_def env0_def or_empty_def js_def)
  have k: "10 * 1 < length eleven"
    by (simp add: eleven_def)
  have a0: "thrownBy (batchAnswer env_quota st0 eleven 0) = None"
    by (simp add: thrownBy_def batchAnswer_def batchRequests_def env_quota_def env0_def st0_def)
  have a1: "thrownBy (batchAnswer env_quota st0 eleven 1)
              = Some (Error (js ''DashScope Embedding API error: quota''))"
    by (simp add: thrownBy_def batchAnswer_def batchRequests_def env_quota_def env0_def st0_def
          js_def)
  have ok: "\<forall>j<1. thrownBy (batchAnswer env_quota st0 eleven j) = None"
    using a0 by simp
  have run: "addDocumentsToStore env_quota eleven (js ''c.txt'') (Some (TypeName (js ''TXT''))) st0
               = (Inl (Error (js ''DashScope Embedding API error: quota'')), snd ingest_c)"
    unfolding ingest_c_def [symmetric] by (simp add: ingest_c_value)
  note law = addDocumentsToStore_failure
    [of env_quota 1 eleven st0 "Error (js ''DashScope Embedding API error: quota'')"
        "js ''c.txt''" "Some (TypeName (js ''TXT''))"
        "Error (js ''DashScope Embedding API error: quota'')" "snd ingest_c"]
  from law key k ok a1
  have forward: "\<exists>st'. addDocumentsToStore env_quota eleven (js ''c.txt'') (Some (TypeName (js ''TXT''))) st0
              = (Inl (Error (js ''DashScope Embedding API error: quota'')), st')
        \<and> or_empty (documentMetas st') = or_empty (documentMetas st0)
        \<and> or_empty (storedDocuments st') =
            or_empty (storedDocuments st0)
            @ map (\<lambda>d. \<lparr>docId = nextDocId env_quota st0,
                         doc = docWithMeta (nextDocId env_quota st0) (js ''c.txt'') (detectedFileType env_quota (js ''c.txt'') (Some (TypeName (js ''TXT'')))) d\<rparr>)
                (take (10 * 1) eleven)
        \<and> map snd (or_empty (vectorStoreInstance st')) =
            map snd (or_empty (vectorStoreInstance st0))
            @ map (docWithMeta (nextDocId env_quota st0) (js ''c.txt'') (detectedFileType env_quota (js ''c.txt'') (Some (TypeName (js ''TXT'')))))
                (take (10 * 1) eleven)
        \<and> calls st' = calls st0 @ batchRequests eleven (Suc 1)
        \<and> ragConfig st' = ragConfig st0
        \<and> clockReads st' = Suc (clockReads st0)"
    by blast
  from law run
  have backward: "or_empty (documentMetas (snd ingest_c)) = or_empty (documentMetas st0)
          \<and> (\<exists>k. 10 * k < length eleven
                \<and> or_empty (storedDocuments (snd ingest_c)) =
                     or_empty (storedDocuments st0)
                     @ map (\<lambda>d. \<lparr>docId = nextDocId env_quota st0,
                                  doc = docWithMeta (nextDocId env_quota st0) (js ''c.txt'')
                                          (detectedFileType env_quota (js ''c.txt'') (Some (TypeName (js ''TXT'')))) d\<rparr>)
                         (take (10 * k) eleven)
                \<and> map snd (or_empty (vectorStoreInstance (snd ingest_c))) =
                     map snd (or_empty (vectorStoreInstance st0))
                     @ map (docWithMeta (nextDocId env_quota st0) (js ''c.txt'') (detectedFileType env_quota (js ''c.txt'') (Some (TypeName (js ''TXT'')))))
                         (take (10 * k) eleven)
                \<and> (or_empty (DASHSCOPE_API_KEY env_quota) \<noteq> [] \<longrightarrow>
                      length (calls (snd ingest_c)) = length (calls st0) + k + 1))"
    by blast
  from forward backward key k a0 a1 run show ?thesis
    unfolding ingest_c_def [symmetric] by blast
qed

section \<open>Clearing\<close>

text \<open>
  C10. \<open>clearKnowledgeBase\<close> and \<open>clearAllDocuments\<close> give the same state from every
  state: \<open>storedDocuments\<close> and \<open>documentMetas\<close> empty and no vector store instance. Any
  non-empty sequence of the two, in any order, gives the state that one of them gives.
\<close>

theorem clear_operations_equivalent:
  "clearKnowledgeBase st = clearAllDocuments st
   \<and> storedDocuments (clearKnowledgeBase st) = Some []
   \<and> documentMetas (clearKnowledgeBase st) = Some []
   \<and> vectorStoreInstance (clearKnowledgeBase st) = None
   \<and> (ops \<noteq> [] \<longrightarrow> fold runClear ops st = clearKnowledgeBase st)"
proof -
  have same: "clearAllDocuments s = clearKnowledgeBase s" for s :: "'a state"
    by (simp add: clearAllDocuments_def clearKnowledgeBase_def)
  have idem: "clearKnowledgeBase (clearKnowledgeBase s) = clearKnowledgeBase s" for s :: "'a state"
    by (simp add: clearKnowledgeBase_def)
  have step: "runClear op s = clearKnowledgeBase s" for op and s :: "'a state"
    by (cases op) (simp_all add: same)
  have absorb: "fold runClear ops (clearKnowledgeBase s) = clearKnowledgeBase s"
    for ops and s :: "'a state"
    by (induction ops) (simp_all add: step idem)
  have "ops \<noteq> [] \<longrightarrow> fold runClear ops st = clearKnowledgeBase st"
    by (cases ops) (simp_all add: step absorb)
  then show ?thesis
    by (simp add: same) (simp add: clearKnowledgeBase_def)
qed

theorem clear_operations_equivalent_witness:
  "[ClearAllDocuments, ClearKnowledgeBase, ClearAllDocuments] \<noteq> []
   \<and> fold runClear [ClearAllDocuments, ClearKnowledgeBase, ClearAllDocuments] (snd ingest_b)
       = clearKnowledgeBase (snd ingest_b)
   \<and> clearKnowledgeBase (snd ingest_b) = clearAllDocuments (snd ingest_b)
   \<and> clearKnowledgeBase (snd ingest_b) =
       \<lparr>vectorStoreInstance = None, storedDocuments = Some [], documentMetas = Some [],
        ragConfig = None,
        calls = [EmbeddingRequest [js ''a1'', js ''a2'', js ''a3''],
                 EmbeddingRequest [js ''b1'', js ''b2'', js ''b3'', js ''b4'']],
        clockReads = 4\<rparr>"
  using clear_operations_equivalent
          [of "snd ingest_b" "[ClearAllDocuments, ClearKnowledgeBase, ClearAllDocuments]"]
  by (simp add: ingest_b_value clearKnowledgeBase_def)

section \<open>Batch embedding\<close>

lemma subBatches_Nil [simp]: "subBatches n [] = []"
  by (simp add: subBatches.simps)











section \<open>Answering a question\<close>

subsection \<open>Strings\<close>

lemma includes_str_length: "includes_str s sep \<Longrightarrow> length sep \<le> length s"
  by (induction s) (auto dest: prefix_length_le)

lemma prefix_butlast_append:
  assumes "prefix sep (before @ butlast sep)"
  shows "prefix sep (before @ sep @ rest)"
proof -
  have "prefix (butlast sep) (sep @ rest)"
    by (metis prefix_append prefixeq_butlast)
  then have "prefix (before @ butlast sep) (before @ sep @ rest)"
    by simp
  with assms show ?thesis
    using prefix_order.order_trans by blast
qed

lemma split_from_first:
  assumes "sep \<noteq> []" "includes_str s sep"
  shows "\<exists>before rest. s = before @ sep @ rest
           \<and> \<not> includes_str (before @ butlast sep) sep
           \<and> split_from acc s sep = (acc @ before) # split_from [] rest sep"
  using assms
proof (induction s arbitrary: acc)
  case Nil
  then show ?case by simp
next
  case (Cons c cs)
  show ?case
  proof (cases "prefix sep (c # cs)")
    case True
    then obtain rest where rest: "c # cs = sep @ rest"
      by (auto simp: prefix_def)
    then have d: "drop (length sep) (c # cs) = rest"
      by simp
    have "length (butlast sep) < length sep"
      using Cons.prems(1) by (cases sep) simp_all
    then have "\<not> includes_str (butlast sep) sep"
      using includes_str_length [of "butlast sep" sep] by linarith
    moreover have "split_from acc (c # cs) sep = (acc @ []) # split_from [] rest sep"
      using True Cons.prems(1) d by (simp del: drop_Suc_Cons)
    moreover have "c # cs = [] @ sep @ rest"
      using rest by simp
    ultimately show ?thesis
      by (metis append_Nil)
  next
    case False
    with Cons.prems have "includes_str cs sep"
      by simp
    from Cons.IH [OF Cons.prems(1) this, of "acc @ [c]"]
    obtain before rest where b: "cs = before @ sep @ rest"
      and n: "\<not> includes_str (before @ butlast sep) sep"
      and s: "split_from (acc @ [c]) cs sep = ((acc @ [c]) @ before) # split_from [] rest sep"
      by blast
    have "\<not> prefix sep (c # before @ butlast sep)"
      using False b prefix_butlast_append [of sep "c # before" rest] by auto
    with n have "\<not> includes_str ((c # before) @ butlast sep) sep"
      by simp
    moreover have "split_from acc (c # cs) sep = (acc @ c # before) # split_from [] rest sep"
      using s False by simp
    moreover have "c # cs = (c # before) @ sep @ rest"
      using b by simp
    ultimately show ?thesis
      by blast
  qed
qed

lemma split_from_not_Nil: "split_from acc s sep \<noteq> []"
  by (induction acc s sep rule: split_from.induct) auto

lemma trim_trim: "trim (trim s) = trim s"
proof -
  define t where "t = dropWhile isWhiteSpace s"
  define u where "u = rev (dropWhile isWhiteSpace (rev t))"
  have tu: "t = u @ rev (takeWhile isWhiteSpace (rev t))"
    unfolding u_def by (metis rev_append rev_rev_ident takeWhile_dropWhile_id)
  have "dropWhile isWhiteSpace u = u"
  proof (cases u)
    case Nil
    then show ?thesis by simp
  next
    case (Cons x xs)
    with tu have "t = x # (xs @ rev (takeWhile isWhiteSpace (rev t)))"
      by simp
    then have "hd t = x" "t \<noteq> []"
      by (metis list.sel(1), metis list.distinct(1))
    then have "\<not> isWhiteSpace x"
      unfolding t_def using hd_dropWhile by blast
    with Cons show ?thesis by simp
  qed
  moreover have "dropWhile isWhiteSpace (rev u) = rev u"
    unfolding u_def by (simp add: dropWhile_idem)
  ultimately show ?thesis
    unfolding trim_def t_def [symmetric] u_def [symmetric] by simp
qed

lemma trim_dropWhile: "trim (dropWhile isWhiteSpace s) = trim s"
  by (simp add: trim_def dropWhile_idem)

text \<open>What the cleaning of a follow-up line removes.\<close>

lemma stripNumberMarker_numbered:
  assumes "ds \<noteq> []" "\<forall>c \<in> set ds. isDigit c"
  shows "stripNumberMarker (ds @ 46 # rest) = dropWhile isWhiteSpace rest"
proof -
  have "\<not> isDigit 46" by (simp add: isDigit_def)
  with assms have "takeWhile isDigit (ds @ 46 # rest) = ds"
    "dropWhile isDigit (ds @ 46 # rest) = 46 # rest"
    by (simp_all add: takeWhile_append2 dropWhile_append2)
  with assms(1) show ?thesis
    by (simp add: stripNumberMarker_def Let_def)
qed

lemma stripNumberMarker_no_digit:
  assumes "\<not> isDigit c"
  shows "stripNumberMarker (c # rest) = c # rest"
  using assms by (simp add: stripNumberMarker_def Let_def)

lemma cleanQuestion_numbered:
  assumes "ds \<noteq> []" "\<forall>c \<in> set ds. isDigit c"
  shows "cleanQuestion (ds @ 46 # rest) = trim (stripBulletMarker (dropWhile isWhiteSpace rest))"
  using assms by (simp add: cleanQuestion_def stripNumberMarker_numbered)

lemma cleanQuestion_bulleted:
  assumes "c = 45 \<or> c = 8226"
  shows "cleanQuestion (c # rest) = trim rest"
proof -
  from assms have "\<not> isDigit c" by (auto simp: isDigit_def)
  then have "stripNumberMarker (c # rest) = c # rest"
    by (rule stripNumberMarker_no_digit)
  with assms show ?thesis
    by (auto simp: cleanQuestion_def stripBulletMarker_def trim_dropWhile)
qed

lemma stripNumberMarker_unnumbered:
  assumes "\<forall>ds rest. ds \<noteq> [] \<and> (\<forall>c \<in> set ds. isDigit c) \<longrightarrow> line \<noteq> ds @ 46 # rest"
  shows "stripNumberMarker line = line"
proof (cases "dropWhile isDigit line")
  case Nil
  show ?thesis
    unfolding stripNumberMarker_def Let_def Nil by simp
next
  case (Cons c r)
  have "\<not> (takeWhile isDigit line \<noteq> [] \<and> c = 46)"
  proof
    assume m: "takeWhile isDigit line \<noteq> [] \<and> c = 46"
    have "line = takeWhile isDigit line @ dropWhile isDigit line"
      by simp
    with Cons m have "line = takeWhile isDigit line @ 46 # r"
      by simp
    moreover have "\<forall>c \<in> set (takeWhile isDigit line). isDigit c"
      by (auto dest: set_takeWhileD)
    ultimately show False
      using assms m by blast
  qed
  with Cons show ?thesis
    by (auto simp: stripNumberMarker_def Let_def)
qed

lemma cleanQuestion_numbered_explicit:
  assumes "ds \<noteq> []" "\<forall>c \<in> set ds. isDigit c"
  shows "cleanQuestion (ds @ 46 # rest) =
           (case dropWhile isWhiteSpace rest of
              [] \<Rightarrow> []
            | c # r \<Rightarrow> if c = 45 \<or> c = 8226 then trim r else trim rest)"
proof (cases "dropWhile isWhiteSpace rest")
  case Nil
  show ?thesis
    unfolding cleanQuestion_numbered [OF assms] Nil
    by (simp add: stripBulletMarker_def trim_def)
next
  case (Cons c r)
  have "trim (c # r) = trim rest"
    using trim_dropWhile [of rest] unfolding Cons by simp
  then show ?thesis
    unfolding cleanQuestion_numbered [OF assms] Cons
    by (simp add: stripBulletMarker_def trim_dropWhile)
qed

lemma cleanQuestion_unmarked:
  assumes "\<forall>ds rest. ds \<noteq> [] \<and> (\<forall>c \<in> set ds. isDigit c) \<longrightarrow> line \<noteq> ds @ 46 # rest"
    and "\<forall>rest. line \<noteq> 45 # rest \<and> line \<noteq> 8226 # rest"
  shows "cleanQuestion line = trim line"
proof -
  have "stripNumberMarker line = line"
    using assms(1) by (rule stripNumberMarker_unnumbered)
  moreover have "stripBulletMarker line = line"
    using assms(2) by (cases line) (auto simp: stripBulletMarker_def)
  ultimately show ?thesis
    by (simp add: cleanQuestion_def)
qed

subsection \<open>Nothing retrieved\<close>

lemma retrieve_Inr_calls:
  assumes "retrieve env question k st = (Inr docs, st')"
  shows "calls st' = calls st @ [EmbeddingRequest [processText question]]"
proof -
  obtain r st1 where c: "callDashScopeEmbedding env [question] st = (r, st1)"
    by (cases "callDashScopeEmbedding env [question] st")
  with assms obtain vs where "r = Inr vs" "st' = st1"
    by (cases r) (auto simp: retrieve_def embedQuery_def)
  with callDashScopeEmbedding_Inr_calls [of env "[question]" st vs st1] c show ?thesis
    by simp
qed

lemma calls_getVectorStore_getRagConfig:
  "calls (getVectorStore (snd (getRagConfig st))) = calls st"
  by (simp add: getVectorStore_def getRagConfig_def split: option.splits)

text \<open>
  C4. When the retriever returns no document, \<open>queryRag\<close> returns the fixed answer with
  no chunks and no suggested questions, and the only request the call has made is the
  embedding of the question: the chat model is not asked.
\<close>

theorem queryRag_nothing_retrieved:
  assumes "retrieve env question
             (case customTopK of None \<Rightarrow> topK (fst (getRagConfig st)) | Some k' \<Rightarrow> k')
             (getVectorStore (snd (getRagConfig st))) = (Inr [], st3)"
  shows "queryRag env question customTopK st =
           (Inr \<lparr>answer = NO_INFORMATION_ANSWER, chunks = [], suggestedQuestions = []\<rparr>, st3)
       \<and> calls st3 = calls st @ [EmbeddingRequest [processText question]]"
proof -
  obtain cfg st1 where g: "getRagConfig st = (cfg, st1)"
    by (cases "getRagConfig st")
  with assms have "retrieve env question (case customTopK of None \<Rightarrow> topK cfg | Some k' \<Rightarrow> k')
                     (getVectorStore st1) = (Inr [], st3)"
    by (cases customTopK) simp_all
  with g have "queryRag env question customTopK st =
           (Inr \<lparr>answer = NO_INFORMATION_ANSWER, chunks = [], suggestedQuestions = []\<rparr>, st3)"
    by (simp add: queryRag_def)
  moreover have "calls st3 = calls st @ [EmbeddingRequest [processText question]]"
    using retrieve_Inr_calls [OF assms] by (simp add: calls_getVectorStore_getRagConfig)
  ultimately show ?thesis by simp
qed

theorem queryRag_nothing_retrieved_witness:
  "retrieve env0 (js ''Which city?'')
     (case None of None \<Rightarrow> topK (fst (getRagConfig st0)) | Some k' \<Rightarrow> k')
     (getVectorStore (snd (getRagConfig st0)))
     = (Inr [],
        \<lparr>vectorStoreInstance = Some [], storedDocuments = Some [], documentMetas = Some [],
         ragConfig = Some DEFAULT_RAG_CONFIG,
         calls = [EmbeddingRequest [js ''Which city?'']], clockReads = 0\<rparr>)
   \<and> queryRag env0 (js ''Which city?'') None st0 =
       (Inr \<lparr>answer = NO_INFORMATION_ANSWER, chunks = [], suggestedQuestions = []\<rparr>,
        \<lparr>vectorStoreInstance = Some [], storedDocuments = Some [], documentMetas = Some [],
         ragConfig = Some DEFAULT_RAG_CONFIG,
         calls = [EmbeddingRequest [js ''Which city?'']], clockReads = 0\<rparr>)"
proof -
  have r: "retrieve env0 (js ''Which city?'')
     (case None of None \<Rightarrow> topK (fst (getRagConfig st0)) | Some k' \<Rightarrow> k')
     (getVectorStore (snd (getRagConfig st0)))
     = (Inr [],
        \<lparr>vectorStoreInstance = Some [], storedDocuments = Some [], documentMetas = Some [],
         ragConfig = Some DEFAULT_RAG_CONFIG,
         calls = [EmbeddingRequest [js ''Which city?'']], clockReads = 0\<rparr>)"
    by (simp add: retrieve_def embedQuery_def callDashScopeEmbedding_def processText_def
          trim_def isWhiteSpace_def getVectorStore_def getRagConfig_def env0_def st0_def
          or_empty_def nth_opt_def Let_def js_def)
  from queryRag_nothing_retrieved [OF r] r show ?thesis
    by simp
qed

subsection \<open>Parsing the raw answer\<close>

lemma parseRawAnswer_without_separator:
  "\<not> includes_str rawAnswer SEPARATOR \<Longrightarrow> parseRawAnswer rawAnswer = (rawAnswer, [])"
  by (simp add: parseRawAnswer_def)

lemma SEPARATOR_not_Nil: "SEPARATOR \<noteq> []"
  by (simp add: SEPARATOR_def js_def)

lemma parseRawAnswer_with_separator:
  assumes "includes_str rawAnswer SEPARATOR"
  shows "\<exists>before rest. rawAnswer = before @ SEPARATOR @ rest
           \<and> \<not> includes_str (before @ butlast SEPARATOR) SEPARATOR
           \<and> parseRawAnswer rawAnswer =
               (trim before,
                take 3 (filter (\<lambda>q. 0 < length q \<and> length q < 100)
                          (map cleanQuestion
                             (split (trim (hd (split rest SEPARATOR))) [10]))))"
proof -
  from split_from_first [OF SEPARATOR_not_Nil assms, of "[]"]
  obtain before rest where raw: "rawAnswer = before @ SEPARATOR @ rest"
    and first: "\<not> includes_str (before @ butlast SEPARATOR) SEPARATOR"
    and parts: "split_from [] rawAnswer SEPARATOR = before # split_from [] rest SEPARATOR"
    by auto
  obtain p ps where ps: "split_from [] rest SEPARATOR = p # ps"
    using split_from_not_Nil [of "[]" rest SEPARATOR] by (cases "split_from [] rest SEPARATOR") auto
  have "split rawAnswer SEPARATOR = before # p # ps"
    using parts ps by (simp add: split_def SEPARATOR_not_Nil)
  moreover have "hd (split rest SEPARATOR) = p"
    using ps by (simp add: split_def SEPARATOR_not_Nil)
  ultimately have "parseRawAnswer rawAnswer =
               (trim before,
                take 3 (filter (\<lambda>q. 0 < length q \<and> length q < 100)
                          (map cleanQuestion
                             (split (trim (hd (split rest SEPARATOR))) [10]))))"
    using assms by (simp add: parseRawAnswer_def nth_opt_def Let_def)
  with raw first show ?thesis by blast
qed

lemma cleaned_questions:
  assumes "q \<in> set (take 3 (filter (\<lambda>q. 0 < length q \<and> length q < 100)
                               (map cleanQuestion ls)))"
  shows "q \<noteq> [] \<and> length q < 100 \<and> trim q = q \<and> (\<exists>line \<in> set ls. q = cleanQuestion line)"
proof -
  from assms have "q \<in> set (filter (\<lambda>q. 0 < length q \<and> length q < 100) (map cleanQuestion ls))"
    by (rule in_set_takeD)
  then obtain line where "line \<in> set ls" "q = cleanQuestion line" "0 < length q" "length q < 100"
    by auto
  moreover from this have "trim q = q"
    by (simp add: cleanQuestion_def trim_trim)
  ultimately show ?thesis by auto
qed



lemma st_one_value:
  "st_one =
     \<lparr>vectorStoreInstance = Some [(Some 31, hd docs_one)],
      storedDocuments = Some [\<lparr>docId = js ''doc_1700000000000'', doc = hd docs_one\<rparr>],
      documentMetas = Some [\<lparr>id' = js ''doc_1700000000000'', filename = js ''geo.txt'',
          uploadTime = js ''1700000000000'', chunkCount = 1, fileType = TypeName (js ''TXT'')\<rparr>],
      ragConfig = None,
      calls = [EmbeddingRequest [js ''Paris is the capital of France.'']],
      clockReads = 2\<rparr>"
  unfolding st_one_def env0_def st0_def chunk_def docs_one_def
  by (simp add: run_defs decimal_now js_def)

lemma getRagConfig_st_one: "getRagConfig st_one = (DEFAULT_RAG_CONFIG, st_one_cfg)"
  by (simp add: getRagConfig_def st_one_cfg_def st_one_value)

lemma retrieve_st_one:
  assumes "DASHSCOPE_API_KEY env = DASHSCOPE_API_KEY env0"
    and "embeddingsEndpoint env = embeddingsEndpoint env0"
    and "similaritySearch env = similaritySearch env0"
  shows "retrieve env question1 (topK DEFAULT_RAG_CONFIG) (getVectorStore st_one_cfg)
           = (Inr docs_one, st_one_retrieved)"
  using assms
  by (simp add: retrieve_def embedQuery_def callDashScopeEmbedding_def processText_def
        trim_def isWhiteSpace_def getVectorStore_def st_one_retrieved_def st_one_cfg_def
        st_one_value env0_def or_empty_def nth_opt_def Let_def question1_def
        DEFAULT_RAG_CONFIG_def docs_one_def js_def)

lemma invokeModel_st_one:
  assumes "DASHSCOPE_API_KEY env = DASHSCOPE_API_KEY env0"
    and "chatModel env = (\<lambda>history m t prompt. Inr raw)"
  shows "invokeModel env (model DEFAULT_RAG_CONFIG) (temperature DEFAULT_RAG_CONFIG)
           (buildPrompt docs_one question1) st_one_retrieved = (Inr raw, st_one_answered)"
  using assms
  by (simp add: invokeModel_def env0_def or_empty_def st_one_answered_def
        DEFAULT_RAG_CONFIG_def js_def)

lemmas parse_defs = parseRawAnswer_def SEPARATOR_def split_def nth_opt_def
  cleanQuestion_def stripNumberMarker_def stripBulletMarker_def isDigit_def
  trim_def isWhiteSpace_def Let_def js_def

lemma parse_raw_example:
  "parseRawAnswer raw_example =
     (js ''Paris.'', [js ''Why Paris?'', js ''Since when?'', js ''Which river?''])"
  by (simp add: raw_example_def parse_defs)

lemma parse_raw_indented:
  "parseRawAnswer raw_indented =
     (js ''Answer.'', [js ''one'', js ''2. two'', js ''- three''])"
  by (simp add: raw_indented_def parse_defs)

text \<open>
  C8 as stated fails where a marker does not start the line or is doubled: of the
  follow-up lines \<open>1. one\<close>, \<open> 2. two\<close> (indented) and \<open>- - three\<close>, the second and
  the third come back as \<open>2. two\<close> and \<open>- three\<close>, still with a leading marker.
\<close>

theorem marker_kept_after_indent:
  "queryRag env_indented question1 None st_one =
     (Inr \<lparr>answer = js ''Answer.'',
           chunks = [\<lparr>content = js ''Paris is the capital of France.'',
                      source = js ''geo.txt''\<rparr>],
           suggestedQuestions = [js ''one'', js ''2. two'', js ''- three'']\<rparr>,
      st_one_answered)"
proof -
  have "retrieve env_indented question1 (topK DEFAULT_RAG_CONFIG) (getVectorStore st_one_cfg)
           = (Inr docs_one, st_one_retrieved)"
    by (rule retrieve_st_one) (simp_all add: env_indented_def)
  moreover have "invokeModel env_indented (model DEFAULT_RAG_CONFIG)
           (temperature DEFAULT_RAG_CONFIG) (buildPrompt docs_one question1) st_one_retrieved
           = (Inr raw_indented, st_one_answered)"
    by (rule invokeModel_st_one) (simp_all add: env_indented_def)
  ultimately show ?thesis
    using getRagConfig_st_one
    by (simp add: queryRag_def parse_raw_indented) (simp add: docs_one_def js_def)
qed

text \<open>
  C8, amended. When documents were retrieved and the chat model has answered with
  \<open>rawAnswer\<close>, \<open>queryRag\<close> returns a result. If \<open>rawAnswer\<close> contains the separator,
  the answer is the trimmed text before its first occurrence, and the suggested
  questions are exactly the first 3 of the cleaned lines that are non-empty and shorter
  than 100 code units, in the order of the lines, the lines being those of the trimmed
  text between the first separator and the next; so there are at most 3, each non-empty,
  trimmed and shorter than 100 (a line that cleans to 100 code units or more is
  dropped). If the separator is absent, the answer is \<open>rawAnswer\<close> as it is and there
  are no suggested questions. Cleaning is fixed for every line: of a line that starts
  with digits and a dot, the white space after the dot is skipped, one hyphen or bullet
  that comes next is removed, and the rest is trimmed; of a line that starts with a
  hyphen or a bullet, that one code unit is removed and the rest is trimmed; every other
  line, one whose marker comes after white space included, is only trimmed.
\<close>

theorem queryRag_parses_suggested_questions:
  assumes "getRagConfig st = (cfg, st1)"
    and "retrieve env question (case customTopK of None \<Rightarrow> topK cfg | Some k' \<Rightarrow> k')
           (getVectorStore st1) = (Inr docs, st3)"
    and "docs \<noteq> []"
    and "invokeModel env (model cfg) (temperature cfg) (buildPrompt docs question) st3
           = (Inr rawAnswer, st4)"
  shows "(\<exists>r. queryRag env question customTopK st = (Inr r, st4)
         \<and> (includes_str rawAnswer SEPARATOR \<longrightarrow>
              (\<exists>before rest.
                 rawAnswer = before @ SEPARATOR @ rest
                 \<and> \<not> includes_str (before @ butlast SEPARATOR) SEPARATOR
                 \<and> answer r = trim before
                 \<and> suggestedQuestions r =
                     take 3 (filter (\<lambda>q. q \<noteq> [] \<and> length q < 100)
                               (map cleanQuestion
                                  (split (trim (hd (split rest SEPARATOR))) [10]))))
              \<and> length (suggestedQuestions r) \<le> 3
              \<and> (\<forall>q \<in> set (suggestedQuestions r). q \<noteq> [] \<and> trim q = q \<and> length q < 100))
         \<and> (\<not> includes_str rawAnswer SEPARATOR \<longrightarrow>
              answer r = rawAnswer \<and> suggestedQuestions r = []))
     \<and> (\<forall>ds rest. ds \<noteq> [] \<and> (\<forall>c \<in> set ds. isDigit c) \<longrightarrow>
           cleanQuestion (ds @ 46 # rest)
             = (case dropWhile isWhiteSpace rest of
                  [] \<Rightarrow> []
                | c # r \<Rightarrow> if c = 45 \<or> c = 8226 then trim r else trim rest))
     \<and> (\<forall>rest. cleanQuestion (45 # rest) = trim rest \<and> cleanQuestion (8226 # rest) = trim rest)
     \<and> (\<forall>line. (\<forall>ds rest. ds \<noteq> [] \<and> (\<forall>c \<in> set ds. isDigit c) \<longrightarrow> line \<noteq> ds @ 46 # rest)
                \<and> (\<forall>rest. line \<noteq> 45 # rest \<and> line \<noteq> 8226 # rest)
           \<longrightarrow> cleanQuestion line = trim line)"
proof -
  obtain a qs where p: "parseRawAnswer rawAnswer = (a, qs)"
    by (cases "parseRawAnswer rawAnswer")
  define cs where
    "cs = map (\<lambda>d. \<lparr>content = pageContent d,
                     source = (case md_source (metadata d) of
                                 None \<Rightarrow> UNKNOWN_SOURCE
                               | Some s \<Rightarrow> if s = [] then UNKNOWN_SOURCE else s)\<rparr>) docs"
  have run: "queryRag env question customTopK st =
               (Inr \<lparr>answer = a, chunks = cs, suggestedQuestions = qs\<rparr>, st4)"
    using assms p by (simp add: queryRag_def cs_def)
  have with_sep: "\<exists>before rest.
                 rawAnswer = before @ SEPARATOR @ rest
                 \<and> \<not> includes_str (before @ butlast SEPARATOR) SEPARATOR
                 \<and> a = trim before
                 \<and> qs = take 3 (filter (\<lambda>q. q \<noteq> [] \<and> length q < 100)
                               (map cleanQuestion
                                  (split (trim (hd (split rest SEPARATOR))) [10])))"
    and few: "length qs \<le> 3"
    and each: "\<forall>q \<in> set qs. q \<noteq> [] \<and> trim q = q \<and> length q < 100"
    if inc: "includes_str rawAnswer SEPARATOR"
  proof -
    from parseRawAnswer_with_separator [OF inc] p
    obtain before rest where raw: "rawAnswer = before @ SEPARATOR @ rest"
      and first: "\<not> includes_str (before @ butlast SEPARATOR) SEPARATOR"
      and a: "a = trim before"
      and qs: "qs = take 3 (filter (\<lambda>q. 0 < length q \<and> length q < 100)
                          (map cleanQuestion
                             (split (trim (hd (split rest SEPARATOR))) [10])))"
      by auto
    show "length qs \<le> 3"
      by (simp add: qs)
    show "\<forall>q \<in> set qs. q \<noteq> [] \<and> trim q = q \<and> length q < 100"
      using cleaned_questions unfolding qs by blast
    have "qs = take 3 (filter (\<lambda>q. q \<noteq> [] \<and> length q < 100)
                               (map cleanQuestion
                                  (split (trim (hd (split rest SEPARATOR))) [10])))"
      by (simp add: qs)
    with raw first a show "\<exists>before rest.
                 rawAnswer = before @ SEPARATOR @ rest
                 \<and> \<not> includes_str (before @ butlast SEPARATOR) SEPARATOR
                 \<and> a = trim before
                 \<and> qs = take 3 (filter (\<lambda>q. q \<noteq> [] \<and> length q < 100)
                               (map cleanQuestion
                                  (split (trim (hd (split rest SEPARATOR))) [10])))"
      by blast
  qed
  have without: "a = rawAnswer \<and> qs = []" if "\<not> includes_str rawAnswer SEPARATOR"
    using that p by (simp add: parseRawAnswer_without_separator)
  have numbered: "\<forall>ds rest. ds \<noteq> [] \<and> (\<forall>c \<in> set ds. isDigit c) \<longrightarrow>
           cleanQuestion (ds @ 46 # rest)
             = (case dropWhile isWhiteSpace rest of
                  [] \<Rightarrow> []
                | c # r \<Rightarrow> if c = 45 \<or> c = 8226 then trim r else trim rest)"
    using cleanQuestion_numbered_explicit by blast
  have bulleted: "\<forall>rest. cleanQuestion (45 # rest) = trim rest \<and> cleanQuestion (8226 # rest) = trim rest"
    by (simp add: cleanQuestion_bulleted)
  have unmarked: "\<forall>line. (\<forall>ds rest. ds \<noteq> [] \<and> (\<forall>c \<in> set ds. isDigit c) \<longrightarrow> line \<noteq> ds @ 46 # rest)
                \<and> (\<forall>rest. line \<noteq> 45 # rest \<and> line \<noteq> 8226 # rest)
           \<longrightarrow> cleanQuestion line = trim line"
    using cleanQuestion_unmarked by blast
  have first: "(\<exists>r. queryRag env question customTopK st = (Inr r, st4)
         \<and> (includes_str rawAnswer SEPARATOR \<longrightarrow>
              (\<exists>before rest.
                 rawAnswer = before @ SEPARATOR @ rest
                 \<and> \<not> includes_str (before @ butlast SEPARATOR) SEPARATOR
                 \<and> answer r = trim before
                 \<and> suggestedQuestions r =
                     take 3 (filter (\<lambda>q. q \<noteq> [] \<and> length q < 100)
                               (map cleanQuestion
                                  (split (trim (hd (split rest SEPARATOR))) [10]))))
              \<and> length (suggestedQuestions r) \<le> 3
              \<and> (\<forall>q \<in> set (suggestedQuestions r). q \<noteq> [] \<and> trim q = q \<and> length q < 100))
         \<and> (\<not> includes_str rawAnswer SEPARATOR \<longrightarrow>
              answer r = rawAnswer \<and> suggestedQuestions r = []))"
    using run with_sep few each without by simp
  from first numbered bulleted unmarked show ?thesis
    by (intro conjI)
qed

theorem queryRag_parses_suggested_questions_witness:
  "getRagConfig st_one = (DEFAULT_RAG_CONFIG, st_one_cfg)
   \<and> retrieve env_chat question1
        (case None of None \<Rightarrow> topK DEFAULT_RAG_CONFIG | Some k' \<Rightarrow> k')
        (getVectorStore st_one_cfg) = (Inr docs_one, st_one_retrieved)
   \<and> docs_one \<noteq> []
   \<and> invokeModel env_chat (model DEFAULT_RAG_CONFIG) (temperature DEFAULT_RAG_CONFIG)
        (buildPrompt docs_one question1) st_one_retrieved = (Inr raw_example, st_one_answered)
   \<and> includes_str raw_example SEPARATOR
   \<and> queryRag env_chat question1 None st_one =
       (Inr \<lparr>answer = js ''Paris.'',
             chunks = [\<lparr>content = js ''Paris is the capital of France.'',
                        source = js ''geo.txt''\<rparr>],
             suggestedQuestions = [js ''Why Paris?'', js ''Since when?'', js ''Which river?'']\<rparr>,
        st_one_answered)
   \<and> (\<exists>r. queryRag env_chat question1 None st_one = (Inr r, st_one_answered)
         \<and> (includes_str raw_example SEPARATOR \<longrightarrow>
              (\<exists>before rest.
                 raw_example = before @ SEPARATOR @ rest
                 \<and> \<not> includes_str (before @ butlast SEPARATOR) SEPARATOR
                 \<and> answer r = trim before
                 \<and> suggestedQuestions r =
                     take 3 (filter (\<lambda>q. q \<noteq> [] \<and> length q < 100)
                               (map cleanQuestion
                                  (split (trim (hd (split rest SEPARATOR))) [10]))))
              \<and> length (suggestedQuestions r) \<le> 3
              \<and> (\<forall>q \<in> set (suggestedQuestions r). q \<noteq> [] \<and> trim q = q \<and> length q < 100))
         \<and> (\<not> includes_str raw_example SEPARATOR \<longrightarrow>
              answer r = raw_example \<and> suggestedQuestions r = []))
   \<and> cleanQuestion (js ''12'' @ 46 # js '' - Why Paris?'') = js ''Why Paris?''
   \<and> cleanQuestion (js ''4'' @ 46 # js '' And Lyon?'') = js ''And Lyon?''
   \<and> cleanQuestion (45 # js '' Which river?'') = js ''Which river?''
   \<and> cleanQuestion (8226 # js '' Since when?'') = js ''Since when?''
   \<and> cleanQuestion (45 # js '' - three'') = js ''- three''
   \<and> cleanQuestion (js '' 2. two'') = js ''2. two''
   \<and> cleanQuestion (js ''And Lyon? '') = js ''And Lyon?''"
proof -
  have h1: "getRagConfig st_one = (DEFAULT_RAG_CONFIG, st_one_cfg)"
    by (rule getRagConfig_st_one)
  have h2: "retrieve env_chat question1
        (case None of None \<Rightarrow> topK DEFAULT_RAG_CONFIG | Some k' \<Rightarrow> k')
        (getVectorStore st_one_cfg) = (Inr docs_one, st_one_retrieved)"
    using retrieve_st_one [of env_chat] by (simp add: env_chat_def)
  have h3: "docs_one \<noteq> []"
    by (simp add: docs_one_def)
  have h4: "invokeModel env_chat (model DEFAULT_RAG_CONFIG) (temperature DEFAULT_RAG_CONFIG)
        (buildPrompt docs_one question1) st_one_retrieved = (Inr raw_example, st_one_answered)"
    by (rule invokeModel_st_one) (simp_all add: env_chat_def)
  have inc: "includes_str raw_example SEPARATOR"
    by (simp add: raw_example_def SEPARATOR_def js_def)
  have run: "queryRag env_chat question1 None st_one =
       (Inr \<lparr>answer = js ''Paris.'',
             chunks = [\<lparr>content = js ''Paris is the capital of France.'',
                        source = js ''geo.txt''\<rparr>],
             suggestedQuestions = [js ''Why Paris?'', js ''Since when?'', js ''Which river?'']\<rparr>,
        st_one_answered)"
    using h1 h2 h4 by (simp add: queryRag_def parse_raw_example) (simp add: docs_one_def js_def)
  note parsed = queryRag_parses_suggested_questions [OF h1 h2 h3 h4]
  have d12: "js ''12'' \<noteq> [] \<and> (\<forall>c \<in> set (js ''12''). isDigit c)"
    and d4: "js ''4'' \<noteq> [] \<and> (\<forall>c \<in> set (js ''4''). isDigit c)"
    by (simp_all add: js_def isDigit_def)
  have "cleanQuestion (js ''12'' @ 46 # js '' - Why Paris?'')
          = (case dropWhile isWhiteSpace (js '' - Why Paris?'') of
               [] \<Rightarrow> []
             | c # r \<Rightarrow> if c = 45 \<or> c = 8226 then trim r else trim (js '' - Why Paris?''))"
    using parsed d12 by blast
  then have n12: "cleanQuestion (js ''12'' @ 46 # js '' - Why Paris?'') = js ''Why Paris?''"
    by (simp add: trim_def isWhiteSpace_def js_def)
  have "cleanQuestion (js ''4'' @ 46 # js '' And Lyon?'')
          = (case dropWhile isWhiteSpace (js '' And Lyon?'') of
               [] \<Rightarrow> []
             | c # r \<Rightarrow> if c = 45 \<or> c = 8226 then trim r else trim (js '' And Lyon?''))"
    using parsed d4 by blast
  then have n4: "cleanQuestion (js ''4'' @ 46 # js '' And Lyon?'') = js ''And Lyon?''"
    by (simp add: trim_def isWhiteSpace_def js_def)
  have "cleanQuestion (45 # js '' Which river?'') = trim (js '' Which river?'')"
    "cleanQuestion (8226 # js '' Since when?'') = trim (js '' Since when?'')"
    "cleanQuestion (45 # js '' - three'') = trim (js '' - three'')"
    using parsed by blast+
  then have b: "cleanQuestion (45 # js '' Which river?'') = js ''Which river?''"
    "cleanQuestion (8226 # js '' Since when?'') = js ''Since when?''"
    "cleanQuestion (45 # js '' - three'') = js ''- three''"
    by (simp_all add: trim_def isWhiteSpace_def js_def)
  have unnumbered: "\<forall>ds rest. ds \<noteq> [] \<and> (\<forall>c \<in> set ds. isDigit c) \<longrightarrow> c # line \<noteq> ds @ 46 # rest"
    if "\<not> isDigit c" for c line
    using that by (auto simp: Cons_eq_append_conv)
  have "\<forall>ds rest. ds \<noteq> [] \<and> (\<forall>c \<in> set ds. isDigit c) \<longrightarrow> js '' 2. two'' \<noteq> ds @ 46 # rest"
    "\<forall>ds rest. ds \<noteq> [] \<and> (\<forall>c \<in> set ds. isDigit c) \<longrightarrow> js ''And Lyon? '' \<noteq> ds @ 46 # rest"
    using unnumbered [of 32 "js ''2. two''"] unnumbered [of 65 "js ''nd Lyon? ''"]
    by (simp_all add: js_def isDigit_def)
  moreover have "\<forall>rest. js '' 2. two'' \<noteq> 45 # rest \<and> js '' 2. two'' \<noteq> 8226 # rest"
    "\<forall>rest. js ''And Lyon? '' \<noteq> 45 # rest \<and> js ''And Lyon? '' \<noteq> 8226 # rest"
    by (simp_all add: js_def)
  ultimately have "cleanQuestion (js '' 2. two'') = trim (js '' 2. two'')"
    "cleanQuestion (js ''And Lyon? '') = trim (js ''And Lyon? '')"
    using parsed by blast+
  then have u: "cleanQuestion (js '' 2. two'') = js ''2. two''"
    "cleanQuestion (js ''And Lyon? '') = js ''And Lyon?''"
    by (simp_all add: trim_def isWhiteSpace_def js_def)
  from parsed have "(\<exists>r. queryRag env_chat question1 None st_one = (Inr r, st_one_answered)
         \<and> (includes_str raw_example SEPARATOR \<longrightarrow>
              (\<exists>before rest.
                 raw_example = before @ SEPARATOR @ rest
                 \<and> \<not> includes_str (before @ butlast SEPARATOR) SEPARATOR
                 \<and> answer r = trim before
                 \<and> suggestedQuestions r =
                     take 3 (filter (\<lambda>q. q \<noteq> [] \<and> length q < 100)
                               (map cleanQuestion
                                  (split (trim (hd (split rest SEPARATOR))) [10]))))
              \<and> length (suggestedQuestions r) \<le> 3
              \<and> (\<forall>q \<in> set (suggestedQuestions r). q \<noteq> [] \<and> trim q = q \<and> length q < 100))
         \<and> (\<not> includes_str raw_example SEPARATOR \<longrightarrow>
              answer r = raw_example \<and> suggestedQuestions r = []))"
    by (rule conjunct1)
  with h1 h2 h3 h4 inc run n12 n4 b u
  show ?thesis by (intro conjI)
qed

section \<open>The upload and reindex routes\<close>

text \<open>
  C6. When the text extracted from an uploaded file is shorter than 10 code units after
  cleaning, the handler answers 400 with the empty-content error. The only thing the
  request has done is to save the file: no embedding request is in the trace, and the
  vector store, \<open>storedDocuments\<close> and \<open>documentMetas\<close> are as before.
\<close>

theorem upload_rejects_short_content:
  assumes "or_empty (DASHSCOPE_API_KEY env) \<noteq> []"
    and "getFileExtension env (fileName f) \<in> set SUPPORTED_EXTENSIONS"
    and "saveFile env (uploadPath env (fileName f)) (fileBytes f) = None"
    and "extractContent env (getFileExtension env (fileName f)) (uploadPath env (fileName f))
           (fileBytes f) = Inr (extracted, ft)"
    and "length (cleanContent extracted) < 10"
  shows "POST_upload env (Some f) st =
           (\<lparr>status = 400, body = ErrorBody (ft @ MSG_EMPTY_CONTENT)\<rparr>,
            st\<lparr>calls := calls st @ [FileWritten (uploadPath env (fileName f)) (fileBytes f)]\<rparr>)"
  using assms by (simp add: POST_upload_def Let_def)

lemma getFileExtension_txt:
  "getFileExtension env0 (js ''hi.txt'') = js ''txt''"
  "getFileExtension env0 (js ''note.txt'') = js ''txt''"
  by (simp_all add: getFileExtension_def env0_def lowerAscii_def split_def js_def)

text \<open>
  A file name whose extension is a property every object inherits is not answered with
  \<open>Unknown\<close>: the lookup finds the inherited member.
\<close>

lemma detectFileType_inherited_key:
  "detectFileType env0 (js ''notes.constructor'') = PrototypeMember (js ''constructor'')"
  "detectFileType env0 (js ''notes.__proto__'') = PrototypeMember (js ''__proto__'')"
  "detectFileType env0 (js ''notes.bin'') = TypeName (js ''Unknown'')"
  by (simp_all add: detectFileType_def getFileExtension_def env0_def lowerAscii_def split_def
        typeMap_def OBJECT_PROTOTYPE_KEYS_def js_def)

lemma txt_supported: "js ''txt'' \<in> set SUPPORTED_EXTENSIONS"
  by (simp add: SUPPORTED_EXTENSIONS_def)

theorem upload_rejects_short_content_witness:
  "or_empty (DASHSCOPE_API_KEY env_hi) \<noteq> []
   \<and> getFileExtension env_hi (fileName file_hi) \<in> set SUPPORTED_EXTENSIONS
   \<and> saveFile env_hi (uploadPath env_hi (fileName file_hi)) (fileBytes file_hi) = None
   \<and> extractContent env_hi (getFileExtension env_hi (fileName file_hi))
        (uploadPath env_hi (fileName file_hi)) (fileBytes file_hi) = Inr (js ''  hi  '', js ''TXT'')
   \<and> cleanContent (js ''  hi  '') = js ''hi''
   \<and> length (cleanContent (js ''  hi  '')) < 10
   \<and> POST_upload env_hi (Some file_hi) st_one =
       (\<lparr>status = 400, body = ErrorBody (js ''TXT'' @ MSG_EMPTY_CONTENT)\<rparr>,
        st_one\<lparr>calls := calls st_one @ [FileWritten (js ''uploads/hi.txt'') (js ''  hi  '')]\<rparr>)"
proof -
  have ext: "getFileExtension env_hi (fileName file_hi) = js ''txt''"
    using getFileExtension_txt(1)
    by (simp add: getFileExtension_def env_hi_def env0_def file_hi_def)
  have h1: "or_empty (DASHSCOPE_API_KEY env_hi) \<noteq> []"
    by (simp add: env_hi_def env0_def or_empty_def js_def)
  have h2: "getFileExtension env_hi (fileName file_hi) \<in> set SUPPORTED_EXTENSIONS"
    by (simp add: ext txt_supported)
  have h3: "saveFile env_hi (uploadPath env_hi (fileName file_hi)) (fileBytes file_hi) = None"
    by (simp add: env_hi_def env0_def)
  have h4: "extractContent env_hi (getFileExtension env_hi (fileName file_hi))
        (uploadPath env_hi (fileName file_hi)) (fileBytes file_hi) = Inr (js ''  hi  '', js ''TXT'')"
    unfolding ext by (simp add: extractContent_def env_hi_def env0_def)
  have c: "cleanContent (js ''  hi  '') = js ''hi''"
    by (simp add: cleanContent_def trim_def isWhiteSpace_def isBlank_def js_def)
  have h5: "length (cleanContent (js ''  hi  '')) < 10"
    unfolding c by (simp add: js_def)
  have p: "uploadPath env_hi (fileName file_hi) = js ''uploads/hi.txt''"
    "fileBytes file_hi = js ''  hi  ''"
    by (simp_all add: env_hi_def env0_def file_hi_def js_def)
  from upload_rejects_short_content [OF h1 h2 h3 h4 h5, of st_one] h1 h2 h3 h4 c h5
  show ?thesis
    unfolding p by blast
qed

subsection \<open>The fallback to the whole document\<close>

lemma addDocumentsToStore_whole:
  assumes "or_empty (DASHSCOPE_API_KEY env) \<noteq> []"
    and "embeddingsEndpoint env (calls st) [processText content'] = Embeddings vectors"
  shows "\<exists>docMeta st'.
           addDocumentsToStore env [wholeDocument content' name ft] name (Some ft) st
             = (Inr docMeta, st')
         \<and> chunkCount docMeta = 1
         \<and> or_empty (documentMetas st') = or_empty (documentMetas st) @ [docMeta]
         \<and> or_empty (storedDocuments st') =
             or_empty (storedDocuments st)
             @ [\<lparr>docId = id' docMeta,
                 doc = docWithMeta (id' docMeta) name (fileType docMeta)
                         (wholeDocument content' name ft)\<rparr>]
         \<and> map snd (or_empty (vectorStoreInstance st')) =
             map snd (or_empty (vectorStoreInstance st))
             @ [docWithMeta (id' docMeta) name (fileType docMeta)
                  (wholeDocument content' name ft)]
         \<and> pageContent (docWithMeta (id' docMeta) name (fileType docMeta)
                          (wholeDocument content' name ft)) = content'"
proof -
  have "pageContent (wholeDocument content' name ft) = content'"
    by (simp add: wholeDocument_def)
  with assms addDocumentsToStore_single [of env st "wholeDocument content' name ft" vectors name "Some ft"]
  obtain docMeta st' where
    run: "addDocumentsToStore env [wholeDocument content' name ft] name (Some ft) st = (Inr docMeta, st')"
    by auto
  note facts = addDocumentsToStore_Inr [OF run]
  have "pageContent (docWithMeta (id' docMeta) name (fileType docMeta)
                          (wholeDocument content' name ft)) = content'"
    by (simp add: docWithMeta_def wholeDocument_def)
  with run facts(2-5) show ?thesis
    by simp
qed

lemma ingestContent_fallback:
  assumes "or_empty (DASHSCOPE_API_KEY env) \<noteq> []"
    and "splitDocuments env (chunkSize (fst (getRagConfig st))) (chunkOverlap (fst (getRagConfig st)))
           [wholeDocument content' name (TypeName ft)] = Inr []"
    and "0 < length content'"
    and "embeddingsEndpoint env (calls st) [processText content'] = Embeddings vectors"
  shows "\<exists>docMeta st'.
           ingestContent env name content' ft st =
             (\<lparr>status = 200,
               body = UploadedBody (MSG_UPLOADED_HEAD @ decimal 1 @ MSG_UPLOADED_TAIL) docMeta\<rparr>,
              st')
         \<and> chunkCount docMeta = 1
         \<and> or_empty (documentMetas st') = or_empty (documentMetas st) @ [docMeta]
         \<and> or_empty (storedDocuments st') =
             or_empty (storedDocuments st)
             @ [\<lparr>docId = id' docMeta,
                 doc = docWithMeta (id' docMeta) name (fileType docMeta)
                         (wholeDocument content' name (TypeName ft))\<rparr>]
         \<and> map snd (or_empty (vectorStoreInstance st')) =
             map snd (or_empty (vectorStoreInstance st))
             @ [docWithMeta (id' docMeta) name (fileType docMeta)
                  (wholeDocument content' name (TypeName ft))]
         \<and> pageContent (docWithMeta (id' docMeta) name (fileType docMeta)
                          (wholeDocument content' name (TypeName ft))) = content'"
proof -
  obtain cfg st1 where g: "getRagConfig st = (cfg, st1)"
    by (cases "getRagConfig st")
  then have same: "calls st1 = calls st" "documentMetas st1 = documentMetas st"
    "storedDocuments st1 = storedDocuments st" "vectorStoreInstance st1 = vectorStoreInstance st"
    by (auto simp: getRagConfig_def split: option.splits)
  from addDocumentsToStore_whole [of env st1 content' vectors name "TypeName ft"] assms(1,4) same
  obtain docMeta st' where
    run: "addDocumentsToStore env [wholeDocument content' name (TypeName ft)] name (Some (TypeName ft)) st1
            = (Inr docMeta, st')"
    and store: "chunkCount docMeta = 1
         \<and> or_empty (documentMetas st') = or_empty (documentMetas st) @ [docMeta]
         \<and> or_empty (storedDocuments st') =
             or_empty (storedDocuments st)
             @ [\<lparr>docId = id' docMeta,
                 doc = docWithMeta (id' docMeta) name (fileType docMeta)
                         (wholeDocument content' name (TypeName ft))\<rparr>]
         \<and> map snd (or_empty (vectorStoreInstance st')) =
             map snd (or_empty (vectorStoreInstance st))
             @ [docWithMeta (id' docMeta) name (fileType docMeta)
                  (wholeDocument content' name (TypeName ft))]
         \<and> pageContent (docWithMeta (id' docMeta) name (fileType docMeta)
                          (wholeDocument content' name (TypeName ft))) = content'"
    by auto
  have "ingestContent env name content' ft st =
             (\<lparr>status = 200,
               body = UploadedBody (MSG_UPLOADED_HEAD @ decimal 1 @ MSG_UPLOADED_TAIL) docMeta\<rparr>,
              st')"
    using g assms(2,3) run by (simp add: ingestContent_def)
  with store show ?thesis by blast
qed

lemma upload_fallback:
  assumes "or_empty (DASHSCOPE_API_KEY env) \<noteq> []"
    and "getFileExtension env (fileName f) \<in> set SUPPORTED_EXTENSIONS"
    and "saveFile env (uploadPath env (fileName f)) (fileBytes f) = None"
    and "extractContent env (getFileExtension env (fileName f)) (uploadPath env (fileName f))
           (fileBytes f) = Inr (extracted, ft)"
    and "10 \<le> length (cleanContent extracted)"
    and "splitDocuments env (chunkSize (fst (getRagConfig st))) (chunkOverlap (fst (getRagConfig st)))
           [wholeDocument (cleanContent extracted) (fileName f) (TypeName ft)] = Inr []"
    and "embeddingsEndpoint env
           (calls st @ [FileWritten (uploadPath env (fileName f)) (fileBytes f)])
           [processText (cleanContent extracted)] = Embeddings vectors"
  shows "\<exists>docMeta st'.
           POST_upload env (Some f) st =
             (\<lparr>status = 200,
               body = UploadedBody (MSG_UPLOADED_HEAD @ decimal 1 @ MSG_UPLOADED_TAIL) docMeta\<rparr>,
              st')
         \<and> chunkCount docMeta = 1
         \<and> or_empty (documentMetas st') = or_empty (documentMetas st) @ [docMeta]
         \<and> or_empty (storedDocuments st') =
             or_empty (storedDocuments st)
             @ [\<lparr>docId = id' docMeta,
                 doc = docWithMeta (id' docMeta) (fileName f) (fileType docMeta)
                         (wholeDocument (cleanContent extracted) (fileName f) (TypeName ft))\<rparr>]
         \<and> map snd (or_empty (vectorStoreInstance st')) =
             map snd (or_empty (vectorStoreInstance st))
             @ [docWithMeta (id' docMeta) (fileName f) (fileType docMeta)
                  (wholeDocument (cleanContent extracted) (fileName f) (TypeName ft))]
         \<and> pageContent (docWithMeta (id' docMeta) (fileName f) (fileType docMeta)
                          (wholeDocument (cleanContent extracted) (fileName f) (TypeName ft))) = (cleanContent extracted)"
proof -
  define st1 where
    "st1 = st\<lparr>calls := calls st @ [FileWritten (uploadPath env (fileName f)) (fileBytes f)]\<rparr>"
  have cfg: "fst (getRagConfig st1) = fst (getRagConfig st)"
    by (simp add: getRagConfig_def st1_def split: option.splits)
  have "POST_upload env (Some f) st =
          ingestContent env (fileName f) (cleanContent extracted) ft st1"
    using assms(1-5) by (simp add: POST_upload_def Let_def st1_def)
  moreover have "0 < length (cleanContent extracted)"
    using assms(5) by linarith
  moreover note ingestContent_fallback
    [of env st1 "cleanContent extracted" "fileName f" ft vectors]
  ultimately show ?thesis
    using assms(1,6,7) cfg by (simp add: st1_def)
qed

lemma reindex_fallback:
  assumes "or_empty (DASHSCOPE_API_KEY env) \<noteq> []"
    and "parseFile env (uploadPath env name) name = Inr parsed"
    and "10 \<le> length (cleanContent parsed)"
    and "splitDocuments env (chunkSize cfg) (chunkOverlap cfg)
           [wholeDocument (cleanContent parsed) name (detectFileType env name)] = Inr []"
    and "embeddingsEndpoint env (calls st) [processText (cleanContent parsed)] = Embeddings vectors"
  shows "\<exists>docMeta st'.
           reindexFile env cfg name (results, n, st) =
             (results @ [\<lparr>resultFilename = name, resultStatus = STATUS_OK,
                          resultChunks = Some 1\<rparr>], n + 1, st')
         \<and> chunkCount docMeta = 1
         \<and> or_empty (documentMetas st') = or_empty (documentMetas st) @ [docMeta]
         \<and> or_empty (storedDocuments st') =
             or_empty (storedDocuments st)
             @ [\<lparr>docId = id' docMeta,
                 doc = docWithMeta (id' docMeta) name (fileType docMeta)
                         (wholeDocument (cleanContent parsed) name (detectFileType env name))\<rparr>]
         \<and> map snd (or_empty (vectorStoreInstance st')) =
             map snd (or_empty (vectorStoreInstance st))
             @ [docWithMeta (id' docMeta) name (fileType docMeta)
                  (wholeDocument (cleanContent parsed) name (detectFileType env name))]
         \<and> pageContent (docWithMeta (id' docMeta) name (fileType docMeta)
                          (wholeDocument (cleanContent parsed) name (detectFileType env name))) = (cleanContent parsed)"
proof -
  from addDocumentsToStore_whole
    [of env st "cleanContent parsed" vectors name "detectFileType env name"] assms(1,5)
  obtain docMeta st' where
    run: "addDocumentsToStore env
            [wholeDocument (cleanContent parsed) name (detectFileType env name)] name
            (Some (detectFileType env name)) st = (Inr docMeta, st')"
    and store: "chunkCount docMeta = 1
         \<and> or_empty (documentMetas st') = or_empty (documentMetas st) @ [docMeta]
         \<and> or_empty (storedDocuments st') =
             or_empty (storedDocuments st)
             @ [\<lparr>docId = id' docMeta,
                 doc = docWithMeta (id' docMeta) name (fileType docMeta)
                         (wholeDocument (cleanContent parsed) name (detectFileType env name))\<rparr>]
         \<and> map snd (or_empty (vectorStoreInstance st')) =
             map snd (or_empty (vectorStoreInstance st))
             @ [docWithMeta (id' docMeta) name (fileType docMeta)
                  (wholeDocument (cleanContent parsed) name (detectFileType env name))]
         \<and> pageContent (docWithMeta (id' docMeta) name (fileType docMeta)
                          (wholeDocument (cleanContent parsed) name (detectFileType env name))) = (cleanContent parsed)"
    by auto
  have "0 < length (cleanContent parsed)" "\<not> length (cleanContent parsed) < 10"
    using assms(3) by linarith+
  then have "reindexFile env cfg name (results, n, st) =
             (results @ [\<lparr>resultFilename = name, resultStatus = STATUS_OK,
                          resultChunks = Some 1\<rparr>], n + 1, st')"
    using assms(2,4) run by (simp add: reindexFile_def Let_def)
  with store show ?thesis by blast
qed

text \<open>
  C7. In both routes, when the cleaned text has at least 10 code units and the splitter
  returns no segment, the list handed to \<open>addDocumentsToStore\<close> is the one document
  made of the whole cleaned text. With the embedding of that text answered, the upload
  succeeds with one fragment (the reindex records the file as done with one chunk): the
  new record counts 1 chunk, and \<open>storedDocuments\<close> and the vector store have gained
  exactly one entry, whose page content is the whole cleaned text.
\<close>

theorem fallback_to_whole_document:
  "((or_empty (DASHSCOPE_API_KEY env) \<noteq> [])
      \<and> (getFileExtension env (fileName f) \<in> set SUPPORTED_EXTENSIONS)
      \<and> (saveFile env (uploadPath env (fileName f)) (fileBytes f) = None)
      \<and> (extractContent env (getFileExtension env (fileName f)) (uploadPath env (fileName f))
          (fileBytes f) = Inr (extracted, ft))
      \<and> (10 \<le> length (cleanContent extracted))
      \<and> (splitDocuments env (chunkSize (fst (getRagConfig st))) (chunkOverlap (fst (getRagConfig st)))
          [wholeDocument (cleanContent extracted) (fileName f) (TypeName ft)] = Inr [])
      \<and> (embeddingsEndpoint env
          (calls st @ [FileWritten (uploadPath env (fileName f)) (fileBytes f)])
          [processText (cleanContent extracted)] = Embeddings vectors)
      \<longrightarrow> (\<exists>docMeta st'.
           POST_upload env (Some f) st =
             (\<lparr>status = 200,
               body = UploadedBody (MSG_UPLOADED_HEAD @ decimal 1 @ MSG_UPLOADED_TAIL) docMeta\<rparr>,
              st')
         \<and> chunkCount docMeta = 1
         \<and> or_empty (documentMetas st') = or_empty (documentMetas st) @ [docMeta]
         \<and> or_empty (storedDocuments st') =
             or_empty (storedDocuments st)
             @ [\<lparr>docId = id' docMeta,
                 doc = docWithMeta (id' docMeta) (fileName f) (fileType docMeta)
                         (wholeDocument (cleanContent extracted) (fileName f) (TypeName ft))\<rparr>]
         \<and> map snd (or_empty (vectorStoreInstance st')) =
             map snd (or_empty (vectorStoreInstance st))
             @ [docWithMeta (id' docMeta) (fileName f) (fileType docMeta)
                  (wholeDocument (cleanContent extracted) (fileName f) (TypeName ft))]
         \<and> pageContent (docWithMeta (id' docMeta) (fileName f) (fileType docMeta)
                          (wholeDocument (cleanContent extracted) (fileName f) (TypeName ft))) = (cleanContent extracted)))
   \<and> ((or_empty (DASHSCOPE_API_KEY env) \<noteq> [])
      \<and> (parseFile env (uploadPath env name) name = Inr parsed)
      \<and> (10 \<le> length (cleanContent parsed))
      \<and> (splitDocuments env (chunkSize cfg) (chunkOverlap cfg)
          [wholeDocument (cleanContent parsed) name (detectFileType env name)] = Inr [])
      \<and> (embeddingsEndpoint env (calls st) [processText (cleanContent parsed)] = Embeddings vectors)
      \<longrightarrow> (\<exists>docMeta st'.
           reindexFile env cfg name (results, n, st) =
             (results @ [\<lparr>resultFilename = name, resultStatus = STATUS_OK,
                          resultChunks = Some 1\<rparr>], n + 1, st')
         \<and> chunkCount docMeta = 1
         \<and> or_empty (documentMetas st') = or_empty (documentMetas st) @ [docMeta]
         \<and> or_empty (storedDocuments st') =
             or_empty (storedDocuments st)
             @ [\<lparr>docId = id' docMeta,
                 doc = docWithMeta (id' docMeta) name (fileType docMeta)
                         (wholeDocument (cleanContent parsed) name (detectFileType env name))\<rparr>]
         \<and> map snd (or_empty (vectorStoreInstance st')) =
             map snd (or_empty (vectorStoreInstance st))
             @ [docWithMeta (id' docMeta) name (fileType docMeta)
                  (wholeDocument (cleanContent parsed) name (detectFileType env name))]
         \<and> pageContent (docWithMeta (id' docMeta) name (fileType docMeta)
                          (wholeDocument (cleanContent parsed) name (detectFileType env name))) = (cleanContent parsed)))"
  using upload_fallback [of env f extracted ft st vectors]
    reindex_fallback [of env name parsed cfg st vectors results n]
  by blast

lemma cleanContent_hello: "cleanContent (js ''Hello  world!'') = js ''Hello world!''"
  by (simp add: cleanContent_def trim_def isWhiteSpace_def isBlank_def js_def)

lemma detectFileType_note: "detectFileType env_short (js ''note.txt'') = TypeName (js ''TXT'')"
proof -
  have "getFileExtension env_short (js ''note.txt'') = js ''txt''"
    using getFileExtension_txt(2) by (simp add: getFileExtension_def env_short_def env0_def)
  then show ?thesis
    by (simp add: detectFileType_def typeMap_def js_def)
qed

theorem fallback_to_whole_document_witness:
  "(or_empty (DASHSCOPE_API_KEY env_short) \<noteq> [])
   \<and> (getFileExtension env_short (fileName file_short) \<in> set SUPPORTED_EXTENSIONS)
   \<and> (saveFile env_short (uploadPath env_short (fileName file_short)) (fileBytes file_short) = None)
   \<and> (extractContent env_short (getFileExtension env_short (fileName file_short)) (uploadPath env_short (fileName file_short))
          (fileBytes file_short) = Inr ((js ''Hello  world!''), (js ''TXT'')))
   \<and> (10 \<le> length (cleanContent (js ''Hello  world!'')))
   \<and> (splitDocuments env_short (chunkSize (fst (getRagConfig st_one))) (chunkOverlap (fst (getRagConfig st_one)))
          [wholeDocument (cleanContent (js ''Hello  world!'')) (fileName file_short) (TypeName (js ''TXT''))] = Inr [])
   \<and> (embeddingsEndpoint env_short
          (calls st_one @ [FileWritten (uploadPath env_short (fileName file_short)) (fileBytes file_short)])
          [processText (cleanContent (js ''Hello  world!''))] = Embeddings [12])
   \<and> (\<exists>docMeta st'.
           POST_upload env_short (Some file_short) st_one =
             (\<lparr>status = 200,
               body = UploadedBody (MSG_UPLOADED_HEAD @ decimal 1 @ MSG_UPLOADED_TAIL) docMeta\<rparr>,
              st')
         \<and> chunkCount docMeta = 1
         \<and> or_empty (documentMetas st') = or_empty (documentMetas st_one) @ [docMeta]
         \<and> or_empty (storedDocuments st') =
             or_empty (storedDocuments st_one)
             @ [\<lparr>docId = id' docMeta,
                 doc = docWithMeta (id' docMeta) (fileName file_short) (fileType docMeta)
                         (wholeDocument (cleanContent (js ''Hello  world!'')) (fileName file_short) (TypeName (js ''TXT'')))\<rparr>]
         \<and> map snd (or_empty (vectorStoreInstance st')) =
             map snd (or_empty (vectorStoreInstance st_one))
             @ [docWithMeta (id' docMeta) (fileName file_short) (fileType docMeta)
                  (wholeDocument (cleanContent (js ''Hello  world!'')) (fileName file_short) (TypeName (js ''TXT'')))]
         \<and> pageContent (docWithMeta (id' docMeta) (fileName file_short) (fileType docMeta)
                          (wholeDocument (cleanContent (js ''Hello  world!'')) (fileName file_short) (TypeName (js ''TXT'')))) = (cleanContent (js ''Hello  world!'')))
   \<and> (or_empty (DASHSCOPE_API_KEY env_short) \<noteq> [])
   \<and> (parseFile env_short (uploadPath env_short (js ''note.txt'')) (js ''note.txt'') = Inr (js ''Hello  world!''))
   \<and> (10 \<le> length (cleanContent (js ''Hello  world!'')))
   \<and> (splitDocuments env_short (chunkSize DEFAULT_RAG_CONFIG) (chunkOverlap DEFAULT_RAG_CONFIG)
          [wholeDocument (cleanContent (js ''Hello  world!'')) (js ''note.txt'') (detectFileType env_short (js ''note.txt''))] = Inr [])
   \<and> (embeddingsEndpoint env_short (calls st_one) [processText (cleanContent (js ''Hello  world!''))] = Embeddings [12])
   \<and> (\<exists>docMeta st'.
           reindexFile env_short DEFAULT_RAG_CONFIG (js ''note.txt'') ([], 0, st_one) =
             ([] @ [\<lparr>resultFilename = (js ''note.txt''), resultStatus = STATUS_OK,
                          resultChunks = Some 1\<rparr>], 0 + 1, st')
         \<and> chunkCount docMeta = 1
         \<and> or_empty (documentMetas st') = or_empty (documentMetas st_one) @ [docMeta]
         \<and> or_empty (storedDocuments st') =
             or_empty (storedDocuments st_one)
             @ [\<lparr>docId = id' docMeta,
                 doc = docWithMeta (id' docMeta) (js ''note.txt'') (fileType docMeta)
                         (wholeDocument (cleanContent (js ''Hello  world!'')) (js ''note.txt'') (detectFileType env_short (js ''note.txt'')))\<rparr>]
         \<and> map snd (or_empty (vectorStoreInstance st')) =
             map snd (or_empty (vectorStoreInstance st_one))
             @ [docWithMeta (id' docMeta) (js ''note.txt'') (fileType docMeta)
                  (wholeDocument (cleanContent (js ''Hello  world!'')) (js ''note.txt'') (detectFileType env_short (js ''note.txt'')))]
         \<and> pageContent (docWithMeta (id' docMeta) (js ''note.txt'') (fileType docMeta)
                          (wholeDocument (cleanContent (js ''Hello  world!'')) (js ''note.txt'') (detectFileType env_short (js ''note.txt'')))) = (cleanContent (js ''Hello  world!'')))"
proof -
  have ext: "getFileExtension env_short (fileName file_short) = js ''txt''"
    using getFileExtension_txt(2)
    by (simp add: getFileExtension_def env_short_def env0_def file_short_def)
  have u1: "or_empty (DASHSCOPE_API_KEY env_short) \<noteq> []"
    by (simp add: env_short_def env0_def or_empty_def js_def)
  have u2: "getFileExtension env_short (fileName file_short) \<in> set SUPPORTED_EXTENSIONS"
    by (simp add: ext txt_supported)
  have u3: "saveFile env_short (uploadPath env_short (fileName file_short)) (fileBytes file_short)
              = None"
    by (simp add: env_short_def env0_def)
  have u4: "extractContent env_short (getFileExtension env_short (fileName file_short))
              (uploadPath env_short (fileName file_short)) (fileBytes file_short)
              = Inr (js ''Hello  world!'', js ''TXT'')"
    unfolding ext by (simp add: extractContent_def env_short_def env0_def)
  have u5: "10 \<le> length (cleanContent (js ''Hello  world!''))"
    unfolding cleanContent_hello by (simp add: js_def)
  have u6: "splitDocuments env_short (chunkSize (fst (getRagConfig st_one)))
              (chunkOverlap (fst (getRagConfig st_one)))
              [wholeDocument (cleanContent (js ''Hello  world!'')) (fileName file_short) (TypeName (js ''TXT''))]
              = Inr []"
    by (simp add: env_short_def env0_def)
  have p: "processText (js ''Hello world!'') = js ''Hello world!''"
    by (simp add: processText_def trim_def isWhiteSpace_def Let_def js_def)
  have u7: "embeddingsEndpoint env_short
              (calls st_one
               @ [FileWritten (uploadPath env_short (fileName file_short)) (fileBytes file_short)])
              [processText (cleanContent (js ''Hello  world!''))] = Embeddings [12]"
    unfolding cleanContent_hello p by (simp add: env_short_def env0_def js_def)
  have r2: "parseFile env_short (uploadPath env_short (js ''note.txt'')) (js ''note.txt'')
              = Inr (js ''Hello  world!'')"
    using ext by (simp add: parseFile_def env_short_def env0_def file_short_def)
  have r4: "splitDocuments env_short (chunkSize DEFAULT_RAG_CONFIG) (chunkOverlap DEFAULT_RAG_CONFIG)
              [wholeDocument (cleanContent (js ''Hello  world!'')) (js ''note.txt'')
                 (detectFileType env_short (js ''note.txt''))] = Inr []"
    by (simp add: env_short_def env0_def)
  have r5: "embeddingsEndpoint env_short (calls st_one)
              [processText (cleanContent (js ''Hello  world!''))] = Embeddings [12]"
    unfolding cleanContent_hello p by (simp add: env_short_def env0_def js_def)
  note law = fallback_to_whole_document
    [of env_short file_short "js ''Hello  world!''" "js ''TXT''" st_one "[12]"
        "js ''note.txt''" "js ''Hello  world!''" DEFAULT_RAG_CONFIG "[]" 0]
  from law u1 u2 u3 u4 u5 u6 u7 have upload: "(\<exists>docMeta st'.
           POST_upload env_short (Some file_short) st_one =
             (\<lparr>status = 200,
               body = UploadedBody (MSG_UPLOADED_HEAD @ decimal 1 @ MSG_UPLOADED_TAIL) docMeta\<rparr>,
              st')
         \<and> chunkCount docMeta = 1
         \<and> or_empty (documentMetas st') = or_empty (documentMetas st_one) @ [docMeta]
         \<and> or_empty (storedDocuments st') =
             or_empty (storedDocuments st_one)
             @ [\<lparr>docId = id' docMeta,
                 doc = docWithMeta (id' docMeta) (fileName file_short) (fileType docMeta)
                         (wholeDocument (cleanContent (js ''Hello  world!'')) (fileName file_short) (TypeName (js ''TXT'')))\<rparr>]
         \<and> map snd (or_empty (vectorStoreInstance st')) =
             map snd (or_empty (vectorStoreInstance st_one))
             @ [docWithMeta (id' docMeta) (fileName file_short) (fileType docMeta)
                  (wholeDocument (cleanContent (js ''Hello  world!'')) (fileName file_short) (TypeName (js ''TXT'')))]
         \<and> pageContent (docWithMeta (id' docMeta) (fileName file_short) (fileType docMeta)
                          (wholeDocument (cleanContent (js ''Hello  world!'')) (fileName file_short) (TypeName (js ''TXT'')))) = (cleanContent (js ''Hello  world!'')))"
    by blast
  from law u1 r2 u5 r4 r5 have reindex: "(\<exists>docMeta st'.
           reindexFile env_short DEFAULT_RAG_CONFIG (js ''note.txt'') ([], 0, st_one) =
             ([] @ [\<lparr>resultFilename = (js ''note.txt''), resultStatus = STATUS_OK,
                          resultChunks = Some 1\<rparr>], 0 + 1, st')
         \<and> chunkCount docMeta = 1
         \<and> or_empty (documentMetas st') = or_empty (documentMetas st_one) @ [docMeta]
         \<and> or_empty (storedDocuments st') =
             or_empty (storedDocuments st_one)
             @ [\<lparr>docId = id' docMeta,
                 doc = docWithMeta (id' docMeta) (js ''note.txt'') (fileType docMeta)
                         (wholeDocument (cleanContent (js ''Hello  world!'')) (js ''note.txt'') (detectFileType env_short (js ''note.txt'')))\<rparr>]
         \<and> map snd (or_empty (vectorStoreInstance st')) =
             map snd (or_empty (vectorStoreInstance st_one))
             @ [docWithMeta (id' docMeta) (js ''note.txt'') (fileType docMeta)
                  (wholeDocument (cleanContent (js ''Hello  world!'')) (js ''note.txt'') (detectFileType env_short (js ''note.txt'')))]
         \<and> pageContent (docWithMeta (id' docMeta) (js ''note.txt'') (fileType docMeta)
                          (wholeDocument (cleanContent (js ''Hello  world!'')) (js ''note.txt'') (detectFileType env_short (js ''note.txt'')))) = (cleanContent (js ''Hello  world!'')))"
    by blast
  from upload reindex u1 u2 u3 u4 u5 u6 u7 r2 r4 r5 show ?thesis
    by blast
qed

section \<open>Deletion and consistency when ids do not collide\<close>

lemma embedDocuments_loop_fields:
  "embedDocuments_loop env texts i results st = (r, st') \<Longrightarrow>
     vectorStoreInstance st' = vectorStoreInstance st
     \<and> storedDocuments st' = storedDocuments st
     \<and> documentMetas st' = documentMetas st
     \<and> ragConfig st' = ragConfig st
     \<and> clockReads st' = clockReads st"
proof (induction env texts i results st rule: embedDocuments_loop.induct)
  case (1 env texts i results st)
  show ?case
  proof (cases "i < length texts")
    case False
    with "1.prems" show ?thesis
      by (simp add: embedDocuments_loop.simps [of env texts i])
  next
    case True
    obtain r1 st1 where c: "callDashScopeEmbedding env (take 10 (drop i texts)) st = (r1, st1)"
      by (cases "callDashScopeEmbedding env (take 10 (drop i texts)) st")
    note f = callDashScopeEmbedding_fields [OF c]
    show ?thesis
    proof (cases r1)
      case (Inl e)
      with "1.prems" True c have "st' = st1"
        by (simp add: embedDocuments_loop.simps [of env texts i])
      with f show ?thesis by simp
    next
      case (Inr embeddings)
      with "1.prems" True c
      have "embedDocuments_loop env texts (i + 10) (results @ embeddings) st1 = (r, st')"
        by (simp add: embedDocuments_loop.simps [of env texts i])
      from "1.IH" [OF True _ _ this] c Inr f show ?thesis
        by simp
    qed
  qed
qed

lemma rebuild_loop_fields:
  "rebuild_loop env remaining i store st = (r, st') \<Longrightarrow>
     vectorStoreInstance st' = vectorStoreInstance st
     \<and> storedDocuments st' = storedDocuments st
     \<and> documentMetas st' = documentMetas st
     \<and> ragConfig st' = ragConfig st
     \<and> clockReads st' = clockReads st"
proof (induction env remaining i store st rule: rebuild_loop.induct)
  case (1 env remaining i store st)
  show ?case
  proof (cases "i < length remaining")
    case False
    with "1.prems" show ?thesis
      by (simp add: rebuild_loop.simps [of env remaining i])
  next
    case True
    let ?texts = "map (\<lambda>d. pageContent (doc d)) (take 10 (drop i remaining))"
    obtain r1 st1 where c: "embedDocuments env ?texts st = (r1, st1)"
      by (cases "embedDocuments env ?texts st")
    from c have f: "vectorStoreInstance st1 = vectorStoreInstance st
       \<and> storedDocuments st1 = storedDocuments st
       \<and> documentMetas st1 = documentMetas st
       \<and> ragConfig st1 = ragConfig st
       \<and> clockReads st1 = clockReads st"
      unfolding embedDocuments_def by (rule embedDocuments_loop_fields)
    show ?thesis
    proof (cases r1)
      case (Inl e)
      with "1.prems" True c have "st' = st1"
        by (simp add: rebuild_loop.simps [of env remaining i] Let_def)
      with f show ?thesis by simp
    next
      case (Inr vectors)
      with "1.prems" True c
      have "rebuild_loop env remaining (i + 10)
              (rebuildBatch (take 10 (drop i remaining)) vectors store) st1 = (r, st')"
        by (simp add: rebuild_loop.simps [of env remaining i] Let_def)
      from "1.IH" [OF True refl _ _ this] c Inr f show ?thesis
        by simp
    qed
  qed
qed

text \<open>
  Whether the rebuild of the vector store succeeds or not, \<open>deleteDocument\<close> has
  filtered the registry and the stored chunks.
\<close>

lemma deleteDocument_registry:
  assumes "deleteDocument env i st = (r, st')"
  shows "or_empty (documentMetas st') = filter (\<lambda>m. id' m \<noteq> i) (or_empty (documentMetas st))"
    and "or_empty (storedDocuments st') = filter (\<lambda>d. docId d \<noteq> i) (or_empty (storedDocuments st))"
    and "ragConfig st' = ragConfig st"
proof -
  define metas where "metas = filter (\<lambda>m. id' m \<noteq> i) (or_empty (documentMetas st))"
  define remaining where "remaining = filter (\<lambda>d. docId d \<noteq> i) (or_empty (storedDocuments st))"
  define st1 where "st1 = st\<lparr>documentMetas := Some metas, storedDocuments := Some remaining\<rparr>"
  obtain r2 st2 where loop: "rebuild_loop env remaining 0 [] st1 = (r2, st2)"
    by (cases "rebuild_loop env remaining 0 [] st1")
  note f = rebuild_loop_fields [OF loop]
  have "documentMetas st' = documentMetas st2 \<and> storedDocuments st' = storedDocuments st2
        \<and> ragConfig st' = ragConfig st2"
    using assms loop
    by (cases r2) (auto simp: deleteDocument_def Let_def metas_def remaining_def st1_def)
  with f show "or_empty (documentMetas st') = filter (\<lambda>m. id' m \<noteq> i) (or_empty (documentMetas st))"
    and "or_empty (storedDocuments st') = filter (\<lambda>d. docId d \<noteq> i) (or_empty (storedDocuments st))"
    and "ragConfig st' = ragConfig st"
    by (simp_all add: st1_def metas_def remaining_def or_empty_def)
qed

lemma filter_fresh:
  assumes "i \<notin> f ` set xs"
  shows "filter (\<lambda>x. f x \<noteq> i) xs = xs"
  using assms by (induction xs) auto

text \<open>
  The deletion law where the new id is fresh: ingesting a document and deleting it by
  its id gives back the registry and the stored chunks of before; the ingestion raises
  the document count by 1 and the chunk total by the document's chunk count, and the
  deletion lowers them by the same.
\<close>

lemma deletion_law_fresh_id:
  assumes ingest: "addDocumentsToStore env docs fn ft st = (Inr m, st1)"
    and fresh: "fresh_id (nextDocId env st) st"
    and delete: "deleteDocument env (id' m) st1 = (r, st2)"
  shows "or_empty (storedDocuments st2) = or_empty (storedDocuments st)"
    and "or_empty (documentMetas st2) = or_empty (documentMetas st)"
    and "documentCount (fst (getKnowledgeBaseStats st1))
           = documentCount (fst (getKnowledgeBaseStats st)) + 1"
    and "totalChunks (fst (getKnowledgeBaseStats st1))
           = totalChunks (fst (getKnowledgeBaseStats st)) + chunkCount m"
    and "documentCount (fst (getKnowledgeBaseStats st2))
           = documentCount (fst (getKnowledgeBaseStats st1)) - 1"
    and "totalChunks (fst (getKnowledgeBaseStats st2))
           = totalChunks (fst (getKnowledgeBaseStats st1)) - chunkCount m"
proof -
  note a = addDocumentsToStore_Inr [OF ingest]
  note d = deleteDocument_registry [OF delete]
  have i: "id' m = nextDocId env st"
    using a(1) by (simp add: nextDocId_def)
  from fresh have f1: "id' m \<notin> id' ` set (or_empty (documentMetas st))"
    and f2: "id' m \<notin> docId ` set (or_empty (storedDocuments st))"
    by (simp_all add: fresh_id_def i)
  show s: "or_empty (storedDocuments st2) = or_empty (storedDocuments st)"
    using d(2) a(4) filter_fresh [OF f2] by (simp add: o_def)
  show ms: "or_empty (documentMetas st2) = or_empty (documentMetas st)"
    using d(1) a(3) filter_fresh [OF f1] by simp
  have stats: "documentCount (fst (getKnowledgeBaseStats s)) = length (or_empty (documentMetas s))"
    "totalChunks (fst (getKnowledgeBaseStats s))
       = foldl (\<lambda>sum m. sum + chunkCount m) 0 (or_empty (documentMetas s))" for s :: "'a state"
    by (simp_all add: getKnowledgeBaseStats_def Let_def split: prod.splits)
  show "documentCount (fst (getKnowledgeBaseStats st1))
           = documentCount (fst (getKnowledgeBaseStats st)) + 1"
    and "totalChunks (fst (getKnowledgeBaseStats st1))
           = totalChunks (fst (getKnowledgeBaseStats st)) + chunkCount m"
    and "documentCount (fst (getKnowledgeBaseStats st2))
           = documentCount (fst (getKnowledgeBaseStats st1)) - 1"
    and "totalChunks (fst (getKnowledgeBaseStats st2))
           = totalChunks (fst (getKnowledgeBaseStats st1)) - chunkCount m"
    by (simp_all add: stats ms a(3))
qed

lemma consistent_clear: "consistent (clearKnowledgeBase st)"
  by (simp add: consistent_def clearKnowledgeBase_def or_empty_def)

lemma consistent_delete:
  assumes "consistent st" "deleteDocument env i st = (r, st')"
  shows "consistent st'"
proof -
  note d = deleteDocument_registry [OF assms(2)]
  have "filter (\<lambda>d. docId d = j) (filter (\<lambda>d. docId d \<noteq> i) xs) = filter (\<lambda>d. docId d = j) xs"
    if "j \<noteq> i" for j and xs :: "storedDocument list"
    using that by (induction xs) auto
  with assms(1) show ?thesis
    by (auto simp: consistent_def d)
qed

lemma consistent_ingest:
  assumes "consistent st" "fresh_id (nextDocId env st) st"
    and "addDocumentsToStore env docs fn ft st = (r, st')"
  shows "consistent st'"
proof (cases r)
  case (Inl e)
  from addDocumentsToStore_Inl [OF assms(3) [unfolded Inl] refl]
  obtain k where metas: "or_empty (documentMetas st') = or_empty (documentMetas st)"
    and stored: "or_empty (storedDocuments st') =
           or_empty (storedDocuments st)
           @ map (\<lambda>d. \<lparr>docId = nextDocId env st,
                        doc = docWithMeta (nextDocId env st) fn
                                (detectedFileType env fn ft) d\<rparr>)
               (take (10 * k) docs)"
    by blast
  from assms(1,2) show ?thesis
    by (auto simp: consistent_def fresh_id_def metas stored filter_empty_conv)
next
  case (Inr m)
  note a = addDocumentsToStore_Inr [OF assms(3) [unfolded Inr]]
  have i: "id' m = nextDocId env st"
    using a(1) by (simp add: nextDocId_def)
  have none: "filter (\<lambda>d. docId d = j)
          (map (\<lambda>d. \<lparr>docId = id' m, doc = g d\<rparr>) xs) = []"
    if "j \<noteq> id' m" for j g and xs :: "document list"
    using that by (induction xs) auto
  have all: "length (filter (\<lambda>d. docId d = id' m)
          (map (\<lambda>d. \<lparr>docId = id' m, doc = g d\<rparr>) xs)) = length xs"
    for g and xs :: "document list"
    by (induction xs) auto
  have f1: "\<forall>m0 \<in> set (or_empty (documentMetas st)). id' m0 \<noteq> id' m"
    and f2: "\<forall>d \<in> set (or_empty (storedDocuments st)). docId d \<noteq> id' m"
    using assms(2) unfolding fresh_id_def i [symmetric] by (metis image_eqI)+
  have old: "filter (\<lambda>d. docId d = id' m) (or_empty (storedDocuments st)) = []"
    using f2 by (simp add: filter_empty_conv)
  show ?thesis
    unfolding consistent_def a(3) a(4)
  proof
    fix m0 assume "m0 \<in> set (or_empty (documentMetas st) @ [m])"
    then consider "m0 \<in> set (or_empty (documentMetas st))" | "m0 = m"
      by auto
    then show "chunkCount m0 =
        length (filter (\<lambda>d. docId d = id' m0)
                 (or_empty (storedDocuments st)
                  @ map (\<lambda>d. \<lparr>docId = id' m, doc = docWithMeta (id' m) fn (fileType m) d\<rparr>) docs))"
    proof cases
      case 1
      with f1 have "id' m0 \<noteq> id' m"
        by blast
      with 1 assms(1) none show ?thesis
        by (simp add: consistent_def)
    next
      case 2
      then show ?thesis
        by (simp add: old all a(2))
    qed
  qed
qed

text \<open>
  The registry stays consistent with the stored chunks along every sequence of
  ingestions, deletions and clearings, failed ones included, in which each ingestion
  draws a fresh id.
\<close>

lemma consistent_fresh_run:
  "consistent st \<Longrightarrow> fresh_run env ops st \<Longrightarrow> consistent (fold (perform env) ops st)"
proof (induction ops arbitrary: st)
  case Nil
  then show ?case by simp
next
  case (Cons op ops)
  have "consistent (perform env op st)"
  proof (cases op)
    case (Ingest docs name ft)
    with Cons.prems show ?thesis
      using consistent_ingest [of st env docs name ft]
      by (cases "addDocumentsToStore env docs name ft st") auto
  next
    case (Delete i)
    with Cons.prems show ?thesis
      using consistent_delete [of st env i]
      by (cases "deleteDocument env i st") auto
  next
    case Clear
    then show ?thesis by (simp add: consistent_clear)
  qed
  with Cons show ?case by simp
qed

subsection \<open>Ids and clock readings\<close>

lemma decimal_not_Nil: "decimal n \<noteq> []"
  by (subst decimal.simps) simp

lemma decimal_inj: "decimal m = decimal n \<Longrightarrow> m = n"
proof (induction m arbitrary: n rule: decimal.induct)
  case (1 m)
  show ?case
  proof (cases "m < 10")
    case True
    show ?thesis
    proof (cases "n < 10")
      case True
      with \<open>m < 10\<close> "1.prems" show ?thesis
        by (simp add: decimal.simps [of m] decimal.simps [of n])
    next
      case False
      with True "1.prems" decimal_not_Nil [of "n div 10"] show ?thesis
        by (simp add: decimal.simps [of m] decimal.simps [of n])
    qed
  next
    case False
    show ?thesis
    proof (cases "n < 10")
      case True
      with False "1.prems" decimal_not_Nil [of "m div 10"] show ?thesis
        by (simp add: decimal.simps [of m] decimal.simps [of n])
    next
      case n: False
      with False "1.prems" have "decimal (m div 10) = decimal (n div 10)" "m mod 10 = n mod 10"
        by (simp_all add: decimal.simps [of m] decimal.simps [of n])
      with "1.IH" [OF False] have "m div 10 = n div 10" "m mod 10 = n mod 10"
        by simp_all
      then show ?thesis
        by (metis div_mult_mod_eq)
    qed
  qed
qed

text \<open>Two ingestions get the same id exactly when they read the same millisecond.\<close>

lemma nextDocId_eq_iff:
  "nextDocId env st = nextDocId env st'
     \<longleftrightarrow> dateNow env (clockReads st) = dateNow env (clockReads st')"
  by (auto simp: nextDocId_def dest: decimal_inj)

end
